(* ===== verification/Kvs_Prelude.thy ===== *)
theory Kvs_Prelude
  imports Main "HOL-Library.AList" "HOL-Library.Word"
begin

text \<open>
  Shared vocabulary of the development: the outcomes of a Go call (a value or a panic), the
  error values the program builds and compares, decimal rendering (\<open>%d\<close> of \<open>fmt.Sprintf\<close>
  and \<open>strconv.Itoa\<close>), Go maps with their nil value, and the generic facts about them that
  the component theories use through the collections \<open>go_simps\<close> and \<open>name_simps\<close>.
\<close>

named_theorems go_simps \<open>unfolding of the Go-level helpers (maps, errors, outcomes)\<close>
named_theorems name_simps \<open>facts about rendered numbers and names\<close>

section \<open>Outcomes and errors\<close>

text \<open>A Go call returns a value, ends the process (a panic that is not recovered, or
  \<open>log.Fatal\<close>), or never returns (a retry loop that never succeeds).\<close>

datatype 'a outcome = Return 'a | Panic | Diverge

fun bind_outcome :: "'a outcome \<Rightarrow> ('a \<Rightarrow> 'b outcome) \<Rightarrow> 'b outcome" where
  "bind_outcome (Return x) f = f x"
| "bind_outcome Panic f = Panic"
| "bind_outcome Diverge f = Diverge"

text \<open>
  Error values. \<open>RaftErr\<close> carries which sentinel of the Raft library the error is compared
  with, and the message the library gives it; \<open>Errorf\<close> is an error built by
  \<open>fmt.Errorf\<close>; \<open>LibErr\<close> is any other error of a library the program calls;
  \<open>StatusErr\<close> is an error that came back over gRPC, a code and a description.
\<close>

datatype raft_sentinel = NotLeader | NothingNewToSnapshot | OtherRaft

datatype err =
    KeyNotFound
  | ErrWritesDisabled
  | RaftErr raft_sentinel string
  | Errorf string
  | LibErr string
  | StatusErr string string

fun Error :: "err \<Rightarrow> string" where
  "Error KeyNotFound = ''Key not found''"
| "Error ErrWritesDisabled = ''Writes disabled. Please try again later.''"
| "Error (RaftErr s m) = m"
| "Error (Errorf m) = m"
| "Error (LibErr m) = m"
| "Error (StatusErr c m) = ''rpc error: code = '' @ c @ '' desc = '' @ m"

fun is_raft_err :: "raft_sentinel \<Rightarrow> err \<Rightarrow> bool" where
  "is_raft_err s (RaftErr s' m) = (s = s')"
| "is_raft_err s e = False"

lemma is_raft_err_iff [go_simps]: "is_raft_err s e \<longleftrightarrow> (\<exists>m. e = RaftErr s m)"
  by (cases e) auto

section \<open>Decimal rendering\<close>

definition digit_char :: "nat \<Rightarrow> char" where
  "digit_char d = ''0123456789'' ! d"

fun utoa :: "nat \<Rightarrow> string" where
  "utoa n = (if n < 10 then [digit_char n] else utoa (n div 10) @ [digit_char (n mod 10)])"

declare utoa.simps [simp del]

definition itoa :: "int \<Rightarrow> string" where
  "itoa i = (if i < 0 then CHR ''-'' # utoa (nat (- i)) else utoa (nat i))"

lemmas render_simps = itoa_def utoa.simps digit_char_def

text \<open>Reading a rendered number back, used to show that rendering is injective.\<close>

definition utoa_value :: "string \<Rightarrow> nat" where
  "utoa_value s = foldl (\<lambda>a c. 10 * a + (of_char c - 48)) 0 s"

lemma of_char_digit_char [simp]:
  assumes "d < 10"
  shows "of_char (digit_char d) = (48 + d :: nat)"
proof -
  have "d = 0 \<or> d = 1 \<or> d = 2 \<or> d = 3 \<or> d = 4 \<or> d = 5 \<or> d = 6 \<or> d = 7 \<or> d = 8 \<or> d = 9"
    using assms by arith
  then show ?thesis by (elim disjE) (simp_all add: digit_char_def)
qed

lemma utoa_value_utoa: "utoa_value (utoa n) = n"
proof (induction n rule: utoa.induct)
  case (1 n)
  show ?case
  proof (cases "n < 10")
    case True
    then show ?thesis by (subst utoa.simps) (simp add: utoa_value_def)
  next
    case False
    then have "utoa_value (utoa (n div 10)) = n div 10" by (rule "1.IH")
    with False show ?thesis by (subst utoa.simps) (simp add: utoa_value_def)
  qed
qed

lemma utoa_inject [name_simps, simp]: "utoa m = utoa n \<longleftrightarrow> m = n"
  by (metis utoa_value_utoa)

lemma utoa_chars: "c \<in> set (utoa n) \<Longrightarrow> 48 \<le> (of_char c :: nat) \<and> (of_char c :: nat) \<le> 57"
proof (induction n rule: utoa.induct)
  case (1 n)
  show ?case
  proof (cases "n < 10")
    case True
    with "1.prems" show ?thesis by (subst (asm) utoa.simps) simp
  next
    case False
    have "c \<in> set (utoa (n div 10)) \<or> c = digit_char (n mod 10)"
      using "1.prems" False by (subst (asm) utoa.simps) auto
    moreover have "n mod 10 < 10" by simp
    ultimately show ?thesis
      using "1.IH" [OF False] of_char_digit_char [of "n mod 10"] by fastforce
  qed
qed

lemma utoa_nonempty [name_simps, simp]: "utoa n \<noteq> []"
  by (subst utoa.simps) simp

lemma minus_notin_utoa [name_simps, simp]: "CHR ''-'' \<notin> set (utoa n)"
  using utoa_chars [of "CHR ''-''" n] by auto

lemma itoa_of_nat [name_simps, simp]: "itoa (int n) = utoa n"
  by (simp add: itoa_def)

lemma itoa_inject [name_simps, simp]: "itoa i = itoa j \<longleftrightarrow> i = j"
proof
  assume eq: "itoa i = itoa j"
  have sign: "(i < 0) = (j < 0)"
    using eq minus_notin_utoa by (metis itoa_def list.set_intros(1))
  show "i = j"
    using eq sign by (auto simp: itoa_def split: if_splits)
qed simp

text \<open>Names built around a separator determine their parts when the part behind it does not contain
  the separator.\<close>

lemma append_sep_inject [name_simps]:
  assumes "c \<notin> set ys" and "c \<notin> set ys'"
  shows "xs @ c # ys = xs' @ c # ys' \<longleftrightarrow> xs = xs' \<and> ys = ys'"
proof
  assume eq: "xs @ c # ys = xs' @ c # ys'"
  have suffix: "takeWhile (\<lambda>x. x \<noteq> c) (rev (zs @ c # us)) = rev us" if "c \<notin> set us" for zs us :: "'a list"
    using that by (auto simp: takeWhile_tail)
  have "ys = ys'" using suffix [OF assms(1), of xs] suffix [OF assms(2), of xs'] eq by simp
  with eq show "xs = xs' \<and> ys = ys'" by simp
qed simp

lemma notin_utoa: "(of_char c :: nat) < 48 \<or> 57 < (of_char c :: nat) \<Longrightarrow> c \<notin> set (utoa n)"
  using utoa_chars [of c n] by auto

lemma separators_notin_itoa [name_simps, simp]: "CHR '':'' \<notin> set (itoa i)" "CHR ''.'' \<notin> set (itoa i)"
  by (simp_all add: itoa_def notin_utoa)

section \<open>Go maps\<close>

text \<open>
  The contents of a Go map object is an association list; the order of the list stands for
  the order in which a \<open>range\<close> loop would visit it.  A map value of the program is a
  reference to such an object, or nil.
\<close>

type_synonym gomap = "(string \<times> string) list"

type_synonym mref = "nat option"

record heap =
  heap_maps :: "nat \<Rightarrow> gomap"
  heap_next :: nat

definition wf_map :: "gomap \<Rightarrow> bool" where
  "wf_map m \<longleftrightarrow> distinct (map fst m)"

definition empty_heap :: heap where
  "empty_heap = \<lparr>heap_maps = (\<lambda>_. []), heap_next = 0\<rparr>"

text \<open>Reading through nil sees an empty map, deleting through nil does nothing, and storing
  through nil panics, as the language defines.\<close>

definition map_read :: "heap \<Rightarrow> mref \<Rightarrow> gomap" where
  "map_read h r = (case r of None \<Rightarrow> [] | Some a \<Rightarrow> heap_maps h a)"

definition map_put :: "heap \<Rightarrow> mref \<Rightarrow> string \<Rightarrow> string \<Rightarrow> heap outcome" where
  "map_put h r k v =
     (case r of
        None \<Rightarrow> Panic
      | Some a \<Rightarrow> Return (h\<lparr>heap_maps := (heap_maps h)(a := AList.update k v (heap_maps h a))\<rparr>))"

definition map_del :: "heap \<Rightarrow> mref \<Rightarrow> string \<Rightarrow> heap" where
  "map_del h r k =
     (case r of
        None \<Rightarrow> h
      | Some a \<Rightarrow> h\<lparr>heap_maps := (heap_maps h)(a := AList.delete k (heap_maps h a))\<rparr>)"

definition map_new :: "heap \<Rightarrow> gomap \<Rightarrow> mref \<times> heap" where
  "map_new h m =
     (Some (heap_next h),
      h\<lparr>heap_maps := (heap_maps h)(heap_next h := m), heap_next := Suc (heap_next h)\<rparr>)"

definition valid_ref :: "heap \<Rightarrow> mref \<Rightarrow> bool" where
  "valid_ref h r \<longleftrightarrow> (case r of None \<Rightarrow> True | Some a \<Rightarrow> a < heap_next h)"

definition wf_heap :: "heap \<Rightarrow> bool" where
  "wf_heap h \<longleftrightarrow> (\<forall>a. wf_map (heap_maps h a))"

lemma wf_map_Nil [simp]: "wf_map []"
  by (simp add: wf_map_def)

lemma wf_map_update [simp]: "wf_map m \<Longrightarrow> wf_map (AList.update k v m)"
  by (simp add: wf_map_def distinct_update)

lemma wf_map_delete [simp]: "wf_map m \<Longrightarrow> wf_map (AList.delete k m)"
  by (simp add: wf_map_def distinct_delete)

lemma map_read_None [simp, go_simps]: "map_read h None = []"
  by (simp add: map_read_def)

lemma map_read_Some [simp, go_simps]: "map_read h (Some a) = heap_maps h a"
  by (simp add: map_read_def)

lemma map_put_Some [simp, go_simps]:
  "map_put h (Some a) k v = Return (h\<lparr>heap_maps := (heap_maps h)(a := AList.update k v (heap_maps h a))\<rparr>)"
  by (simp add: map_put_def)

lemma map_put_None [simp, go_simps]: "map_put h None k v = Panic"
  by (simp add: map_put_def)

lemma map_del_Some [simp, go_simps]:
  "map_del h (Some a) k = h\<lparr>heap_maps := (heap_maps h)(a := AList.delete k (heap_maps h a))\<rparr>"
  by (simp add: map_del_def)

lemma map_del_None [simp, go_simps]: "map_del h None k = h"
  by (simp add: map_del_def)

lemma map_put_panic_iff: "map_put h r k v = Panic \<longleftrightarrow> r = None"
  by (simp add: map_put_def split: option.splits)

lemma map_put_read:
  "map_put h r k v = Return h' \<Longrightarrow>
   map_of (map_read h' r') = (if r' = r then (map_of (map_read h r))(k \<mapsto> v) else map_of (map_read h r'))"
  by (cases r; cases r') (auto simp: update_conv')

lemma map_del_read:
  "map_of (map_read (map_del h r k) r') =
     (if r' = r then (map_of (map_read h r))(k := None) else map_of (map_read h r'))"
  by (cases r; cases r') (auto simp: map_del_def delete_conv')

lemma map_put_next [simp]: "map_put h r k v = Return h' \<Longrightarrow> heap_next h' = heap_next h"
  by (auto simp: map_put_def split: option.splits)

lemma map_del_next [simp]: "heap_next (map_del h r k) = heap_next h"
  by (auto simp: map_del_def split: option.splits)

lemma map_put_wf: "wf_heap h \<Longrightarrow> map_put h r k v = Return h' \<Longrightarrow> wf_heap h'"
  by (auto simp: wf_heap_def map_put_def split: option.splits)

lemma map_del_wf: "wf_heap h \<Longrightarrow> wf_heap (map_del h r k)"
  by (auto simp: wf_heap_def map_del_def split: option.splits)

lemma map_new_wf: "wf_heap h \<Longrightarrow> wf_map m \<Longrightarrow> wf_heap (snd (map_new h m))"
  by (simp add: wf_heap_def map_new_def)

lemma map_new_read:
  "map_read (snd (map_new h m)) (fst (map_new h m)) = m"
  "valid_ref h r \<Longrightarrow> map_read (snd (map_new h m)) r = map_read h r"
  by (auto simp: map_new_def valid_ref_def map_read_def split: option.splits)

lemma valid_ref_mono: "valid_ref h r \<Longrightarrow> heap_next h \<le> heap_next h' \<Longrightarrow> valid_ref h' r"
  by (auto simp: valid_ref_def split: option.splits)

lemma wf_empty_heap [simp]: "wf_heap empty_heap"
  by (simp add: wf_heap_def empty_heap_def)

end
