(* ===== verification/Kvctl_Api.thy ===== *)
theory Kvctl_Api
  imports Kvs_Prelude
begin

text \<open>
  The custom resource of the operator: \<open>KVStore\<close> with its spec and status
  (\<open>kvctl/api/v1/kvstore_types.go\<close>), its group and version (\<open>groupversion_info.go\<close>), and the
  admission webhook that validates changes to it (\<open>kvctl/internal/webhook/v1/kvstore_webhook.go\<close>).
  The metadata records are the parts of the Kubernetes object metadata the operator reads or writes.
\<close>

section \<open>Metadata\<close>

record OwnerReference =
  owner_APIVersion :: string
  owner_Kind :: string
  owner_Name :: string

type_synonym string_map = "(string \<times> string) list"

record ObjectMeta =
  meta_Name :: string
  meta_Namespace :: string
  meta_Labels :: string_map
  meta_Annotations :: string_map
  meta_Controller :: "OwnerReference option"

record GroupVersion =
  gv_Group :: string
  gv_Version :: string

definition kvctl_GroupVersion :: GroupVersion where
  "kvctl_GroupVersion = \<lparr>gv_Group = ''kvctl.captainirs.dev'', gv_Version = ''v1''\<rparr>"

section \<open>The resource\<close>

text \<open>The pod template is handed on unread; it is kept as the text of its manifest.\<close>

record KVStoreSpec =
  spec_Shards :: "32 word"
  spec_Replicas :: "32 word"
  spec_IngressDomain :: string
  spec_PodSpec :: string

type_synonym RedistributionPhase = string

definition PhaseNormal :: RedistributionPhase where "PhaseNormal = ''''"
definition PhasePreparingScale :: RedistributionPhase where "PhasePreparingScale = ''PreparingScale''"
definition PhaseStoppingWrites :: RedistributionPhase where "PhaseStoppingWrites = ''StoppingWrites''"
definition PhaseRedistributingKeys :: RedistributionPhase where "PhaseRedistributingKeys = ''RedistributingKeys''"
definition PhaseResumingWrites :: RedistributionPhase where "PhaseResumingWrites = ''ResumingWrites''"
definition PhaseFinalizingScale :: RedistributionPhase where "PhaseFinalizingScale = ''FinalizingScale''"
definition PhaseScaleComplete :: RedistributionPhase where "PhaseScaleComplete = ''ScaleComplete''"

lemmas phase_defs = PhaseNormal_def PhasePreparingScale_def PhaseStoppingWrites_def PhaseRedistributingKeys_def
  PhaseResumingWrites_def PhaseFinalizingScale_def PhaseScaleComplete_def

lemma phase_neq [simp]:
  "PhaseNormal \<noteq> PhasePreparingScale" "PhaseNormal \<noteq> PhaseStoppingWrites" "PhaseNormal \<noteq> PhaseRedistributingKeys" "PhaseNormal \<noteq> PhaseResumingWrites" "PhaseNormal \<noteq> PhaseFinalizingScale"
  "PhasePreparingScale \<noteq> PhaseNormal" "PhasePreparingScale \<noteq> PhaseStoppingWrites" "PhasePreparingScale \<noteq> PhaseRedistributingKeys" "PhasePreparingScale \<noteq> PhaseResumingWrites" "PhasePreparingScale \<noteq> PhaseFinalizingScale"
  "PhaseStoppingWrites \<noteq> PhaseNormal" "PhaseStoppingWrites \<noteq> PhasePreparingScale" "PhaseStoppingWrites \<noteq> PhaseRedistributingKeys" "PhaseStoppingWrites \<noteq> PhaseResumingWrites" "PhaseStoppingWrites \<noteq> PhaseFinalizingScale"
  "PhaseRedistributingKeys \<noteq> PhaseNormal" "PhaseRedistributingKeys \<noteq> PhasePreparingScale" "PhaseRedistributingKeys \<noteq> PhaseStoppingWrites" "PhaseRedistributingKeys \<noteq> PhaseResumingWrites" "PhaseRedistributingKeys \<noteq> PhaseFinalizingScale"
  "PhaseResumingWrites \<noteq> PhaseNormal" "PhaseResumingWrites \<noteq> PhasePreparingScale" "PhaseResumingWrites \<noteq> PhaseStoppingWrites" "PhaseResumingWrites \<noteq> PhaseRedistributingKeys" "PhaseResumingWrites \<noteq> PhaseFinalizingScale"
  "PhaseFinalizingScale \<noteq> PhaseNormal" "PhaseFinalizingScale \<noteq> PhasePreparingScale" "PhaseFinalizingScale \<noteq> PhaseStoppingWrites" "PhaseFinalizingScale \<noteq> PhaseRedistributingKeys" "PhaseFinalizingScale \<noteq> PhaseResumingWrites"
  by (simp_all add: phase_defs)

record KVStoreStatus =
  status_Phase :: RedistributionPhase
  status_CurrentShards :: int
  status_TargetShards :: int
  status_Message :: string
  status_LastTransition :: nat

record KVStoreResource =
  store_Meta :: ObjectMeta
  store_Spec :: KVStoreSpec
  store_Status :: KVStoreStatus

record KVStoreList =
  list_Items :: "KVStoreResource list"

definition zero_status :: KVStoreStatus where
  "zero_status = \<lparr>status_Phase = PhaseNormal, status_CurrentShards = 0, status_TargetShards = 0,
     status_Message = '''', status_LastTransition = 0\<rparr>"

section \<open>The admission webhook\<close>

text \<open>What a type assertion sees of a \<open>runtime.Object\<close>: a \<open>KVStore\<close>, or an object of another type.\<close>

datatype runtime_object = KVStoreObject KVStoreResource | OtherObject string

fun type_name :: "runtime_object \<Rightarrow> string" where
  "type_name (KVStoreObject k) = ''*v1.KVStore''"
| "type_name (OtherObject t) = t"

definition ValidateCreate :: "runtime_object \<Rightarrow> err option" where
  "ValidateCreate obj =
     (case obj of
        OtherObject _ \<Rightarrow> Some (Errorf (''expected a KVStore object but got '' @ type_name obj))
      | KVStoreObject kvstore \<Rightarrow> None)"

definition ValidateUpdate :: "runtime_object \<Rightarrow> runtime_object \<Rightarrow> err option" where
  "ValidateUpdate oldObj newObj =
     (case newObj of
        OtherObject _ \<Rightarrow> Some (Errorf (''expected a KVStore object for the newObj but got '' @ type_name newObj))
      | KVStoreObject kvstore \<Rightarrow>
          (case oldObj of
             OtherObject _ \<Rightarrow> Some (Errorf (''expected a KVStore object for the oldObj but got '' @ type_name newObj))
           | KVStoreObject oldKvstore \<Rightarrow>
               if status_Phase (store_Status oldKvstore) \<noteq> PhaseNormal
               then Some (Errorf ''cannot change while shards are redistributing'')
               else None))"

definition ValidateDelete :: "runtime_object \<Rightarrow> err option" where
  "ValidateDelete obj =
     (case obj of
        OtherObject _ \<Rightarrow> Some (Errorf (''expected a KVStore object but got '' @ type_name obj))
      | KVStoreObject kvstore \<Rightarrow> None)"

end
