(* ===== verification/Proto_Messages.thy ===== *)
theory Proto_Messages
  imports Kvs_Prelude
begin

text \<open>
  The protobuf messages of \<open>internal/protos/*.pb.go\<close>: one record per message with the
  message's own fields (the runtime's bookkeeping fields \<open>state\<close>, \<open>sizeCache\<close> and
  \<open>unknownFields\<close> carry no data of the program), the value \<open>Reset\<close> leaves, and the
  generated getters.  A receiver may be nil, so a getter takes an option; an \<open>optional\<close>
  field is a pointer and is an option itself.
\<close>

named_theorems proto_simps \<open>definitions of the message getters and reset values\<close>

section \<open>fsm.proto: the Raft log entry and the snapshot\<close>

record KVFSMLogEntry =
  KVFSMLogEntry_Operation :: "32 word"
  KVFSMLogEntry_Key :: "string option"
  KVFSMLogEntry_Value :: "string option"
  KVFSMLogEntry_WritesEnabled :: "bool option"

definition KVFSMLogEntry_Reset :: KVFSMLogEntry where
  "KVFSMLogEntry_Reset =
     \<lparr>KVFSMLogEntry_Operation = 0, KVFSMLogEntry_Key = None, KVFSMLogEntry_Value = None,
      KVFSMLogEntry_WritesEnabled = None\<rparr>"

definition KVFSMLogEntry_GetOperation :: "KVFSMLogEntry option \<Rightarrow> 32 word" where
  "KVFSMLogEntry_GetOperation x = (case x of Some m \<Rightarrow> KVFSMLogEntry_Operation m | None \<Rightarrow> 0)"

definition KVFSMLogEntry_GetKey :: "KVFSMLogEntry option \<Rightarrow> string" where
  "KVFSMLogEntry_GetKey x =
     (case x of
        Some m \<Rightarrow> (case KVFSMLogEntry_Key m of Some k \<Rightarrow> k | None \<Rightarrow> [])
      | None \<Rightarrow> [])"

definition KVFSMLogEntry_GetValue :: "KVFSMLogEntry option \<Rightarrow> string" where
  "KVFSMLogEntry_GetValue x =
     (case x of
        Some m \<Rightarrow> (case KVFSMLogEntry_Value m of Some v \<Rightarrow> v | None \<Rightarrow> [])
      | None \<Rightarrow> [])"

definition KVFSMLogEntry_GetWritesEnabled :: "KVFSMLogEntry option \<Rightarrow> bool" where
  "KVFSMLogEntry_GetWritesEnabled x =
     (case x of
        Some m \<Rightarrow> (case KVFSMLogEntry_WritesEnabled m of Some b \<Rightarrow> b | None \<Rightarrow> False)
      | None \<Rightarrow> False)"

text \<open>The map field of a snapshot message holds a map value, nil or the contents of an object
  that only the message refers to.\<close>

record KVFSMSnapshot =
  KVFSMSnapshot_KvStore :: "gomap option"
  KVFSMSnapshot_WritesEnabled :: bool

definition KVFSMSnapshot_Reset :: KVFSMSnapshot where
  "KVFSMSnapshot_Reset = \<lparr>KVFSMSnapshot_KvStore = None, KVFSMSnapshot_WritesEnabled = False\<rparr>"

definition KVFSMSnapshot_GetKvStore :: "KVFSMSnapshot option \<Rightarrow> gomap option" where
  "KVFSMSnapshot_GetKvStore x = (case x of Some m \<Rightarrow> KVFSMSnapshot_KvStore m | None \<Rightarrow> None)"

definition KVFSMSnapshot_GetWritesEnabled :: "KVFSMSnapshot option \<Rightarrow> bool" where
  "KVFSMSnapshot_GetWritesEnabled x =
     (case x of Some m \<Rightarrow> KVFSMSnapshot_WritesEnabled m | None \<Rightarrow> False)"

section \<open>kv.proto: the client-facing requests and responses\<close>

record GetRequest =
  GetRequest_Key :: string

definition GetRequest_Reset :: GetRequest where
  "GetRequest_Reset = \<lparr>GetRequest_Key = []\<rparr>"

definition GetRequest_GetKey :: "GetRequest option \<Rightarrow> string" where
  "GetRequest_GetKey x = (case x of Some m \<Rightarrow> GetRequest_Key m | None \<Rightarrow> [])"

record GetResponse =
  GetResponse_Value :: string

definition GetResponse_Reset :: GetResponse where
  "GetResponse_Reset = \<lparr>GetResponse_Value = []\<rparr>"

definition GetResponse_GetValue :: "GetResponse option \<Rightarrow> string" where
  "GetResponse_GetValue x = (case x of Some m \<Rightarrow> GetResponse_Value m | None \<Rightarrow> [])"

record PutRequest =
  PutRequest_Key :: string
  PutRequest_Value :: string

definition PutRequest_Reset :: PutRequest where
  "PutRequest_Reset = \<lparr>PutRequest_Key = [], PutRequest_Value = []\<rparr>"

definition PutRequest_GetKey :: "PutRequest option \<Rightarrow> string" where
  "PutRequest_GetKey x = (case x of Some m \<Rightarrow> PutRequest_Key m | None \<Rightarrow> [])"

definition PutRequest_GetValue :: "PutRequest option \<Rightarrow> string" where
  "PutRequest_GetValue x = (case x of Some m \<Rightarrow> PutRequest_Value m | None \<Rightarrow> [])"

datatype PutResponse = PutResponse

definition PutResponse_Reset :: PutResponse where
  "PutResponse_Reset = PutResponse"

record DeleteRequest =
  DeleteRequest_Key :: string

definition DeleteRequest_Reset :: DeleteRequest where
  "DeleteRequest_Reset = \<lparr>DeleteRequest_Key = []\<rparr>"

definition DeleteRequest_GetKey :: "DeleteRequest option \<Rightarrow> string" where
  "DeleteRequest_GetKey x = (case x of Some m \<Rightarrow> DeleteRequest_Key m | None \<Rightarrow> [])"

datatype DeleteResponse = DeleteResponse

definition DeleteResponse_Reset :: DeleteResponse where
  "DeleteResponse_Reset = DeleteResponse"

section \<open>shard.proto: requests between shards and from the controller\<close>

datatype PauseWritesRequest = PauseWritesRequest

definition PauseWritesRequest_Reset :: PauseWritesRequest where
  "PauseWritesRequest_Reset = PauseWritesRequest"

record PauseWritesResponse =
  PauseWritesResponse_IsPaused :: bool

definition PauseWritesResponse_Reset :: PauseWritesResponse where
  "PauseWritesResponse_Reset = \<lparr>PauseWritesResponse_IsPaused = False\<rparr>"

definition PauseWritesResponse_GetIsPaused :: "PauseWritesResponse option \<Rightarrow> bool" where
  "PauseWritesResponse_GetIsPaused x = (case x of Some m \<Rightarrow> PauseWritesResponse_IsPaused m | None \<Rightarrow> False)"

datatype RedistributeKeysRequest = RedistributeKeysRequest

definition RedistributeKeysRequest_Reset :: RedistributeKeysRequest where
  "RedistributeKeysRequest_Reset = RedistributeKeysRequest"

record RedistributeKeysResponse =
  RedistributeKeysResponse_PendingKeys :: "32 word"

definition RedistributeKeysResponse_Reset :: RedistributeKeysResponse where
  "RedistributeKeysResponse_Reset = \<lparr>RedistributeKeysResponse_PendingKeys = 0\<rparr>"

definition RedistributeKeysResponse_GetPendingKeys :: "RedistributeKeysResponse option \<Rightarrow> 32 word" where
  "RedistributeKeysResponse_GetPendingKeys x = (case x of Some m \<Rightarrow> RedistributeKeysResponse_PendingKeys m | None \<Rightarrow> 0)"

datatype ResumeWritesRequest = ResumeWritesRequest

definition ResumeWritesRequest_Reset :: ResumeWritesRequest where
  "ResumeWritesRequest_Reset = ResumeWritesRequest"

record ResumeWritesResponse =
  ResumeWritesResponse_IsResumed :: bool

definition ResumeWritesResponse_Reset :: ResumeWritesResponse where
  "ResumeWritesResponse_Reset = \<lparr>ResumeWritesResponse_IsResumed = False\<rparr>"

definition ResumeWritesResponse_GetIsResumed :: "ResumeWritesResponse option \<Rightarrow> bool" where
  "ResumeWritesResponse_GetIsResumed x = (case x of Some m \<Rightarrow> ResumeWritesResponse_IsResumed m | None \<Rightarrow> False)"

record InternalPutRequest =
  InternalPutRequest_Key :: string
  InternalPutRequest_Value :: string
  InternalPutRequest_IsRedistribution :: bool

definition InternalPutRequest_Reset :: InternalPutRequest where
  "InternalPutRequest_Reset = \<lparr>InternalPutRequest_Key = [], InternalPutRequest_Value = [], InternalPutRequest_IsRedistribution = False\<rparr>"

definition InternalPutRequest_GetKey :: "InternalPutRequest option \<Rightarrow> string" where
  "InternalPutRequest_GetKey x = (case x of Some m \<Rightarrow> InternalPutRequest_Key m | None \<Rightarrow> [])"

definition InternalPutRequest_GetValue :: "InternalPutRequest option \<Rightarrow> string" where
  "InternalPutRequest_GetValue x = (case x of Some m \<Rightarrow> InternalPutRequest_Value m | None \<Rightarrow> [])"

definition InternalPutRequest_GetIsRedistribution :: "InternalPutRequest option \<Rightarrow> bool" where
  "InternalPutRequest_GetIsRedistribution x = (case x of Some m \<Rightarrow> InternalPutRequest_IsRedistribution m | None \<Rightarrow> False)"

section \<open>replica.proto: requests between the replicas of one shard\<close>

record JoinRequest =
  JoinRequest_Replica :: string
  JoinRequest_Address :: string

definition JoinRequest_Reset :: JoinRequest where
  "JoinRequest_Reset = \<lparr>JoinRequest_Replica = [], JoinRequest_Address = []\<rparr>"

definition JoinRequest_GetReplica :: "JoinRequest option \<Rightarrow> string" where
  "JoinRequest_GetReplica x = (case x of Some m \<Rightarrow> JoinRequest_Replica m | None \<Rightarrow> [])"

definition JoinRequest_GetAddress :: "JoinRequest option \<Rightarrow> string" where
  "JoinRequest_GetAddress x = (case x of Some m \<Rightarrow> JoinRequest_Address m | None \<Rightarrow> [])"

datatype JoinResponse = JoinResponse

definition JoinResponse_Reset :: JoinResponse where
  "JoinResponse_Reset = JoinResponse"

datatype LeaderRequest = LeaderRequest

definition LeaderRequest_Reset :: LeaderRequest where
  "LeaderRequest_Reset = LeaderRequest"

record LeaderResponse =
  LeaderResponse_Leader :: string

definition LeaderResponse_Reset :: LeaderResponse where
  "LeaderResponse_Reset = \<lparr>LeaderResponse_Leader = []\<rparr>"

definition LeaderResponse_GetLeader :: "LeaderResponse option \<Rightarrow> string" where
  "LeaderResponse_GetLeader x = (case x of Some m \<Rightarrow> LeaderResponse_Leader m | None \<Rightarrow> [])"

record DemoteVoterRequest =
  DemoteVoterRequest_Replica :: string
  DemoteVoterRequest_Address :: string

definition DemoteVoterRequest_Reset :: DemoteVoterRequest where
  "DemoteVoterRequest_Reset = \<lparr>DemoteVoterRequest_Replica = [], DemoteVoterRequest_Address = []\<rparr>"

definition DemoteVoterRequest_GetReplica :: "DemoteVoterRequest option \<Rightarrow> string" where
  "DemoteVoterRequest_GetReplica x = (case x of Some m \<Rightarrow> DemoteVoterRequest_Replica m | None \<Rightarrow> [])"

definition DemoteVoterRequest_GetAddress :: "DemoteVoterRequest option \<Rightarrow> string" where
  "DemoteVoterRequest_GetAddress x = (case x of Some m \<Rightarrow> DemoteVoterRequest_Address m | None \<Rightarrow> [])"

datatype DemoteVoterResponse = DemoteVoterResponse

definition DemoteVoterResponse_Reset :: DemoteVoterResponse where
  "DemoteVoterResponse_Reset = DemoteVoterResponse"

datatype ReloadConfigRequest = ReloadConfigRequest

definition ReloadConfigRequest_Reset :: ReloadConfigRequest where
  "ReloadConfigRequest_Reset = ReloadConfigRequest"

record ReloadConfigResponse =
  ReloadConfigResponse_ReloadSuccessful :: bool

definition ReloadConfigResponse_Reset :: ReloadConfigResponse where
  "ReloadConfigResponse_Reset = \<lparr>ReloadConfigResponse_ReloadSuccessful = False\<rparr>"

definition ReloadConfigResponse_GetReloadSuccessful :: "ReloadConfigResponse option \<Rightarrow> bool" where
  "ReloadConfigResponse_GetReloadSuccessful x = (case x of Some m \<Rightarrow> ReloadConfigResponse_ReloadSuccessful m | None \<Rightarrow> False)"

lemmas fsm_getter_defs [proto_simps] =
  KVFSMLogEntry_GetOperation_def KVFSMLogEntry_GetKey_def KVFSMLogEntry_GetValue_def
  KVFSMLogEntry_GetWritesEnabled_def KVFSMSnapshot_GetKvStore_def KVFSMSnapshot_GetWritesEnabled_def

end
