(* ===== verification/Kv_Fsm.thy ===== *)
theory Kv_Fsm
  imports Proto_Messages
begin

text \<open>
  The replicated state machine of \<open>internal/raft/kvstore/kvstore.go\<close>: the store struct (which
  Go also uses, under the name \<open>KVFsm\<close>, for the state machine Raft drives), \<open>Apply\<close>,
  \<open>Snapshot\<close>, \<open>Persist\<close> and \<open>Restore\<close>.  Maps are references into an explicit heap
  because the store and the state machine share one map object, which is what makes a write
  applied by Raft visible to \<open>Get\<close>.  The protobuf library is a parameter (\<open>codec\<close>).
  The locale \<open>state_machine\<close> is the interface of a machine driven by a log; the machine of
  the program is interpreted in it against the abstract key-value specification.
\<close>

named_theorems fsm_simps \<open>unfolding of the state machine's operations\<close>

section \<open>The store struct\<close>

abbreviation SET :: "32 word" where "SET \<equiv> 0"
abbreviation DELETE :: "32 word" where "DELETE \<equiv> 1"
abbreviation TOGGLE :: "32 word" where "TOGGLE \<equiv> 2"

record 'r KVStore =
  raft :: "'r option"
  lastSnapshotIndex :: "64 word"
  store :: mref
  writesEnabled :: bool

type_synonym 'r KVFsm = "'r KVStore"

definition NewKVStore :: "heap \<Rightarrow> 'r KVStore \<times> heap" where
  "NewKVStore h =
     (let (r, h') = map_new h []
      in (\<lparr>raft = None, lastSnapshotIndex = 0, store = r, writesEnabled = False\<rparr>, h'))"

definition NewKVFsm :: "mref \<Rightarrow> 'r KVFsm" where
  "NewKVFsm s = \<lparr>raft = None, lastSnapshotIndex = 0, store = s, writesEnabled = True\<rparr>"

section \<open>The protobuf codec, a parameter\<close>

record 'b codec =
  marshal_entry :: "KVFSMLogEntry \<Rightarrow> err + 'b"
  unmarshal_entry :: "'b \<Rightarrow> err + KVFSMLogEntry"
  marshal_snapshot :: "KVFSMSnapshot \<Rightarrow> err + 'b"
  unmarshal_snapshot :: "'b \<Rightarrow> err + KVFSMSnapshot"

text \<open>What protobuf documents: a message that was marshalled unmarshals to itself; for a map
  field the entries come back in any order, and an empty map comes back as nil.\<close>

definition entry_codec_ok :: "('b, 'z) codec_scheme \<Rightarrow> bool" where
  "entry_codec_ok c \<longleftrightarrow> (\<forall>m b. marshal_entry c m = Inr b \<longrightarrow> unmarshal_entry c b = Inr m)"

definition same_snapshot :: "KVFSMSnapshot \<Rightarrow> KVFSMSnapshot \<Rightarrow> bool" where
  "same_snapshot m m' \<longleftrightarrow>
     KVFSMSnapshot_WritesEnabled m' = KVFSMSnapshot_WritesEnabled m \<and>
     (let kvs = (case KVFSMSnapshot_KvStore m of None \<Rightarrow> [] | Some kvs \<Rightarrow> kvs)
      in case KVFSMSnapshot_KvStore m' of
           None \<Rightarrow> kvs = []
         | Some kvs' \<Rightarrow> kvs \<noteq> [] \<and> wf_map kvs' \<and> map_of kvs' = map_of kvs)"

definition snapshot_codec_ok :: "('b, 'z) codec_scheme \<Rightarrow> bool" where
  "snapshot_codec_ok c \<longleftrightarrow>
     (\<forall>m b. marshal_snapshot c m = Inr b \<longrightarrow>
        (\<exists>m'. unmarshal_snapshot c b = Inr m' \<and> same_snapshot m m'))"

section \<open>Operations\<close>

text \<open>The switch of \<open>Apply\<close>, on a decoded entry.  An operation code outside the three
  constants falls through the switch.\<close>

definition apply_entry :: "KVFSMLogEntry \<Rightarrow> 'r KVFsm \<times> heap \<Rightarrow> ('r KVFsm \<times> heap) outcome" where
  "apply_entry entry fh =
     (let (f, h) = fh; x = Some entry
      in if KVFSMLogEntry_Operation entry = SET then
           bind_outcome (map_put h (store f) (KVFSMLogEntry_GetKey x) (KVFSMLogEntry_GetValue x))
             (\<lambda>h'. Return (f, h'))
         else if KVFSMLogEntry_Operation entry = DELETE then
           Return (f, map_del h (store f) (KVFSMLogEntry_GetKey x))
         else if KVFSMLogEntry_Operation entry = TOGGLE then
           Return (f\<lparr>writesEnabled := KVFSMLogEntry_GetWritesEnabled x\<rparr>, h)
         else Return (f, h))"

definition KVFsm_Apply ::
  "('b, 'z) codec_scheme \<Rightarrow> 'b \<Rightarrow> 'r KVFsm \<times> heap \<Rightarrow> (err option \<times> 'r KVFsm \<times> heap) outcome" where
  "KVFsm_Apply c data fh =
     (case unmarshal_entry c data of
        Inl e \<Rightarrow> Return (Some e, fh)
      | Inr entry \<Rightarrow> bind_outcome (apply_entry entry fh) (\<lambda>fh'. Return (None, fh')))"

text \<open>Raft hands the committed entries to the state machine one at a time, in log order, and
  gives the value \<open>Apply\<close> returns to whoever waits on the entry's future.\<close>

fun fsm_run ::
  "('b, 'z) codec_scheme \<Rightarrow> 'b list \<Rightarrow> 'r KVFsm \<times> heap \<Rightarrow> ('r KVFsm \<times> heap) outcome" where
  "fsm_run c [] fh = Return fh"
| "fsm_run c (d # ds) fh = bind_outcome (KVFsm_Apply c d fh) (\<lambda>(_, fh'). fsm_run c ds fh')"

record fsmSnapshot =
  fs_store :: mref
  fs_writesEnabled :: bool

definition KVFsm_Snapshot :: "'r KVFsm \<Rightarrow> fsmSnapshot" where
  "KVFsm_Snapshot f = \<lparr>fs_store = store f, fs_writesEnabled = writesEnabled f\<rparr>"

text \<open>The sink is Raft's; what \<open>Write\<close> and \<open>Close\<close> answer is a parameter, and the calls
  made on it are the result.\<close>

datatype 'b sink_call = SinkWrite 'b | SinkCancel | SinkClose

definition snapshot_message :: "fsmSnapshot \<Rightarrow> heap \<Rightarrow> KVFSMSnapshot" where
  "snapshot_message fs h =
     \<lparr>KVFSMSnapshot_KvStore = map_option (heap_maps h) (fs_store fs),
      KVFSMSnapshot_WritesEnabled = fs_writesEnabled fs\<rparr>"

definition fsmSnapshot_Persist ::
  "('b, 'z) codec_scheme \<Rightarrow> ('b \<Rightarrow> err option) \<Rightarrow> err option \<Rightarrow> fsmSnapshot \<Rightarrow> heap \<Rightarrow>
   err option \<times> 'b sink_call list" where
  "fsmSnapshot_Persist c sink_write sink_close fs h =
     (case marshal_snapshot c (snapshot_message fs h) of
        Inl e \<Rightarrow> (Some e, [SinkCancel])
      | Inr b \<Rightarrow>
          (case sink_write b of
             Some e \<Rightarrow> (Some e, [SinkWrite b, SinkCancel])
           | None \<Rightarrow> (sink_close, [SinkWrite b, SinkClose])))"

definition fsmSnapshot_Release :: "fsmSnapshot \<Rightarrow> fsmSnapshot" where
  "fsmSnapshot_Release fs = fs"

text \<open>\<open>Restore\<close> reads all bytes (\<open>rd\<close>: an error or the bytes) and points the state
  machine at the map of the decoded message; no other field changes.\<close>

definition KVFsm_Restore ::
  "('b, 'z) codec_scheme \<Rightarrow> err + 'b \<Rightarrow> 'r KVFsm \<times> heap \<Rightarrow> err option \<times> 'r KVFsm \<times> heap" where
  "KVFsm_Restore c rd fh =
     (let (f, h) = fh in
      case rd of
        Inl e \<Rightarrow> (Some e, f, h)
      | Inr data \<Rightarrow>
          (case unmarshal_snapshot c data of
             Inl e \<Rightarrow> (Some e, f, h)
           | Inr m \<Rightarrow>
               (case KVFSMSnapshot_KvStore m of
                  None \<Rightarrow> (None, f\<lparr>store := None\<rparr>, h)
                | Some kvs \<Rightarrow> (let (r, h') = map_new h kvs in (None, f\<lparr>store := r\<rparr>, h')))))"

section \<open>The entries the store writes, and the abstract machine\<close>

definition set_entry :: "string \<Rightarrow> string \<Rightarrow> KVFSMLogEntry" where
  "set_entry key value =
     KVFSMLogEntry_Reset\<lparr>KVFSMLogEntry_Operation := SET, KVFSMLogEntry_Key := Some key,
       KVFSMLogEntry_Value := Some value\<rparr>"

definition delete_entry :: "string \<Rightarrow> KVFSMLogEntry" where
  "delete_entry key =
     KVFSMLogEntry_Reset\<lparr>KVFSMLogEntry_Operation := DELETE, KVFSMLogEntry_Key := Some key\<rparr>"

definition toggle_entry :: "bool \<Rightarrow> KVFSMLogEntry" where
  "toggle_entry b =
     KVFSMLogEntry_Reset\<lparr>KVFSMLogEntry_Operation := TOGGLE, KVFSMLogEntry_WritesEnabled := Some b\<rparr>"

text \<open>The specification: a partial function from keys to values and a flag, driven by three
  commands.\<close>

datatype command = CSet string string | CDelete string | CToggle bool

fun command_entry :: "command \<Rightarrow> KVFSMLogEntry" where
  "command_entry (CSet k v) = set_entry k v"
| "command_entry (CDelete k) = delete_entry k"
| "command_entry (CToggle b) = toggle_entry b"

type_synonym kv_spec = "(string \<rightharpoonup> string) \<times> bool"

fun spec_step :: "command \<Rightarrow> kv_spec \<Rightarrow> kv_spec" where
  "spec_step (CSet k v) (m, w) = (m(k \<mapsto> v), w)"
| "spec_step (CDelete k) (m, w) = (m(k := None), w)"
| "spec_step (CToggle b) (m, w) = (m, b)"

definition fsm_view :: "'r KVFsm \<times> heap \<Rightarrow> kv_spec" where
  "fsm_view fh = (map_of (map_read (snd fh) (store (fst fh))), writesEnabled (fst fh))"

definition fsm_inv :: "'r KVFsm \<times> heap \<Rightarrow> bool" where
  "fsm_inv fh \<longleftrightarrow> store (fst fh) \<noteq> None \<and> valid_ref (snd fh) (store (fst fh)) \<and> wf_heap (snd fh)"

lemmas entry_defs [proto_simps] =
  set_entry_def delete_entry_def toggle_entry_def KVFSMLogEntry_Reset_def

section \<open>The interface of a log-driven machine\<close>

locale state_machine =
  fixes apply_cmd :: "'c \<Rightarrow> 's \<Rightarrow> 's outcome"
    and inv :: "'s \<Rightarrow> bool"
    and view :: "'s \<Rightarrow> 'a"
    and step :: "'c \<Rightarrow> 'a \<Rightarrow> 'a"
  assumes apply_refines: "inv s \<Longrightarrow> \<exists>s'. apply_cmd c s = Return s' \<and> inv s' \<and> view s' = step c (view s)"
begin

text \<open>A log of commands, applied in order.\<close>

primrec run_log :: "'c list \<Rightarrow> 's \<Rightarrow> 's outcome" where
  "run_log [] s = Return s"
| "run_log (c # cs) s = bind_outcome (apply_cmd c s) (run_log cs)"

lemma run_refines:
  "inv s \<Longrightarrow> \<exists>s'. run_log cs s = Return s' \<and> inv s' \<and> view s' = fold step cs (view s)"
proof (induction cs arbitrary: s)
  case Nil
  then show ?case by simp
next
  case (Cons c cs)
  from apply_refines [OF Cons.prems] obtain t where
    t: "apply_cmd c s = Return t" "inv t" "view t = step c (view s)" by blast
  from Cons.IH [OF t(2)] t show ?case by auto
qed

end

lemma word32_distinct [simp]: "(1 :: 32 word) \<noteq> 2" "(0 :: 32 word) \<noteq> 2" "(2 :: 32 word) \<noteq> 1" "(2 :: 32 word) \<noteq> 0"
  by simp_all

lemma apply_entry_set [fsm_simps]:
  "apply_entry (set_entry k v) (f, h) =
     bind_outcome (map_put h (store f) k v) (\<lambda>h'. Return (f, h'))"
  by (simp add: apply_entry_def proto_simps)

lemma apply_entry_delete [fsm_simps]:
  "apply_entry (delete_entry k) (f, h) = Return (f, map_del h (store f) k)"
  by (simp add: apply_entry_def proto_simps)

lemma apply_entry_toggle [fsm_simps]:
  "apply_entry (toggle_entry b) (f, h) = Return (f\<lparr>writesEnabled := b\<rparr>, h)"
  by (simp add: apply_entry_def proto_simps)

lemma apply_command_refines:
  assumes "fsm_inv fh"
  shows "\<exists>fh'. apply_entry (command_entry c) fh = Return fh' \<and> fsm_inv fh' \<and>
    fsm_view fh' = spec_step c (fsm_view fh)"
proof -
  obtain f h where fh: "fh = (f, h)" by (cases fh)
  obtain a where a: "store f = Some a" "a < heap_next h" "wf_heap h"
    using assms by (auto simp: fsm_inv_def fh valid_ref_def)
  show ?thesis
    using a map_del_wf [OF a(3), of "store f"]
    by (cases c)
      (auto simp: fh fsm_simps fsm_inv_def fsm_view_def valid_ref_def update_conv' delete_conv'
        wf_heap_def)
qed

interpretation fsm: state_machine "\<lambda>c. apply_entry (command_entry c)" fsm_inv fsm_view spec_step
  by unfold_locales (rule apply_command_refines)

section \<open>Encoded logs\<close>

definition encodes :: "('b, 'z) codec_scheme \<Rightarrow> command list \<Rightarrow> 'b list \<Rightarrow> bool" where
  "encodes c cmds bs \<longleftrightarrow> list_all2 (\<lambda>cmd b. marshal_entry c (command_entry cmd) = Inr b) cmds bs"

lemma KVFsm_Apply_encoded [fsm_simps]:
  "entry_codec_ok c \<Longrightarrow> marshal_entry c m = Inr b \<Longrightarrow>
   KVFsm_Apply c b fh = bind_outcome (apply_entry m fh) (\<lambda>fh'. Return (None, fh'))"
  by (simp add: KVFsm_Apply_def entry_codec_ok_def)

lemma bind_outcome_assoc [simp]:
  "bind_outcome (bind_outcome x f) g = bind_outcome x (\<lambda>y. bind_outcome (f y) g)"
  by (cases x) simp_all

lemma fsm_run_encoded:
  assumes "entry_codec_ok c" "encodes c cmds bs"
  shows "fsm_run c bs fh = fsm.run_log cmds fh"
  using assms(2) unfolding encodes_def
  by (induction arbitrary: fh rule: list_all2_induct)
    (simp_all add: KVFsm_Apply_encoded [OF assms(1)])

lemma fsm_run_append:
  "fsm_run c (xs @ ys) fh = bind_outcome (fsm_run c xs fh) (fsm_run c ys)"
  by (induction xs arbitrary: fh) (auto simp: case_prod_unfold)

text \<open>The identity codec, which keeps messages as they are but for the two things protobuf does to
  a map field, is a concrete codec for which the assumptions hold.\<close>

datatype wire = WEntry KVFSMLogEntry | WSnapshot KVFSMSnapshot

definition wire_codec :: "wire codec" where
  "wire_codec =
     \<lparr>marshal_entry = (\<lambda>m. Inr (WEntry m)),
      unmarshal_entry = (\<lambda>b. case b of WEntry m \<Rightarrow> Inr m | _ \<Rightarrow> Inl (LibErr ''proto: cannot parse'')),
      marshal_snapshot = (\<lambda>m. Inr (WSnapshot m)),
      unmarshal_snapshot =
        (\<lambda>b. case b of
           WSnapshot m \<Rightarrow>
             Inr (m\<lparr>KVFSMSnapshot_KvStore :=
               (case KVFSMSnapshot_KvStore m of
                  None \<Rightarrow> None
                | Some kvs \<Rightarrow> (if kvs = [] then None else Some (AList.clearjunk kvs)))\<rparr>)
         | _ \<Rightarrow> Inl (LibErr ''proto: cannot parse''))\<rparr>"

lemma wire_entry_codec_ok [simp]: "entry_codec_ok wire_codec"
  by (auto simp: entry_codec_ok_def wire_codec_def)

lemma wire_snapshot_codec_ok [simp]: "snapshot_codec_ok wire_codec"
  by (auto simp: snapshot_codec_ok_def same_snapshot_def wire_codec_def wf_map_def
      map_of_clearjunk distinct_clearjunk split: option.splits)

lemma wire_encodes [simp]: "encodes wire_codec cmds (map (\<lambda>c. WEntry (command_entry c)) cmds)"
  by (simp add: encodes_def wire_codec_def list_all2_conv_all_nth)

text \<open>Nothing a log entry does moves the state machine to another map object, and only that
  object changes.\<close>

lemma bind_Return_iff [simp]: "bind_outcome x f = Return z \<longleftrightarrow> (\<exists>y. x = Return y \<and> f y = Return z)"
  by (cases x) simp_all

lemma apply_entry_frame:
  assumes "apply_entry m (f, h) = Return (f', h')"
  shows "store f' = store f" and "raft f' = raft f" and "heap_next h' = heap_next h"
    and "wf_heap h \<Longrightarrow> wf_heap h'" and "r \<noteq> store f \<Longrightarrow> map_read h' r = map_read h r"
  using assms
  by (cases "store f"; cases r;
      auto simp: apply_entry_def Let_def wf_heap_def split: if_splits)+

lemma KVFsm_Apply_frame:
  assumes "KVFsm_Apply c d (f, h) = Return (e, f', h')"
  shows "store f' = store f" and "raft f' = raft f" and "heap_next h' = heap_next h"
    and "wf_heap h \<Longrightarrow> wf_heap h'" and "r \<noteq> store f \<Longrightarrow> map_read h' r = map_read h r"
  using assms
  by (auto simp: KVFsm_Apply_def split: sum.splits dest: apply_entry_frame)

lemma fsm_run_frame:
  assumes "fsm_run c ds (f, h) = Return (f', h')"
  shows "store f' = store f \<and> raft f' = raft f \<and> heap_next h' = heap_next h \<and>
    (wf_heap h \<longrightarrow> wf_heap h') \<and> (\<forall>r. r \<noteq> store f \<longrightarrow> map_read h' r = map_read h r)"
  using assms
proof (induction ds arbitrary: f h)
  case Nil
  then show ?case by simp
next
  case (Cons d ds)
  then obtain e f1 h1 where 1: "KVFsm_Apply c d (f, h) = Return (e, f1, h1)"
    and 2: "fsm_run c ds (f1, h1) = Return (f', h')" by auto
  from Cons.IH [OF 2] KVFsm_Apply_frame [OF 1] show ?case by simp
qed

lemma fsm_run_inv:
  assumes "fsm_run c ds fh = Return fh'" "fsm_inv fh"
  shows "fsm_inv fh'"
  using assms fsm_run_frame [of c ds "fst fh" "snd fh" "fst fh'" "snd fh'"]
  by (auto simp: fsm_inv_def valid_ref_def)

section \<open>Properties\<close>

text \<open>C1: running the encoded log of any commands through the program's state machine never panics
  and leaves exactly the map and the flag the abstract key-value machine reaches; the state
  machine keeps the same map object, so whoever shares that object sees the result.\<close>

theorem fsm_run_refines_spec:
  assumes "entry_codec_ok c" and "encodes c cmds bs" and "fsm_inv fh"
  shows "\<exists>fh'. fsm_run c bs fh = Return fh' \<and> fsm_inv fh' \<and>
    fsm_view fh' = fold spec_step cmds (fsm_view fh) \<and> store (fst fh') = store (fst fh)"
proof -
  from fsm.run_refines [OF assms(3), of cmds] obtain fh' where
    "fsm_run c bs fh = Return fh'" "fsm_inv fh'" "fsm_view fh' = fold spec_step cmds (fsm_view fh)"
    by (auto simp: fsm_run_encoded [OF assms(1,2)])
  then show ?thesis
    using fsm_run_frame [of c bs "fst fh" "snd fh" "fst fh'" "snd fh'"] by auto
qed

definition demo_fsm :: "unit KVFsm \<times> heap" where
  "demo_fsm = (let (k, h) = NewKVStore empty_heap :: unit KVStore \<times> heap in (NewKVFsm (store k), h))"

lemma demo_fsm_inv [simp]: "fsm_inv demo_fsm"
  by (simp add: demo_fsm_def fsm_inv_def NewKVStore_def NewKVFsm_def map_new_def empty_heap_def
      valid_ref_def wf_heap_def)

lemma demo_fsm_view [simp]: "fsm_view demo_fsm = (Map.empty, True)"
  by (simp add: demo_fsm_def fsm_view_def NewKVStore_def NewKVFsm_def map_new_def empty_heap_def)

theorem fsm_run_refines_spec_witness:
  "\<exists>fh'. fsm_run wire_codec
      (map (\<lambda>c. WEntry (command_entry c)) [CSet ''k'' ''1'', CSet ''k'' ''2'', CDelete ''j''])
      demo_fsm = Return fh' \<and> fst (fsm_view fh') ''k'' = Some ''2''"
  using fsm_run_refines_spec
    [OF wire_entry_codec_ok wire_encodes demo_fsm_inv,
      of "[CSet ''k'' ''1'', CSet ''k'' ''2'', CDelete ''j'']"]
  by auto

text \<open>The bytes a successful \<open>Persist\<close> hands to the sink.\<close>

lemma Persist_success:
  assumes "fsmSnapshot_Persist c sw None fs h = (None, calls)"
  obtains b where "marshal_snapshot c (snapshot_message fs h) = Inr b" and "calls = [SinkWrite b, SinkClose]"
  using assms by (auto simp: fsmSnapshot_Persist_def split: sum.splits option.splits)

lemma Restore_persisted:
  assumes "snapshot_codec_ok c" and "marshal_snapshot c (snapshot_message (KVFsm_Snapshot f) h) = Inr b"
    and "KVFsm_Restore c (Inr b) (g, hg) = (e, g', hg')"
  shows "e = None" and "map_of (map_read hg' (store g')) = map_of (map_read h (store f))"
    and "writesEnabled g' = writesEnabled g" and "store g' = None \<longleftrightarrow> map_read h (store f) = []"
proof -
  obtain m' where m': "unmarshal_snapshot c b = Inr m'"
    "same_snapshot (snapshot_message (KVFsm_Snapshot f) h) m'"
    using assms(1,2) unfolding snapshot_codec_ok_def by blast
  have kvs: "(case map_option (heap_maps h) (store f) of None \<Rightarrow> [] | Some kvs \<Rightarrow> kvs) = map_read h (store f)"
    by (cases "store f") simp_all
  show "e = None" "map_of (map_read hg' (store g')) = map_of (map_read h (store f))"
    "writesEnabled g' = writesEnabled g" "store g' = None \<longleftrightarrow> map_read h (store f) = []"
    using m' assms(3)
    by (auto simp: KVFsm_Restore_def same_snapshot_def snapshot_message_def KVFsm_Snapshot_def
        kvs map_new_def Let_def split: option.splits)
qed

text \<open>C10: what \<open>Snapshot\<close> and \<open>Persist\<close> write to a sink that accepts it, \<open>Restore\<close> reads
  back without error, and the state machine restored from it has exactly the keys and values of
  the one that was snapshotted, whatever it held before.\<close>

theorem snapshot_restore_roundtrip:
  assumes "snapshot_codec_ok c"
    and "fsmSnapshot_Persist c sw None (KVFsm_Snapshot f) h = (None, calls)"
  shows "\<exists>b. calls = [SinkWrite b, SinkClose] \<and>
    (\<exists>g' hg'. KVFsm_Restore c (Inr b) (g, hg) = (None, g', hg') \<and>
       fst (fsm_view (g', hg')) = fst (fsm_view (f, h)))"
proof -
  obtain b where b: "marshal_snapshot c (snapshot_message (KVFsm_Snapshot f) h) = Inr b"
    "calls = [SinkWrite b, SinkClose]"
    using assms(2) by (rule Persist_success)
  obtain e g' hg' where r: "KVFsm_Restore c (Inr b) (g, hg) = (e, g', hg')"
    by (cases "KVFsm_Restore c (Inr b) (g, hg)") auto
  show ?thesis
    using b r Restore_persisted [OF assms(1) b(1) r] by (simp add: fsm_view_def)
qed

definition demo_full :: "unit KVFsm \<times> heap" where
  "demo_full = (NewKVFsm (Some 0), \<lparr>heap_maps = (\<lambda>a. [(''k'', ''v'')]), heap_next = 1\<rparr>)"

theorem snapshot_restore_roundtrip_witness:
  "\<exists>b g' hg'. KVFsm_Restore wire_codec (Inr b) demo_fsm = (None, g', hg') \<and>
     fst (fsm_view (g', hg')) = [''k'' \<mapsto> ''v'']"
proof -
  have p: "fsmSnapshot_Persist wire_codec (\<lambda>_. None) None (KVFsm_Snapshot (fst demo_full)) (snd demo_full) =
     (None, [SinkWrite (WSnapshot (snapshot_message (KVFsm_Snapshot (fst demo_full)) (snd demo_full))), SinkClose])"
    by (simp add: fsmSnapshot_Persist_def wire_codec_def)
  show ?thesis
    using snapshot_restore_roundtrip
      [OF wire_snapshot_codec_ok p, of "fst demo_fsm" "snd demo_fsm"]
    by (auto simp: fsm_view_def demo_full_def NewKVFsm_def)
qed

text \<open>What a log does to the keys does not depend on the flag, and the other way round.\<close>

lemma fold_spec_step:
  "fold spec_step cmds (m, w) = (fst (fold spec_step cmds (m, w')), snd (fold spec_step cmds (m', w)))"
proof (induction cmds arbitrary: m m' w w')
  case (Cons c cmds)
  obtain n v where "spec_step c (m, w) = (n, v)" by fastforce
  then obtain v' n' where "spec_step c (m, w') = (n, v')" "spec_step c (m', w) = (n', v)" by (cases c) auto
  then show ?case using \<open>spec_step c (m, w) = (n, v)\<close> Cons.IH [of n v v' n'] by simp
qed simp

lemma Restore_inv:
  assumes "snapshot_codec_ok c" and "marshal_snapshot c (snapshot_message (KVFsm_Snapshot f) h) = Inr b"
    and "map_read h (store f) \<noteq> []" and "wf_heap hg" and "KVFsm_Restore c (Inr b) (g, hg) = (e, g', hg')"
  shows "fsm_inv (g', hg')"
proof -
  obtain m' where m': "unmarshal_snapshot c b = Inr m'" "same_snapshot (snapshot_message (KVFsm_Snapshot f) h) m'"
    using assms(1,2) unfolding snapshot_codec_ok_def by blast
  then show ?thesis
    using assms(3-5)
    by (cases "store f")
      (auto simp: KVFsm_Restore_def same_snapshot_def snapshot_message_def KVFsm_Snapshot_def map_new_def fsm_inv_def
        valid_ref_def wf_heap_def Let_def split: option.splits)
qed

text \<open>C12: a replica that installs the snapshot of another one, taken after the first part of the log, and
  then applies the rest of the log holds exactly the keys and values that the abstract machine has after the
  whole log, whatever it held before.  The snapshot must hold a key.  The write flag is not brought over: it
  follows only the entries after the snapshot, from what the flag was before.\<close>

theorem snapshot_then_log_catches_up:
  assumes "entry_codec_ok c" and "snapshot_codec_ok c" and "fsm_inv (f, h)" and "encodes c before bs" and "encodes c after ds"
    and "fsm_run c bs (f, h) = Return (f1, h1)" and "fst (fsm_view (f1, h1)) \<noteq> Map.empty"
    and "fsmSnapshot_Persist c sw None (KVFsm_Snapshot f1) h1 = (None, calls)" and "wf_heap hg"
  shows "\<exists>b g1 hg1 g2 hg2. calls = [SinkWrite b, SinkClose] \<and> KVFsm_Restore c (Inr b) (g, hg) = (None, g1, hg1) \<and>
    fsm_run c ds (g1, hg1) = Return (g2, hg2) \<and>
    fst (fsm_view (g2, hg2)) = fst (fold spec_step (before @ after) (fsm_view (f, h))) \<and>
    writesEnabled g2 = snd (fold spec_step after (Map.empty, writesEnabled g))"
proof -
  obtain b where b: "marshal_snapshot c (snapshot_message (KVFsm_Snapshot f1) h1) = Inr b" "calls = [SinkWrite b, SinkClose]"
    using assms(8) by (rule Persist_success)
  obtain e g1 hg1 where r: "KVFsm_Restore c (Inr b) (g, hg) = (e, g1, hg1)"
    by (cases "KVFsm_Restore c (Inr b) (g, hg)") auto
  note restored = Restore_persisted [OF assms(2) b(1) r]
  have "map_read h1 (store f1) \<noteq> []" using assms(7) by (auto simp: fsm_view_def)
  then have "fsm_inv (g1, hg1)" by (rule Restore_inv [OF assms(2) b(1) _ assms(9) r])
  then obtain g2 hg2 where run: "fsm_run c ds (g1, hg1) = Return (g2, hg2)"
    "fsm_view (g2, hg2) = fold spec_step after (fsm_view (g1, hg1))"
    using fsm.run_refines [of "(g1, hg1)" after] by (auto simp: fsm_run_encoded [OF assms(1,5)])
  have first: "fsm_view (f1, h1) = fold spec_step before (fsm_view (f, h))"
    using fsm.run_refines [OF assms(3), of before] assms(6) by (auto simp: fsm_run_encoded [OF assms(1,4)])
  have view: "fsm_view (g1, hg1) = (fst (fsm_view (f1, h1)), writesEnabled g)" using restored(2,3) by (simp add: fsm_view_def)
  have "fold spec_step after (fsm_view (g1, hg1)) =
      (fst (fold spec_step after (fsm_view (f1, h1))), snd (fold spec_step after (Map.empty, writesEnabled g)))"
    using fold_spec_step [of after "fst (fsm_view (f1, h1))" "writesEnabled g" "snd (fsm_view (f1, h1))" Map.empty] view by simp
  then show ?thesis
    using b(2) r restored(1) run first by (auto simp: fsm_view_def)
qed

theorem snapshot_then_log_catches_up_witness:
  "\<exists>b g1 hg1 g2 hg2. KVFsm_Restore wire_codec (Inr b) demo_fsm = (None, g1, hg1) \<and>
     fsm_run wire_codec (map (\<lambda>c. WEntry (command_entry c)) [CDelete ''k'', CSet ''j'' ''2'']) (g1, hg1) = Return (g2, hg2) \<and>
     fst (fsm_view (g2, hg2)) = [''i'' \<mapsto> ''0'', ''j'' \<mapsto> ''2'']"
proof -
  let ?before = "[CSet ''i'' ''0'']" and ?after = "[CDelete ''k'', CSet ''j'' ''2'']"
  let ?log = "map (\<lambda>c. WEntry (command_entry c))"
  have inv: "fsm_inv (fst demo_full, snd demo_full)"
    by (simp add: demo_full_def fsm_inv_def NewKVFsm_def valid_ref_def wf_heap_def wf_map_def)
  have view: "fsm_view (fst demo_full, snd demo_full) = ([''k'' \<mapsto> ''v''], True)"
    by (simp add: demo_full_def fsm_view_def NewKVFsm_def)
  obtain f1 h1 where run: "fsm_run wire_codec (?log ?before) (fst demo_full, snd demo_full) = Return (f1, h1)"
    "fsm_view (f1, h1) = fold spec_step ?before (fsm_view (fst demo_full, snd demo_full))"
    using fsm.run_refines [OF inv, of ?before] unfolding fsm_run_encoded [OF wire_entry_codec_ok wire_encodes [of ?before]]
    by fastforce
  have p: "fsmSnapshot_Persist wire_codec (\<lambda>_. None) None (KVFsm_Snapshot f1) h1 =
     (None, [SinkWrite (WSnapshot (snapshot_message (KVFsm_Snapshot f1) h1)), SinkClose])"
    by (simp add: fsmSnapshot_Persist_def wire_codec_def)
  have "fst (fsm_view (f1, h1)) \<noteq> Map.empty" using run(2) view by simp
  moreover have "wf_heap (snd demo_fsm)" using demo_fsm_inv by (simp add: fsm_inv_def)
  moreover have "fst (fold spec_step (?before @ ?after) (fsm_view (fst demo_full, snd demo_full))) = [''i'' \<mapsto> ''0'', ''j'' \<mapsto> ''2'']"
    unfolding view by (simp add: fun_eq_iff)
  ultimately show ?thesis
    using snapshot_then_log_catches_up [OF wire_entry_codec_ok wire_snapshot_codec_ok inv wire_encodes wire_encodes [of ?after] run(1) _ p,
        of "snd demo_fsm" "fst demo_fsm"] unfolding prod.collapse by metis
qed

text \<open>\<open>Restore\<close> brings back only the keys: the write flag of the snapshot is decoded and
  dropped, so a restored replica keeps whatever flag it had, also when the snapshot says
  otherwise.\<close>

theorem restore_ignores_write_flag:
  assumes "KVFsm_Restore c rd (g, hg) = (e, g', hg')"
  shows "writesEnabled g' = writesEnabled g"
  using assms
  by (auto simp: KVFsm_Restore_def Let_def map_new_def split: sum.splits option.splits)

theorem restore_ignores_write_flag_witness:
  "writesEnabled (fst (snd (KVFsm_Restore wire_codec
      (Inr (WSnapshot \<lparr>KVFSMSnapshot_KvStore = None, KVFSMSnapshot_WritesEnabled = False\<rparr>)) demo_fsm))) = True"
  using restore_ignores_write_flag
    [of wire_codec "Inr (WSnapshot \<lparr>KVFSMSnapshot_KvStore = None, KVFSMSnapshot_WritesEnabled = False\<rparr>)"
      "fst demo_fsm" "snd demo_fsm" None "fst demo_fsm\<lparr>store := None\<rparr>" "snd demo_fsm"]
  by (simp add: KVFsm_Restore_def wire_codec_def demo_fsm_def NewKVStore_def NewKVFsm_def map_new_def)

text \<open>C22: restoring the snapshot of an empty store leaves the state machine on a nil map, and the
  first entry that sets a key then panics.\<close>

theorem restore_empty_then_set_panics:
  assumes "snapshot_codec_ok c" and "entry_codec_ok c"
    and "marshal_snapshot c (snapshot_message (KVFsm_Snapshot f) h) = Inr b" and "map_read h (store f) = []"
    and "marshal_entry c (set_entry k v) = Inr d"
  shows "\<exists>g' hg'. KVFsm_Restore c (Inr b) (g, hg) = (None, g', hg') \<and>
    KVFsm_Apply c d (g', hg') = Panic"
proof -
  obtain e g' hg' where r: "KVFsm_Restore c (Inr b) (g, hg) = (e, g', hg')"
    by (cases "KVFsm_Restore c (Inr b) (g, hg)") auto
  with Restore_persisted [OF assms(1,3) r] assms(4) have "store g' = None" "e = None" by simp_all
  with r show ?thesis
    by (simp add: KVFsm_Apply_encoded [OF assms(2,5)] apply_entry_set)
qed

theorem restore_empty_then_set_panics_witness:
  "\<exists>g' hg'. KVFsm_Restore wire_codec (Inr (WSnapshot (snapshot_message (KVFsm_Snapshot (fst demo_fsm)) (snd demo_fsm))))
      demo_full = (None, g', hg') \<and>
     KVFsm_Apply wire_codec (WEntry (set_entry ''a'' ''b'')) (g', hg') = Panic"
  using restore_empty_then_set_panics
    [OF wire_snapshot_codec_ok wire_entry_codec_ok, of "fst demo_fsm" "snd demo_fsm" _ "''a''" "''b''"
      _ "fst demo_full" "snd demo_full"] demo_fsm_view
  by (simp add: wire_codec_def fsm_view_def)

text \<open>C23: the value \<open>Snapshot\<close> returns refers to the live map but has a copy of the flag: whatever log of
  set, delete and toggle entries is applied between \<open>Snapshot\<close> and \<open>Persist\<close>, the message \<open>Persist\<close> encodes
  has the keys and values after that log, and the write flag from before it.\<close>

theorem snapshot_shares_live_map:
  assumes "entry_codec_ok c" and "encodes c cmds bs" and "fsm_inv (f, h)"
  shows "\<exists>f' h' kvs. fsm_run c bs (f, h) = Return (f', h') \<and>
    snapshot_message (KVFsm_Snapshot f) h' = \<lparr>KVFSMSnapshot_KvStore = Some kvs, KVFSMSnapshot_WritesEnabled = writesEnabled f\<rparr> \<and>
    map_of kvs = fst (fold spec_step cmds (fsm_view (f, h))) \<and>
    writesEnabled f' = snd (fold spec_step cmds (fsm_view (f, h)))"
proof -
  obtain f' h' where run: "fsm_run c bs (f, h) = Return (f', h')" "fsm_view (f', h') = fold spec_step cmds (fsm_view (f, h))"
    using fsm.run_refines [OF assms(3), of cmds] by (auto simp: fsm_run_encoded [OF assms(1,2)])
  obtain a where a: "store f = Some a" using assms(3) by (auto simp: fsm_inv_def)
  have "store f' = store f" using fsm_run_frame [OF run(1)] by blast
  then have "map_of (heap_maps h' a) = fst (fold spec_step cmds (fsm_view (f, h)))"
    "writesEnabled f' = snd (fold spec_step cmds (fsm_view (f, h)))"
    using a unfolding run(2) [symmetric] by (simp_all add: fsm_view_def)
  then show ?thesis using run(1) a by (simp add: snapshot_message_def KVFsm_Snapshot_def)
qed

theorem snapshot_shares_live_map_witness:
  "\<exists>f' h' kvs. fsm_run wire_codec (map (\<lambda>c. WEntry (command_entry c)) [CSet ''a'' ''b'', CDelete ''k'', CToggle False]) demo_full = Return (f', h') \<and>
     snapshot_message (KVFsm_Snapshot (fst demo_full)) h' =
       \<lparr>KVFSMSnapshot_KvStore = Some kvs, KVFSMSnapshot_WritesEnabled = True\<rparr> \<and>
     map_of kvs = [''a'' \<mapsto> ''b''] \<and> \<not> writesEnabled f'"
proof -
  have inv: "fsm_inv (fst demo_full, snd demo_full)"
    by (simp add: demo_full_def fsm_inv_def NewKVFsm_def valid_ref_def wf_heap_def wf_map_def)
  have "writesEnabled (fst demo_full)" "fsm_view (fst demo_full, snd demo_full) = ([''k'' \<mapsto> ''v''], True)"
    by (simp_all add: demo_full_def fsm_view_def NewKVFsm_def)
  moreover have "fold spec_step [CSet ''a'' ''b'', CDelete ''k'', CToggle False] ([''k'' \<mapsto> ''v''], True) = ([''a'' \<mapsto> ''b''], False)"
    by (simp add: fun_eq_iff)
  ultimately show ?thesis
    using snapshot_shares_live_map [OF wire_entry_codec_ok wire_encodes inv, of "[CSet ''a'' ''b'', CDelete ''k'', CToggle False]"]
    by (simp del: fold_simps)
qed

end
