(* ===== verification/Kv_Store.thy ===== *)
theory Kv_Store
  imports Kv_Fsm
begin

text \<open>
  The operations of \<open>KVStore\<close> in \<open>internal/raft/kvstore/kvstore.go\<close> and the helpers of
  \<open>internal/raft/common.go\<close> they call.  The Raft library is the parameter \<open>raft_lib\<close>: a
  record of functions on an opaque node state \<open>'r\<close>, one per library call the code makes,
  which return what the call returns together with the node afterwards.  \<open>raft_Apply\<close>
  also returns the entries the library hands to the state machine before the future resolves.
  The documented behaviour the properties rely on is named by the predicates
  \<open>raft_apply_ok\<close> and \<open>raft_membership_ok\<close>.
\<close>

named_theorems kv_simps \<open>unfolding of the store's operations\<close>

section \<open>The Raft library, a parameter\<close>

datatype raft_state = Follower | Candidate | Leader | Shutdown

record raft_server =
  server_ID :: string
  server_Address :: string

record raft_config =
  LocalID :: string
  LogLevel :: string
  HeartbeatTimeout :: nat
  ElectionTimeout :: nat
  LeaderLeaseTimeout :: nat

record transport_config =
  MaxPool :: nat
  Timeout :: nat

text \<open>A path built by \<open>path.Join\<close> is kept as the list of its elements; a raft node starts
  from an optional snapshot, which it hands to \<open>Restore\<close> before \<open>NewRaft\<close> returns;
  \<open>NewRaft_restore_err\<close> is the error it reports when \<open>Restore\<close> fails.\<close>

type_synonym path = "string list"

record ('b, 'r) raft_lib = "'b codec" +
  ErrNotLeader_message :: string
  NewBoltStore :: "path \<Rightarrow> err option"
  NewFileSnapshotStore :: "path \<Rightarrow> nat \<Rightarrow> err option"
  ResolveTCPAddr :: "string \<Rightarrow> err + string"
  NewTCPTransport :: "string \<Rightarrow> string \<Rightarrow> transport_config \<Rightarrow> err + string"
  NewRaft :: "raft_config \<Rightarrow> err + ('r \<times> 'b option)"
  NewRaft_restore_err :: "err \<Rightarrow> err"
  BootstrapCluster :: "'r \<Rightarrow> raft_server list \<Rightarrow> err option \<times> 'r"
  raft_State :: "'r \<Rightarrow> raft_state"
  raft_Apply :: "'r \<Rightarrow> 'b \<Rightarrow> err option \<times> 'b list \<times> 'r"
  raft_sink_write :: "'r \<Rightarrow> 'b \<Rightarrow> err option"
  raft_sink_close :: "'r \<Rightarrow> err option"
  raft_Snapshot :: "'r \<Rightarrow> err option \<times> 'b sink_call list \<Rightarrow> err option \<times> 'r"
  snapshot_Open :: "'r \<Rightarrow> err + (64 word \<times> (err + 'b))"
  raft_GetConfiguration :: "'r \<Rightarrow> err + raft_server list"
  raft_RemoveServer :: "'r \<Rightarrow> string \<Rightarrow> err option \<times> 'r"
  raft_AddVoter :: "'r \<Rightarrow> string \<Rightarrow> string \<Rightarrow> err option \<times> 'r"
  raft_DemoteVoter :: "'r \<Rightarrow> string \<Rightarrow> err option \<times> 'r"
  raft_AppliedIndex :: "'r \<Rightarrow> 64 word"
  raft_LastIndex :: "'r \<Rightarrow> 64 word"
  raft_LeaderWithID :: "'r \<Rightarrow> string \<times> string"
  raft_LeadershipTransfer :: "'r \<Rightarrow> err option \<times> 'r"

text \<open>A future that resolves without error means that the entry was committed and handed to the
  state machine, after the entries committed before it.\<close>

definition raft_apply_ok :: "('b, 'r, 'z) raft_lib_scheme \<Rightarrow> bool" where
  "raft_apply_ok L \<longleftrightarrow>
     (\<forall>r d ds r'. raft_Apply L r d = (None, ds, r') \<longrightarrow> (\<exists>pre. ds = pre @ [d]))"

section \<open>The store of a process\<close>

text \<open>One process holds the \<open>KVStore\<close> value, the \<open>KVFsm\<close> value that Raft drives, and the
  heap with the map objects both may refer to.\<close>

record 'r kvproc =
  kp_kv :: "'r KVStore"
  kp_fsm :: "'r KVFsm"
  kp_heap :: heap

definition KVStore_Get :: "string \<Rightarrow> 'r kvproc \<Rightarrow> err + string" where
  "KVStore_Get key p =
     (case map_of (map_read (kp_heap p) (store (kp_kv p))) key of
        Some value \<Rightarrow> Inr value
      | None \<Rightarrow> Inl KeyNotFound)"

definition KVStore_Keys :: "'r kvproc \<Rightarrow> string list" where
  "KVStore_Keys p = map fst (map_read (kp_heap p) (store (kp_kv p)))"

definition GetWritesEnabled :: "'r kvproc \<Rightarrow> bool" where
  "GetWritesEnabled p = writesEnabled (kp_kv p)"

text \<open>\<open>k.raft.Apply(entry, ...).Error()\<close>: the entries that were committed run through the state
  machine of this process; a nil \<open>k.raft\<close> panics.\<close>

definition raft_apply_entry ::
  "('b, 'r, 'z) raft_lib_scheme \<Rightarrow> 'b \<Rightarrow> 'r kvproc \<Rightarrow> (err option \<times> 'r kvproc) outcome" where
  "raft_apply_entry L d p =
     (case raft (kp_kv p) of
        None \<Rightarrow> Panic
      | Some r \<Rightarrow>
          (case raft_Apply L r d of (e, ds, r') \<Rightarrow>
             bind_outcome (fsm_run L ds (kp_fsm p, kp_heap p))
               (\<lambda>(f, h). Return (e, p\<lparr>kp_kv := (kp_kv p)\<lparr>raft := Some r'\<rparr>, kp_fsm := f, kp_heap := h\<rparr>))))"

definition SetWritesEnabled ::
  "('b, 'r, 'z) raft_lib_scheme \<Rightarrow> bool \<Rightarrow> 'r kvproc \<Rightarrow> (err option \<times> 'r kvproc) outcome" where
  "SetWritesEnabled L enabled p =
     (if writesEnabled (kp_kv p) = enabled then Return (None, p)
      else case marshal_entry L (toggle_entry enabled) of
             Inl e \<Rightarrow> Return (Some e, p)
           | Inr newEntry \<Rightarrow> raft_apply_entry L newEntry p)"

definition ErrNotLeader :: "('b, 'r, 'z) raft_lib_scheme \<Rightarrow> err" where
  "ErrNotLeader L = RaftErr NotLeader (ErrNotLeader_message L)"

definition KVStore_Set ::
  "('b, 'r, 'z) raft_lib_scheme \<Rightarrow> string \<Rightarrow> string \<Rightarrow> 'r kvproc \<Rightarrow> (err option \<times> 'r kvproc) outcome" where
  "KVStore_Set L key value p =
     (case raft (kp_kv p) of
        None \<Rightarrow> Panic
      | Some r \<Rightarrow>
          if raft_State L r \<noteq> Leader then Return (Some (ErrNotLeader L), p)
          else case marshal_entry L (set_entry key value) of
                 Inl e \<Rightarrow> Return (Some e, p)
               | Inr newEntry \<Rightarrow> raft_apply_entry L newEntry p)"

definition KVStore_Delete ::
  "('b, 'r, 'z) raft_lib_scheme \<Rightarrow> string \<Rightarrow> 'r kvproc \<Rightarrow> (err option \<times> 'r kvproc) outcome" where
  "KVStore_Delete L key p =
     (case raft (kp_kv p) of
        None \<Rightarrow> Panic
      | Some r \<Rightarrow>
          if raft_State L r \<noteq> Leader then Return (Some (ErrNotLeader L), p)
          else case marshal_entry L (delete_entry key) of
                 Inl e \<Rightarrow> Return (Some e, p)
               | Inr newEntry \<Rightarrow> raft_apply_entry L newEntry p)"

section \<open>Setting Raft up (common.go)\<close>

definition serverAddressProvider_ServerAddr ::
  "('b, 'r, 'z) raft_lib_scheme \<Rightarrow> string \<Rightarrow> err + string" where
  "serverAddressProvider_ServerAddr L sid =
     (case ResolveTCPAddr L sid of Inl e \<Rightarrow> Inl e | Inr tcpAddr \<Rightarrow> Inr tcpAddr)"

definition raftTimeout :: nat where "raftTimeout = 10"

definition setup_config :: "string \<Rightarrow> raft_config" where
  "setup_config sid =
     \<lparr>LocalID = sid, LogLevel = ''DEBUG'', HeartbeatTimeout = 5, ElectionTimeout = 5, LeaderLeaseTimeout = 1\<rparr>"

definition SetupRaft ::
  "('b, 'r, 'z) raft_lib_scheme \<Rightarrow> string \<Rightarrow> string \<Rightarrow> string \<Rightarrow> bool \<Rightarrow> 'r KVFsm \<times> heap \<Rightarrow>
   err + ('r \<times> 'r KVFsm \<times> heap)" where
  "SetupRaft L dir sid address shouldBootstrap fh =
     (case NewBoltStore L [dir, ''bolt''] of
        Some e \<Rightarrow> Inl (Errorf (''could not create bolt store: '' @ Error e))
      | None \<Rightarrow>
     (case NewFileSnapshotStore L [dir, ''snapshot''] 2 of
        Some e \<Rightarrow> Inl (Errorf (''could not create snapshot store: '' @ Error e))
      | None \<Rightarrow>
     (case ResolveTCPAddr L address of
        Inl e \<Rightarrow> Inl (Errorf (''could not resolve address: '' @ Error e))
      | Inr tcpAddr \<Rightarrow>
     (case NewTCPTransport L address tcpAddr \<lparr>MaxPool = 10, Timeout = raftTimeout\<rparr> of
        Inl e \<Rightarrow> Inl (Errorf (''could not create tcp transport: '' @ Error e))
      | Inr localAddr \<Rightarrow>
     (case NewRaft L (setup_config sid) of
        Inl e \<Rightarrow> Inl (Errorf (''could not create raft instance: '' @ Error e))
      | Inr (r, snapshot) \<Rightarrow>
          (case (case snapshot of None \<Rightarrow> (None, fh) | Some b \<Rightarrow> KVFsm_Restore L (Inr b) fh) of
             (Some e, _) \<Rightarrow> Inl (Errorf (''could not create raft instance: '' @ Error (NewRaft_restore_err L e)))
           | (None, f, h) \<Rightarrow>
               if shouldBootstrap then
                 (case BootstrapCluster L r [\<lparr>server_ID = sid, server_Address = localAddr\<rparr>] of
                    (Some e, _) \<Rightarrow> Inl (Errorf (''could not bootstrap cluster: '' @ Error e))
                  | (None, r') \<Rightarrow> Inr (r', f, h))
               else Inr (r, f, h)))))))"

text \<open>\<open>r.Snapshot()\<close>: the library asks the state machine for a snapshot, persists it into a
  sink, and reports; the outcome of the persisting step is handed to the library.\<close>

definition take_snapshot ::
  "('b, 'r, 'z) raft_lib_scheme \<Rightarrow> 'r \<Rightarrow> 'r KVFsm \<Rightarrow> heap \<Rightarrow> err option \<times> 'r" where
  "take_snapshot L r f h =
     raft_Snapshot L r (fsmSnapshot_Persist L (raft_sink_write L r) (raft_sink_close L r) (KVFsm_Snapshot f) h)"

definition ShutdownRaft ::
  "('b, 'r, 'z) raft_lib_scheme \<Rightarrow> 'r \<Rightarrow> 'r KVFsm \<Rightarrow> heap \<Rightarrow> err option \<times> 'r" where
  "ShutdownRaft L r f h =
     (if raft_State L r = Leader then
        (case raft_LeadershipTransfer L r of
           (Some e, r') \<Rightarrow> (Some (Errorf (''could not demote leader: '' @ Error e)), r')
         | (None, r') \<Rightarrow>
             (case take_snapshot L r' f h of
                (Some e, r'') \<Rightarrow> (Some (Errorf (''could not snapshot: '' @ Error e)), r'')
              | (None, r'') \<Rightarrow> (None, r'')))
      else (None, r))"

definition JoinReplica ::
  "('b, 'r, 'z) raft_lib_scheme \<Rightarrow> 'r \<Rightarrow> string \<Rightarrow> string \<Rightarrow> err option \<times> 'r" where
  "JoinReplica L r sid address =
     (if raft_State L r \<noteq> Leader then (None, r)
      else case raft_AddVoter L r sid address of
             (Some e, r') \<Rightarrow> (Some (Errorf (''could not add voter: '' @ Error e)), r')
           | (None, r') \<Rightarrow> (None, r'))"

section \<open>The remaining operations of the store\<close>

text \<open>The Raft id and address of a replica, \<open>%s.%s:%d\<close> and \<open>%s:%d\<close>.\<close>

definition replica_id :: "string \<Rightarrow> string \<Rightarrow> int \<Rightarrow> string" where
  "replica_id replica shard raftPort = replica @ ''.'' @ shard @ '':'' @ itoa raftPort"

definition host_port :: "string \<Rightarrow> int \<Rightarrow> string" where
  "host_port host port = host @ '':'' @ itoa port"

lemma host_port_inject [name_simps, simp]: "host_port h p = host_port h' p' \<longleftrightarrow> h = h' \<and> p = p'"
  by (simp add: host_port_def append_sep_inject)

lemma replica_id_host_port [name_simps]: "replica_id r sh p = host_port (r @ ''.'' @ sh) p"
  by (simp add: replica_id_def host_port_def)

definition KVStore_Open ::
  "('b, 'r, 'z) raft_lib_scheme \<Rightarrow> string \<Rightarrow> string \<Rightarrow> int \<Rightarrow> string \<Rightarrow> string \<Rightarrow> bool \<Rightarrow>
   'r KVStore \<times> heap \<Rightarrow> err + 'r kvproc" where
  "KVStore_Open L dir ip raftPort shard replica shouldBootstrap kh =
     (let (k, h) = kh; fsm = NewKVFsm (store k);
          sid = replica_id replica shard raftPort; address = host_port ip raftPort
      in case SetupRaft L dir sid address shouldBootstrap (fsm, h) of
           Inl e \<Rightarrow> Inl e
         | Inr (r, f, h') \<Rightarrow> Inr \<lparr>kp_kv = k\<lparr>raft := Some r\<rparr>, kp_fsm = f, kp_heap = h'\<rparr>)"

text \<open>\<open>Snapshot\<close> formats \<open>future.Error()\<close>, which is nil, in its last three errors; the verb
  \<open>%s\<close> renders a nil error as \<open>%!s(<nil>)\<close>.\<close>

definition nil_error_text :: string where "nil_error_text = ''%!s(<nil>)''"

definition KVStore_Snapshot ::
  "('b, 'r, 'z) raft_lib_scheme \<Rightarrow> 'r kvproc \<Rightarrow> ((gomap option \<times> err option) \<times> 'r kvproc) outcome" where
  "KVStore_Snapshot L p =
     (case raft (kp_kv p) of
        None \<Rightarrow> Panic
      | Some r \<Rightarrow>
          (case take_snapshot L r (kp_fsm p) (kp_heap p) of
             (res, r') \<Rightarrow>
               let p' = p\<lparr>kp_kv := (kp_kv p)\<lparr>raft := Some r'\<rparr>\<rparr> in
               Return
                 (case res of
                    Some e \<Rightarrow>
                      ((Some [], if is_raft_err NothingNewToSnapshot e then None
                                 else Some (Errorf (''could not perform snapshot: '' @ Error e))), p')
                  | None \<Rightarrow>
                      (case snapshot_Open L r' of
                         Inl e \<Rightarrow> ((Some [], Some (Errorf (''could not open snapshot: '' @ nil_error_text))), p')
                       | Inr (index, rd) \<Rightarrow>
                           (case rd of
                              Inl e \<Rightarrow> ((Some [], Some (Errorf (''could not read snapshot: '' @ nil_error_text))), p')
                            | Inr bytes \<Rightarrow>
                                (case unmarshal_snapshot L bytes of
                                   Inl e \<Rightarrow> ((Some [], Some (Errorf (''could not parse snapshot: '' @ nil_error_text))), p')
                                 | Inr m \<Rightarrow>
                                     ((KVFSMSnapshot_KvStore m, None),
                                      p'\<lparr>kp_kv := (kp_kv p')\<lparr>lastSnapshotIndex := index\<rparr>\<rparr>)))))))"

definition KVStore_Close ::
  "('b, 'r, 'z) raft_lib_scheme \<Rightarrow> 'r kvproc \<Rightarrow> (err option \<times> 'r kvproc) outcome" where
  "KVStore_Close L p =
     (case raft (kp_kv p) of
        None \<Rightarrow> Panic
      | Some r \<Rightarrow>
          (case ShutdownRaft L r (kp_fsm p) (kp_heap p) of
             (e, r') \<Rightarrow> Return (e, p\<lparr>kp_kv := (kp_kv p)\<lparr>raft := Some r'\<rparr>\<rparr>)))"

text \<open>The loop of \<open>Join\<close> over the servers of the configuration: \<open>Inl\<close> is a return from
  inside the loop, with its result; \<open>Inr\<close> is the node when the loop ends.\<close>

fun join_loop ::
  "('b, 'r, 'z) raft_lib_scheme \<Rightarrow> string \<Rightarrow> string \<Rightarrow> raft_server list \<Rightarrow> 'r \<Rightarrow> (err option \<times> 'r) + 'r" where
  "join_loop L sid address [] r = Inr r"
| "join_loop L sid address (m # ms) r =
     (if server_ID m = sid \<or> server_Address m = address then
        if server_ID m = sid \<and> server_Address m = address then Inl (None, r)
        else (case raft_RemoveServer L r (server_ID m) of
                (Some e, r') \<Rightarrow>
                  Inl (Some (Errorf (''failed to remove existing replica '' @ sid @ '': '' @ Error e)), r')
              | (None, r') \<Rightarrow> join_loop L sid address ms r')
      else join_loop L sid address ms r)"

definition join_node ::
  "('b, 'r, 'z) raft_lib_scheme \<Rightarrow> string \<Rightarrow> string \<Rightarrow> 'r \<Rightarrow> err option \<times> 'r" where
  "join_node L sid address r =
     (if raft_State L r \<noteq> Leader then (None, r)
      else case raft_GetConfiguration L r of
             Inl e \<Rightarrow> (Some (Errorf (''failed to get raft configuration: '' @ Error e)), r)
           | Inr servers \<Rightarrow>
               (case join_loop L sid address servers r of
                  Inl res \<Rightarrow> res
                | Inr r' \<Rightarrow> JoinReplica L r' sid address))"

definition KVStore_Join ::
  "('b, 'r, 'z) raft_lib_scheme \<Rightarrow> string \<Rightarrow> int \<Rightarrow> string \<Rightarrow> string \<Rightarrow> 'r kvproc \<Rightarrow>
   (err option \<times> 'r kvproc) outcome" where
  "KVStore_Join L ip raftPort shard replica p =
     (case raft (kp_kv p) of
        None \<Rightarrow> Panic
      | Some r \<Rightarrow>
          (case join_node L (replica_id replica shard raftPort) (host_port ip raftPort) r of
             (e, r') \<Rightarrow> Return (e, p\<lparr>kp_kv := (kp_kv p)\<lparr>raft := Some r'\<rparr>\<rparr>)))"

definition KVStore_DemoteVoter ::
  "('b, 'r, 'z) raft_lib_scheme \<Rightarrow> string \<Rightarrow> int \<Rightarrow> string \<Rightarrow> string \<Rightarrow> 'r kvproc \<Rightarrow>
   (err option \<times> 'r kvproc) outcome" where
  "KVStore_DemoteVoter L ip raftPort shard replica p =
     (case raft (kp_kv p) of
        None \<Rightarrow> Panic
      | Some r \<Rightarrow>
          if raft_State L r \<noteq> Leader then Return (None, p)
          else (case raft_DemoteVoter L r (replica_id replica shard raftPort) of
                  (e, r') \<Rightarrow> Return (e, p\<lparr>kp_kv := (kp_kv p)\<lparr>raft := Some r'\<rparr>\<rparr>)))"

definition HasLatestLogs :: "('b, 'r, 'z) raft_lib_scheme \<Rightarrow> 'r kvproc \<Rightarrow> bool outcome" where
  "HasLatestLogs L p =
     (case raft (kp_kv p) of
        None \<Rightarrow> Panic
      | Some r \<Rightarrow> Return (raft_AppliedIndex L r = raft_LastIndex L r))"

definition KVStore_Leader :: "('b, 'r, 'z) raft_lib_scheme \<Rightarrow> 'r kvproc \<Rightarrow> string outcome" where
  "KVStore_Leader L p =
     (case raft (kp_kv p) of
        None \<Rightarrow> Panic
      | Some r \<Rightarrow> Return (snd (raft_LeaderWithID L r)))"

end
