(* ===== verification/Shard_Process.thy ===== *)
theory Shard_Process
  imports Kv_Store Proto_Messages
begin

text \<open>
  The state of a shard process (\<open>cmd/shard/shard.go\<close>: its flags and package variables), the
  world of processes that call each other over gRPC, and the calls themselves.  A handler is an
  action on the world, because it may call other processes.  The network is part of the world: it
  decides for each call, by its number, which process the dialled name resolves to and whether the
  request or the reply is lost.  The consistent-hashing package and \<open>grpc.Dial\<close> are parameters.
\<close>

named_theorems act_simps \<open>unfolding of actions on the world\<close>

section \<open>Parameters\<close>

text \<open>The packages the process calls besides Raft.  \<open>ring_ok\<close>: \<open>consistent.New\<close> returns for these
  members (it panics when it cannot distribute the partitions); \<open>LocateKey\<close>: the member a key
  belongs to in the ring of these members, nil when there is none; \<open>range_order\<close>: the order in which
  \<open>range\<close> visits a map with these keys; \<open>dial_ok\<close>: whether the n-th attempt to dial a target
  succeeds; \<open>net_Listen\<close>: the error of listening on an address; \<open>raft_wait\<close>: the
  entries the Raft node hands to the state machine in one second without calls, and the node afterwards.\<close>

record ('b, 'r) shard_lib = "('b, 'r) raft_lib" +
  ring_ok :: "string list \<Rightarrow> bool"
  LocateKey :: "string list \<Rightarrow> string \<Rightarrow> string option"
  range_order :: "string list \<Rightarrow> string list"
  dial_ok :: "string \<Rightarrow> nat \<Rightarrow> bool"
  net_Listen :: "string \<Rightarrow> err option"
  raft_wait :: "'r \<Rightarrow> 'b list \<times> 'r"

text \<open>Documented: \<open>range\<close> visits every entry once; a ring with members locates every key at one of
  them.\<close>

definition range_ok :: "('b, 'r, 'z) shard_lib_scheme \<Rightarrow> bool" where
  "range_ok L \<longleftrightarrow> (\<forall>xs. distinct xs \<longrightarrow> distinct (range_order L xs) \<and> set (range_order L xs) = set xs)"

definition locate_ok :: "('b, 'r, 'z) shard_lib_scheme \<Rightarrow> bool" where
  "locate_ok L \<longleftrightarrow> (\<forall>ms k. ms \<noteq> [] \<longrightarrow> (\<exists>m \<in> set ms. LocateKey L ms k = Some m))"

section \<open>Process state\<close>

record flags =
  flag_address :: string
  flag_kvPort :: int
  flag_shardPort :: int
  flag_raftPort :: int
  flag_replicaPort :: int
  flag_shard :: string
  flag_replica :: string
  flag_folder :: string
  flag_shouldBootstrap :: bool

definition default_flags :: flags where
  "default_flags =
     \<lparr>flag_address = ''localhost'', flag_kvPort = 8080, flag_shardPort = 8081, flag_raftPort = 8082,
      flag_replicaPort = 8083, flag_shard = ''shard-0'', flag_replica = ''shard-0-replica-0'',
      flag_folder = ''/data'', flag_shouldBootstrap = False\<rparr>"

record KVStoreShard =
  shard_Name :: string
  shard_Replicas :: "string list"

record KVStoreConfig =
  config_Shards :: "KVStoreShard list"
  config_NewShards :: "KVStoreShard list"

text \<open>What the mounted configuration file holds when the process reads it.\<close>

datatype config_source = Unreadable | Unparsable | Parsed KVStoreConfig

datatype rpc_service = KV | ShardRPC | ReplicaRPC

text \<open>\<open>ch\<close> is \<open>None\<close> for the zero value of \<open>Consistent\<close>, otherwise the members the ring was built
  from.  The client maps hold, for each key, the address their connection dials.  \<open>spawned\<close> counts the
  goroutines running \<open>RedistributeKeys\<close> that were started and have not begun; \<open>servers\<close> lists the
  addresses the process listens on with the service registered there.\<close>

record 'r process =
  flags :: flags
  configFile :: config_source
  ch :: "string list option"
  shardClients :: "(string \<times> string) list"
  replicaClients :: "(string \<times> string) list"
  kvStore :: "'r kvproc"
  redistributingKeys :: bool
  spawned :: nat
  servers :: "(string \<times> rpc_service) list"

section \<open>The world and its actions\<close>

datatype fate = Lost err | Served "err option"

record 'r world =
  processes :: "string \<Rightarrow> 'r process option"
  route :: "nat \<Rightarrow> string \<Rightarrow> string option"
  rpc_fate :: "nat \<Rightarrow> fate"
  unavailable :: err
  clock :: nat

text \<open>An action may read and change a state, and ends in an outcome.\<close>

type_synonym ('s, 'a) prog = "'s \<Rightarrow> 'a outcome \<times> 's"
type_synonym ('r, 'a) act = "('r world, 'a) prog"

definition ret :: "'a \<Rightarrow> ('s, 'a) prog" where
  "ret x w = (Return x, w)"

definition panic :: "('s, 'a) prog" where
  "panic w = (Panic, w)"

definition diverge :: "('s, 'a) prog" where
  "diverge w = (Diverge, w)"

definition bind_act :: "('s, 'a) prog \<Rightarrow> ('a \<Rightarrow> ('s, 'b) prog) \<Rightarrow> ('s, 'b) prog" where
  "bind_act m f w =
     (case m w of
        (Return x, w') \<Rightarrow> f x w'
      | (Panic, w') \<Rightarrow> (Panic, w')
      | (Diverge, w') \<Rightarrow> (Diverge, w'))"

definition lift_outcome :: "'a outcome \<Rightarrow> ('s, 'a) prog" where
  "lift_outcome o' w = (o', w)"

definition self :: "string \<Rightarrow> ('r, 'r process) act" where
  "self s w = (case processes w s of None \<Rightarrow> (Panic, w) | Some p \<Rightarrow> (Return p, w))"

definition set_process :: "string \<Rightarrow> 'r process \<Rightarrow> 'r world \<Rightarrow> 'r world" where
  "set_process s p w = w\<lparr>processes := (processes w)(s \<mapsto> p)\<rparr>"

definition become :: "string \<Rightarrow> 'r process \<Rightarrow> ('r, unit) act" where
  "become s p w = (Return (), set_process s p w)"

definition crash :: "string \<Rightarrow> 'r world \<Rightarrow> 'r world" where
  "crash s w = w\<lparr>processes := (processes w)(s := None)\<rparr>"

text \<open>An operation of the process's own store.\<close>

definition on_store :: "string \<Rightarrow> ('r kvproc \<Rightarrow> ('a \<times> 'r kvproc) outcome) \<Rightarrow> ('r, 'a) act" where
  "on_store s op =
     bind_act (self s) (\<lambda>p.
       case op (kvStore p) of
         Return (x, k) \<Rightarrow> bind_act (become s (p\<lparr>kvStore := k\<rparr>)) (\<lambda>_. ret x)
       | Panic \<Rightarrow> panic
       | Diverge \<Rightarrow> diverge)"

section \<open>Remote calls\<close>

text \<open>A handler's error reaches the client as a status: an error that is one already keeps its code,
  any other gets the code \<open>Unknown\<close> and its message.\<close>

definition to_status :: "err \<Rightarrow> err" where
  "to_status e = (case e of StatusErr c m \<Rightarrow> e | _ \<Rightarrow> StatusErr ''Unknown'' (Error e))"

definition status_result :: "err + 'a \<Rightarrow> err + 'a" where
  "status_result r = (case r of Inl e \<Rightarrow> Inl (to_status e) | Inr x \<Rightarrow> Inr x)"

text \<open>A call through a connection to \<open>target\<close>: it fails when the name resolves to no running process
  or the request is lost; otherwise the handler runs there, and its reply may still be lost.  A
  handler that panics takes its process down and the caller sees the connection fail; a handler that
  never returns blocks the caller.\<close>

definition rpc :: "string \<Rightarrow> (string \<Rightarrow> ('r, err + 'a) act) \<Rightarrow> ('r, err + 'a) act" where
  "rpc target handler w =
     (let n = clock w; w1 = w\<lparr>clock := Suc n\<rparr> in
      case route w n target of
        None \<Rightarrow> (Return (Inl (unavailable w)), w1)
      | Some host \<Rightarrow>
          if processes w host = None then (Return (Inl (unavailable w)), w1)
          else (case rpc_fate w n of
                  Lost e \<Rightarrow> (Return (Inl e), w1)
                | Served reply \<Rightarrow>
                    (case handler host w1 of
                       (Return res, w2) \<Rightarrow>
                         (Return (case reply of None \<Rightarrow> status_result res | Some e \<Rightarrow> Inl e), w2)
                     | (Panic, w2) \<Rightarrow> (Return (Inl (unavailable w)), crash host w2)
                     | (Diverge, w2) \<Rightarrow> (Diverge, w2))))"

text \<open>A call through a client held in a map: a missing key gives a nil client, and calling a method
  of it panics.\<close>

definition client_call ::
  "(string \<times> string) list \<Rightarrow> string \<Rightarrow> (string \<Rightarrow> ('r, err + 'a) act) \<Rightarrow> ('r, err + 'a) act" where
  "client_call clients key handler =
     (case map_of clients key of None \<Rightarrow> panic | Some target \<Rightarrow> rpc target handler)"

section \<open>Configuration\<close>

definition ReadConfig :: "'r process \<Rightarrow> KVStoreConfig outcome" where
  "ReadConfig p =
     (case configFile p of
        Unreadable \<Rightarrow> Panic
      | Unparsable \<Rightarrow> Panic
      | Parsed kvConfig \<Rightarrow> Return kvConfig)"

definition new_ring :: "('b, 'r, 'z) shard_lib_scheme \<Rightarrow> KVStoreShard list \<Rightarrow> string list outcome" where
  "new_ring L shards =
     (let members = map shard_Name shards in if ring_ok L members then Return members else Panic)"

text \<open>\<open>ring.LocateKey(key).String()\<close>: the zero ring divides by its partition count, 0, and a nil
  member has no \<open>String\<close>; both panic.\<close>

definition locate :: "('b, 'r, 'z) shard_lib_scheme \<Rightarrow> string list option \<Rightarrow> string \<Rightarrow> string outcome" where
  "locate L ring key =
     (case ring of
        None \<Rightarrow> Panic
      | Some members \<Rightarrow> (case LocateKey L members key of None \<Rightarrow> Panic | Some m \<Rightarrow> Return m))"

text \<open>The retry loop around \<open>grpc.Dial\<close>: the number of the attempt that succeeded.\<close>

partial_function (option) dial_loop :: "(nat \<Rightarrow> bool) \<Rightarrow> nat \<Rightarrow> nat option" where
  "dial_loop ok n = (if ok n then Some n else dial_loop ok (Suc n))"

fun populate_clients ::
  "('b, 'r, 'z) shard_lib_scheme \<Rightarrow> (string \<times> string) list \<Rightarrow> (string \<times> string) list \<Rightarrow>
   unit outcome \<times> (string \<times> string) list" where
  "populate_clients L [] clients = (Return (), clients)"
| "populate_clients L ((key, target) # ds) clients =
     (if map_of clients key \<noteq> None then populate_clients L ds clients
      else (case dial_loop (dial_ok L target) 0 of
              None \<Rightarrow> (Diverge, clients)
            | Some n \<Rightarrow> populate_clients L ds (clients @ [(key, target)])))"

definition PopulateShardClients ::
  "('b, 'r, 'z) shard_lib_scheme \<Rightarrow> string \<Rightarrow> KVStoreShard list \<Rightarrow> ('r, unit) act" where
  "PopulateShardClients L s shards =
     bind_act (self s) (\<lambda>p.
       case populate_clients L
              (map (\<lambda>d. (shard_Name d, host_port (shard_Name d) (flag_shardPort (flags p)))) shards)
              (shardClients p) of
         (r, cs) \<Rightarrow> bind_act (become s (p\<lparr>shardClients := cs\<rparr>)) (\<lambda>_. lift_outcome r))"

definition ReloadConfig :: "('b, 'r, 'z) shard_lib_scheme \<Rightarrow> string \<Rightarrow> ('r, bool) act" where
  "ReloadConfig L s =
     bind_act (self s) (\<lambda>p.
     bind_act (lift_outcome (ReadConfig p)) (\<lambda>kvConfig.
     if config_NewShards kvConfig \<noteq> [] then ret False
     else
       bind_act (lift_outcome (new_ring L (config_Shards kvConfig))) (\<lambda>members.
       bind_act (become s (p\<lparr>ch := Some members\<rparr>)) (\<lambda>_.
       bind_act (PopulateShardClients L s (config_Shards kvConfig)) (\<lambda>_.
       ret True)))))"

end
