(* ===== verification/Shard_Server.thy ===== *)
theory Shard_Server
  imports Shard_Process
begin

text \<open>
  The handlers of the three gRPC services of a shard process (\<open>cmd/shard/shard.go\<close>), bottom up:
  the replica service, which a replica calls on its leader, the shard service, which other shards and
  the controller call, and the key-value service for clients.  Every handler takes the process it
  runs on (its name in the world) and its request.  Then the start and the end of a process:
  \<open>main\<close>, \<open>PopulateReplicaClients\<close> and \<open>JoinCluster\<close>.
\<close>

section \<open>The replica service\<close>

definition reply_of :: "'a \<Rightarrow> err option \<Rightarrow> err + 'a" where
  "reply_of x e = (case e of Some e \<Rightarrow> Inl e | None \<Rightarrow> Inr x)"

definition replica_Put ::
  "('b, 'r, 'z) shard_lib_scheme \<Rightarrow> InternalPutRequest \<Rightarrow> string \<Rightarrow> ('r, err + PutResponse) act" where
  "replica_Put L req s =
     bind_act (self s) (\<lambda>p.
     if \<not> InternalPutRequest_IsRedistribution req \<and> \<not> GetWritesEnabled (kvStore p)
     then ret (Inl ErrWritesDisabled)
     else
       bind_act (on_store s (KVStore_Set L (InternalPutRequest_Key req) (InternalPutRequest_Value req))) (\<lambda>e.
       ret (reply_of PutResponse e)))"

definition replica_Delete ::
  "('b, 'r, 'z) shard_lib_scheme \<Rightarrow> DeleteRequest \<Rightarrow> string \<Rightarrow> ('r, err + DeleteResponse) act" where
  "replica_Delete L req s =
     bind_act (on_store s (KVStore_Delete L (DeleteRequest_Key req))) (\<lambda>e.
     ret (reply_of DeleteResponse e))"

definition replica_PauseWrites ::
  "('b, 'r, 'z) shard_lib_scheme \<Rightarrow> PauseWritesRequest \<Rightarrow> string \<Rightarrow> ('r, err + PauseWritesResponse) act" where
  "replica_PauseWrites L req s =
     bind_act (self s) (\<lambda>p.
     bind_act (lift_outcome (ReadConfig p)) (\<lambda>kvConfig.
     if config_NewShards kvConfig = [] then ret (Inr \<lparr>PauseWritesResponse_IsPaused = False\<rparr>)
     else
       bind_act (on_store s (SetWritesEnabled L False)) (\<lambda>e.
       ret (reply_of \<lparr>PauseWritesResponse_IsPaused = True\<rparr> e))))"

text \<open>Whether a key belongs to this shard in the old ring and to another one in the new ring; both
  locations are computed for every key.\<close>

definition must_move ::
  "('b, 'r, 'z) shard_lib_scheme \<Rightarrow> 'r process \<Rightarrow> string list \<Rightarrow> string \<Rightarrow> bool outcome" where
  "must_move L p newCh key =
     bind_outcome (locate L (ch p) key) (\<lambda>oldLocation.
     bind_outcome (locate L (Some newCh) key) (\<lambda>newLocation.
     Return (oldLocation \<noteq> newLocation \<and> oldLocation = flag_shard (flags p))))"

fun count_pending ::
  "('b, 'r, 'z) shard_lib_scheme \<Rightarrow> 'r process \<Rightarrow> string list \<Rightarrow> string list \<Rightarrow> nat \<Rightarrow> nat outcome" where
  "count_pending L p newCh [] pendingKeys = Return pendingKeys"
| "count_pending L p newCh (key # keys) pendingKeys =
     bind_outcome (must_move L p newCh key) (\<lambda>b.
     count_pending L p newCh keys (if b then Suc pendingKeys else pendingKeys))"

text \<open>The handler starts \<open>RedistributeKeys\<close> in a goroutine and counts the keys still to move; the
  count is cut to 32 bits.\<close>

definition replica_RedistributeKeys ::
  "('b, 'r, 'z) shard_lib_scheme \<Rightarrow> RedistributeKeysRequest \<Rightarrow> string \<Rightarrow>
   ('r, err + RedistributeKeysResponse) act" where
  "replica_RedistributeKeys L req s =
     bind_act (self s) (\<lambda>p.
     bind_act (become s (p\<lparr>spawned := Suc (spawned p)\<rparr>)) (\<lambda>_.
     bind_act (lift_outcome (ReadConfig p)) (\<lambda>kvConfig.
     bind_act (lift_outcome (new_ring L (config_NewShards kvConfig))) (\<lambda>newCh.
     bind_act (lift_outcome
        (count_pending L p newCh (range_order L (KVStore_Keys (kvStore p))) 0)) (\<lambda>pendingKeys.
     ret (Inr \<lparr>RedistributeKeysResponse_PendingKeys = of_nat pendingKeys\<rparr>))))))"

definition replica_ReloadConfig ::
  "('b, 'r, 'z) shard_lib_scheme \<Rightarrow> ReloadConfigRequest \<Rightarrow> string \<Rightarrow> ('r, err + ReloadConfigResponse) act" where
  "replica_ReloadConfig L req s =
     bind_act (ReloadConfig L s) (\<lambda>reloadSuccessful.
     ret (Inr \<lparr>ReloadConfigResponse_ReloadSuccessful = reloadSuccessful\<rparr>))"

text \<open>The loop of \<open>ResumeWrites\<close> over the replicas: \<open>None\<close> when a call failed and the handler
  returns at once, otherwise whether every replica had reloaded.\<close>

fun reload_replicas ::
  "('b, 'r, 'z) shard_lib_scheme \<Rightarrow> (string \<times> string) list \<Rightarrow> string list \<Rightarrow> bool \<Rightarrow> ('r, bool option) act" where
  "reload_replicas L clients [] reloadSuccessful = ret (Some reloadSuccessful)"
| "reload_replicas L clients (replica # replicas) reloadSuccessful =
     bind_act (client_call clients replica (replica_ReloadConfig L ReloadConfigRequest)) (\<lambda>res.
     case res of
       Inl e \<Rightarrow> ret None
     | Inr r \<Rightarrow> reload_replicas L clients replicas
                  (ReloadConfigResponse_ReloadSuccessful r \<and> reloadSuccessful))"

definition replica_ResumeWrites ::
  "('b, 'r, 'z) shard_lib_scheme \<Rightarrow> ResumeWritesRequest \<Rightarrow> string \<Rightarrow> ('r, err + ResumeWritesResponse) act" where
  "replica_ResumeWrites L req s =
     bind_act (self s) (\<lambda>p.
     bind_act (lift_outcome (ReadConfig p)) (\<lambda>kvConfig.
     if config_NewShards kvConfig \<noteq> [] then ret (Inr \<lparr>ResumeWritesResponse_IsResumed = False\<rparr>)
     else
       bind_act (reload_replicas L (replicaClients p)
          (range_order L (map fst (replicaClients p))) True) (\<lambda>reloadSuccessful.
       if reloadSuccessful \<noteq> Some True then ret (Inr \<lparr>ResumeWritesResponse_IsResumed = False\<rparr>)
       else
         bind_act (on_store s (SetWritesEnabled L True)) (\<lambda>e.
         ret (reply_of \<lparr>ResumeWritesResponse_IsResumed = True\<rparr> e)))))"

definition replica_Join ::
  "('b, 'r, 'z) shard_lib_scheme \<Rightarrow> JoinRequest \<Rightarrow> string \<Rightarrow> ('r, err + JoinResponse) act" where
  "replica_Join L req s =
     bind_act (self s) (\<lambda>p.
     bind_act (on_store s (KVStore_Join L (JoinRequest_Address req) (flag_raftPort (flags p))
        (flag_shard (flags p)) (JoinRequest_Replica req))) (\<lambda>e.
     ret (reply_of JoinResponse e)))"

definition no_leader :: err where "no_leader = Errorf ''no leader found''"

definition replica_Leader ::
  "('b, 'r, 'z) shard_lib_scheme \<Rightarrow> LeaderRequest \<Rightarrow> string \<Rightarrow> ('r, err + LeaderResponse) act" where
  "replica_Leader L req s =
     bind_act (self s) (\<lambda>p.
     bind_act (lift_outcome (KVStore_Leader L (kvStore p))) (\<lambda>leader.
     ret (if leader = [] then Inl no_leader else Inr \<lparr>LeaderResponse_Leader = leader\<rparr>)))"

definition replica_DemoteVoter ::
  "('b, 'r, 'z) shard_lib_scheme \<Rightarrow> DemoteVoterRequest \<Rightarrow> string \<Rightarrow> ('r, err + DemoteVoterResponse) act" where
  "replica_DemoteVoter L req s =
     bind_act (self s) (\<lambda>p.
     bind_act (on_store s (KVStore_DemoteVoter L (DemoteVoterRequest_Address req) (flag_raftPort (flags p))
        (flag_shard (flags p)) (DemoteVoterRequest_Replica req))) (\<lambda>e.
     ret (reply_of DemoteVoterResponse e)))"

section \<open>The shard service\<close>

text \<open>Asking the leader: \<open>kvStore.Leader()\<close>, the error when there is none, otherwise the call
  through the client of that replica.\<close>

definition forward_to_leader ::
  "('b, 'r, 'z) shard_lib_scheme \<Rightarrow> string \<Rightarrow> (string \<Rightarrow> ('r, err + 'a) act) \<Rightarrow> ('r, err + 'a) act" where
  "forward_to_leader L s handler =
     bind_act (self s) (\<lambda>p.
     bind_act (lift_outcome (KVStore_Leader L (kvStore p))) (\<lambda>leader.
     if leader = [] then ret (Inl no_leader)
     else client_call (replicaClients p) leader handler))"

definition shard_Get :: "GetRequest \<Rightarrow> string \<Rightarrow> ('r, err + GetResponse) act" where
  "shard_Get req s =
     bind_act (self s) (\<lambda>p.
     ret (case KVStore_Get (GetRequest_Key req) (kvStore p) of
            Inl e \<Rightarrow> Inl e
          | Inr v \<Rightarrow> Inr \<lparr>GetResponse_Value = v\<rparr>))"

definition shard_Put ::
  "('b, 'r, 'z) shard_lib_scheme \<Rightarrow> InternalPutRequest \<Rightarrow> string \<Rightarrow> ('r, err + PutResponse) act" where
  "shard_Put L req s =
     bind_act (on_store s (KVStore_Set L (InternalPutRequest_Key req) (InternalPutRequest_Value req))) (\<lambda>res.
     case res of
       Some e \<Rightarrow> if is_raft_err NotLeader e then forward_to_leader L s (replica_Put L req) else ret (Inl e)
     | None \<Rightarrow> ret (Inr PutResponse))"

definition shard_Delete ::
  "('b, 'r, 'z) shard_lib_scheme \<Rightarrow> DeleteRequest \<Rightarrow> string \<Rightarrow> ('r, err + DeleteResponse) act" where
  "shard_Delete L req s =
     bind_act (on_store s (KVStore_Delete L (DeleteRequest_Key req))) (\<lambda>res.
     case res of
       Some e \<Rightarrow> if is_raft_err NotLeader e then forward_to_leader L s (replica_Delete L req) else ret (Inl e)
     | None \<Rightarrow> ret (Inr DeleteResponse))"

definition shard_PauseWrites ::
  "('b, 'r, 'z) shard_lib_scheme \<Rightarrow> PauseWritesRequest \<Rightarrow> string \<Rightarrow> ('r, err + PauseWritesResponse) act" where
  "shard_PauseWrites L req s = forward_to_leader L s (replica_PauseWrites L req)"

definition shard_RedistributeKeys ::
  "('b, 'r, 'z) shard_lib_scheme \<Rightarrow> RedistributeKeysRequest \<Rightarrow> string \<Rightarrow>
   ('r, err + RedistributeKeysResponse) act" where
  "shard_RedistributeKeys L req s = forward_to_leader L s (replica_RedistributeKeys L req)"

text \<open>\<open>ResumeWrites\<close> first asks every replica to reload, whatever the answers.\<close>

fun reload_all ::
  "('b, 'r, 'z) shard_lib_scheme \<Rightarrow> (string \<times> string) list \<Rightarrow> string list \<Rightarrow> ('r, unit) act" where
  "reload_all L clients [] = ret ()"
| "reload_all L clients (replica # replicas) =
     bind_act (client_call clients replica (replica_ReloadConfig L ReloadConfigRequest)) (\<lambda>_.
     reload_all L clients replicas)"

definition shard_ResumeWrites ::
  "('b, 'r, 'z) shard_lib_scheme \<Rightarrow> ResumeWritesRequest \<Rightarrow> string \<Rightarrow> ('r, err + ResumeWritesResponse) act" where
  "shard_ResumeWrites L req s =
     bind_act (self s) (\<lambda>p.
     bind_act (lift_outcome (KVStore_Leader L (kvStore p))) (\<lambda>leader.
     if leader = [] then ret (Inl no_leader)
     else
       bind_act (reload_all L (replicaClients p) (range_order L (map fst (replicaClients p)))) (\<lambda>_.
       client_call (replicaClients p) leader (replica_ResumeWrites L req))))"

section \<open>The key-value service\<close>

definition via_shard ::
  "('b, 'r, 'z) shard_lib_scheme \<Rightarrow> string \<Rightarrow> string \<Rightarrow> (string \<Rightarrow> ('r, err + 'a) act) \<Rightarrow> ('r, err + 'a) act" where
  "via_shard L key s handler =
     bind_act (self s) (\<lambda>p.
     bind_act (lift_outcome (locate L (ch p) key)) (\<lambda>member.
     client_call (shardClients p) member handler))"

definition kv_Get ::
  "('b, 'r, 'z) shard_lib_scheme \<Rightarrow> GetRequest \<Rightarrow> string \<Rightarrow> ('r, err + GetResponse) act" where
  "kv_Get L req s =
     via_shard L (GetRequest_Key req) s (shard_Get \<lparr>GetRequest_Key = GetRequest_Key req\<rparr>)"

definition kv_Put ::
  "('b, 'r, 'z) shard_lib_scheme \<Rightarrow> PutRequest \<Rightarrow> string \<Rightarrow> ('r, err + PutResponse) act" where
  "kv_Put L req s =
     via_shard L (PutRequest_Key req) s
       (shard_Put L \<lparr>InternalPutRequest_Key = PutRequest_Key req,
                     InternalPutRequest_Value = PutRequest_Value req,
                     InternalPutRequest_IsRedistribution = False\<rparr>)"

definition kv_Delete ::
  "('b, 'r, 'z) shard_lib_scheme \<Rightarrow> DeleteRequest \<Rightarrow> string \<Rightarrow> ('r, err + DeleteResponse) act" where
  "kv_Delete L req s =
     via_shard L (DeleteRequest_Key req) s (shard_Delete L \<lparr>DeleteRequest_Key = DeleteRequest_Key req\<rparr>)"

section \<open>Redistribution\<close>

text \<open>The body of the loop of \<open>RedistributeKeys\<close> for one key, in the three steps other calls can come
  between: reading the value, sending it, purging it here.\<close>

definition send_key ::
  "('b, 'r, 'z) shard_lib_scheme \<Rightarrow> string \<Rightarrow> string \<Rightarrow> string \<Rightarrow> string \<Rightarrow> ('r, err + PutResponse) act" where
  "send_key L s newLocation key v =
     bind_act (self s) (\<lambda>p.
     client_call (shardClients p) newLocation
       (shard_Put L \<lparr>InternalPutRequest_Key = key, InternalPutRequest_Value = v,
                     InternalPutRequest_IsRedistribution = True\<rparr>))"

definition purge_key :: "('b, 'r, 'z) shard_lib_scheme \<Rightarrow> string \<Rightarrow> string \<Rightarrow> ('r, unit) act" where
  "purge_key L s key = bind_act (on_store s (KVStore_Delete L key)) (\<lambda>_. ret ())"

definition redistribute_key ::
  "('b, 'r, 'z) shard_lib_scheme \<Rightarrow> string \<Rightarrow> string list \<Rightarrow> string \<Rightarrow> ('r, unit) act" where
  "redistribute_key L s newCh key =
     bind_act (self s) (\<lambda>p.
     bind_act (lift_outcome (locate L (ch p) key)) (\<lambda>oldLocation.
     bind_act (lift_outcome (locate L (Some newCh) key)) (\<lambda>newLocation.
     if oldLocation \<noteq> newLocation \<and> oldLocation = flag_shard (flags p) then
       (case KVStore_Get key (kvStore p) of
          Inl e \<Rightarrow> ret ()
        | Inr v \<Rightarrow>
            bind_act (send_key L s newLocation key v) (\<lambda>res.
            case res of Inl e \<Rightarrow> ret () | Inr _ \<Rightarrow> purge_key L s key))
     else ret ())))"

text \<open>The loop of the code ranges over the live map.  The keys it finds there are those the map had at the start:
  the body deletes only the key it is visiting, and what other calls add in between may or may not be visited.\<close>

fun redistribute_keys_loop ::
  "('b, 'r, 'z) shard_lib_scheme \<Rightarrow> string \<Rightarrow> string list \<Rightarrow> string list \<Rightarrow> ('r, unit) act" where
  "redistribute_keys_loop L s newCh [] = ret ()"
| "redistribute_keys_loop L s newCh (key # keys) =
     bind_act (redistribute_key L s newCh key) (\<lambda>_. redistribute_keys_loop L s newCh keys)"

definition set_redistributing :: "string \<Rightarrow> bool \<Rightarrow> ('r, unit) act" where
  "set_redistributing s b = bind_act (self s) (\<lambda>p. become s (p\<lparr>redistributingKeys := b\<rparr>))"

definition redistribute_under ::
  "('b, 'r, 'z) shard_lib_scheme \<Rightarrow> string \<Rightarrow> string list \<Rightarrow> KVStoreConfig \<Rightarrow> ('r, unit) act" where
  "redistribute_under L s keys kvConfig =
     (if config_NewShards kvConfig = [] then set_redistributing s False
      else
        bind_act (PopulateShardClients L s (config_NewShards kvConfig)) (\<lambda>_.
        bind_act (lift_outcome (new_ring L (config_NewShards kvConfig))) (\<lambda>newCh.
        bind_act (redistribute_keys_loop L s newCh keys) (\<lambda>_.
        set_redistributing s False))))"

definition RedistributeKeys :: "('b, 'r, 'z) shard_lib_scheme \<Rightarrow> string \<Rightarrow> ('r, unit) act" where
  "RedistributeKeys L s =
     bind_act (self s) (\<lambda>p.
     if redistributingKeys p then ret ()
     else
       bind_act (set_redistributing s True) (\<lambda>_.
       bind_act (lift_outcome (ReadConfig p)) (\<lambda>kvConfig.
       redistribute_under L s (range_order L (KVStore_Keys (kvStore p))) kvConfig)))"

text \<open>A goroutine that \<open>go RedistributeKeys()\<close> started gets to run.\<close>

definition run_spawned :: "('b, 'r, 'z) shard_lib_scheme \<Rightarrow> string \<Rightarrow> ('r, unit) act" where
  "run_spawned L s =
     bind_act (self s) (\<lambda>p.
     if spawned p = 0 then ret ()
     else bind_act (become s (p\<lparr>spawned := spawned p - 1\<rparr>)) (\<lambda>_. RedistributeKeys L s))"

section \<open>Joining the cluster\<close>

fun ask_replicas ::
  "('b, 'r, 'z) shard_lib_scheme \<Rightarrow> 'r process \<Rightarrow> string list \<Rightarrow> ('r, string option) act" where
  "ask_replicas L p [] = ret None"
| "ask_replicas L p (destinationReplica # replicas) =
     bind_act (client_call (replicaClients p)
        (replica_id destinationReplica (flag_shard (flags p)) (flag_raftPort (flags p)))
        (replica_Leader L LeaderRequest)) (\<lambda>res.
     case res of
       Inl e \<Rightarrow> ask_replicas L p replicas
     | Inr resp \<Rightarrow>
         if LeaderResponse_Leader resp \<noteq> [] then ret (Some (LeaderResponse_Leader resp))
         else ask_replicas L p replicas)"

text \<open>The loop asks all replicas again and again until one names a leader; \<open>None\<close> when it never
  ends.\<close>

partial_function (option) find_leader ::
  "('b, 'r, 'z) shard_lib_scheme \<Rightarrow> 'r process \<Rightarrow> string list \<Rightarrow> 'r world \<Rightarrow>
   (string outcome \<times> 'r world) option" where
  "find_leader L p replicas w =
     (case ask_replicas L p replicas w of
        (Return (Some leader), w') \<Rightarrow> Some (Return leader, w')
      | (Return None, w') \<Rightarrow> find_leader L p replicas w'
      | (Panic, w') \<Rightarrow> Some (Panic, w')
      | (Diverge, w') \<Rightarrow> Some (Diverge, w'))"

definition wait_second :: "('b, 'r, 'z) shard_lib_scheme \<Rightarrow> 'r kvproc \<Rightarrow> 'r kvproc outcome" where
  "wait_second L k =
     (case raft (kp_kv k) of
        None \<Rightarrow> Panic
      | Some r \<Rightarrow>
          (case raft_wait L r of (ds, r') \<Rightarrow>
             bind_outcome (fsm_run L ds (kp_fsm k, kp_heap k))
               (\<lambda>(f, h). Return (k\<lparr>kp_kv := (kp_kv k)\<lparr>raft := Some r'\<rparr>, kp_fsm := f, kp_heap := h\<rparr>))))"

partial_function (option) wait_for_logs ::
  "('b, 'r, 'z) shard_lib_scheme \<Rightarrow> 'r kvproc \<Rightarrow> 'r kvproc outcome option" where
  "wait_for_logs L k =
     (case HasLatestLogs L k of
        Return b \<Rightarrow>
          if b then Some (Return k)
          else (case wait_second L k of
                  Return k' \<Rightarrow> wait_for_logs L k'
                | Panic \<Rightarrow> Some Panic
                | Diverge \<Rightarrow> Some Diverge)
      | Panic \<Rightarrow> Some Panic
      | Diverge \<Rightarrow> Some Diverge)"

definition await_logs :: "('b, 'r, 'z) shard_lib_scheme \<Rightarrow> string \<Rightarrow> ('r, unit) act" where
  "await_logs L s =
     bind_act (self s) (\<lambda>p.
       case wait_for_logs L (kvStore p) of
         None \<Rightarrow> diverge
       | Some (Return k) \<Rightarrow> become s (p\<lparr>kvStore := k\<rparr>)
       | Some Panic \<Rightarrow> panic
       | Some Diverge \<Rightarrow> diverge)"

definition leader_to_join ::
  "('b, 'r, 'z) shard_lib_scheme \<Rightarrow> 'r process \<Rightarrow> string list \<Rightarrow> ('r, string) act" where
  "leader_to_join L p replicas =
     bind_act (lift_outcome (KVStore_Leader L (kvStore p))) (\<lambda>leader.
     if leader \<noteq> [] then ret leader
     else (\<lambda>w. case find_leader L p replicas w of None \<Rightarrow> (Diverge, w) | Some res \<Rightarrow> res))"

definition JoinCluster :: "('b, 'r, 'z) shard_lib_scheme \<Rightarrow> string \<Rightarrow> string list \<Rightarrow> ('r, unit) act" where
  "JoinCluster L s replicas =
     bind_act (self s) (\<lambda>p.
     bind_act (leader_to_join L p replicas) (\<lambda>leader.
     bind_act (await_logs L s) (\<lambda>_.
     bind_act (client_call (replicaClients p) leader
       (replica_Join L \<lparr>JoinRequest_Replica = flag_replica (flags p),
                        JoinRequest_Address = flag_address (flags p)\<rparr>)) (\<lambda>_.
     ret ()))))"

definition own_replicas :: "'r process \<Rightarrow> KVStoreConfig \<Rightarrow> string list" where
  "own_replicas p kvConfig =
     concat (map shard_Replicas
       (filter (\<lambda>c. shard_Name c = flag_shard (flags p))
          (config_Shards kvConfig @ config_NewShards kvConfig)))"

definition PopulateReplicaClients ::
  "('b, 'r, 'z) shard_lib_scheme \<Rightarrow> string \<Rightarrow> KVStoreConfig \<Rightarrow> ('r, unit) act" where
  "PopulateReplicaClients L s kvConfig =
     bind_act (self s) (\<lambda>p.
       let replicas = own_replicas p kvConfig in
       case populate_clients L
              (map (\<lambda>d. (replica_id d (flag_shard (flags p)) (flag_raftPort (flags p)),
                         replica_id d (flag_shard (flags p)) (flag_replicaPort (flags p)))) replicas)
              (replicaClients p) of
         (r, cs) \<Rightarrow>
           bind_act (become s (p\<lparr>replicaClients := cs\<rparr>)) (\<lambda>_.
           bind_act (lift_outcome r) (\<lambda>_.
           JoinCluster L s replicas)))"

section \<open>The life of a process\<close>

text \<open>What \<open>main\<close> does before it starts its goroutines.  \<open>boltExists\<close>: the folder holds a log, so
  this is a restart.\<close>

definition main_open ::
  "('b, 'r, 'z) shard_lib_scheme \<Rightarrow> flags \<Rightarrow> config_source \<Rightarrow> bool \<Rightarrow> 'r process outcome" where
  "main_open L fl cfg boltExists =
     (case cfg of
        Parsed kvConfig \<Rightarrow>
          bind_outcome (new_ring L (config_Shards kvConfig)) (\<lambda>members.
          case KVStore_Open L (flag_folder fl) (flag_address fl) (flag_raftPort fl) (flag_shard fl)
                 (flag_replica fl) (\<not> boltExists \<and> flag_shouldBootstrap fl) (NewKVStore empty_heap) of
            Inl e \<Rightarrow> Panic
          | Inr k \<Rightarrow>
              Return \<lparr>flags = fl, configFile = cfg, ch = Some members, shardClients = [],
                      replicaClients = [], kvStore = k, redistributingKeys = False, spawned = 0,
                      servers = []\<rparr>)
      | _ \<Rightarrow> Panic)"

text \<open>A goroutine: the one that starts it does not wait for it; a panic in it ends the process.\<close>

definition goroutine :: "('r, unit) act \<Rightarrow> ('r, unit) act" where
  "goroutine m w = (case m w of (Panic, w') \<Rightarrow> (Panic, w') | (_, w') \<Rightarrow> (Return (), w'))"

text \<open>Listening on a port and registering a service there; \<open>Serve\<close> then runs the handlers above.\<close>

definition start_server ::
  "('b, 'r, 'z) shard_lib_scheme \<Rightarrow> string \<Rightarrow> int \<Rightarrow> rpc_service \<Rightarrow> ('r, unit) act" where
  "start_server L s port svc =
     bind_act (self s) (\<lambda>p.
       let addr = host_port [] port in
       case net_Listen L addr of
         Some e \<Rightarrow> panic
       | None \<Rightarrow> become s (p\<lparr>servers := servers p @ [(addr, svc)]\<rparr>))"

definition StartShardRPCServer :: "('b, 'r, 'z) shard_lib_scheme \<Rightarrow> string \<Rightarrow> ('r, unit) act" where
  "StartShardRPCServer L s = bind_act (self s) (\<lambda>p. start_server L s (flag_shardPort (flags p)) ShardRPC)"

definition StartReplicaRPCServer :: "('b, 'r, 'z) shard_lib_scheme \<Rightarrow> string \<Rightarrow> ('r, unit) act" where
  "StartReplicaRPCServer L s = bind_act (self s) (\<lambda>p. start_server L s (flag_replicaPort (flags p)) ReplicaRPC)"

definition StartKVRPCServer :: "('b, 'r, 'z) shard_lib_scheme \<Rightarrow> string \<Rightarrow> ('r, unit) act" where
  "StartKVRPCServer L s = bind_act (self s) (\<lambda>p. start_server L s (flag_kvPort (flags p)) KV)"

definition main_start ::
  "('b, 'r, 'z) shard_lib_scheme \<Rightarrow> string \<Rightarrow> flags \<Rightarrow> config_source \<Rightarrow> bool \<Rightarrow> ('r, unit) act" where
  "main_start L s fl cfg boltExists =
     bind_act (lift_outcome (main_open L fl cfg boltExists)) (\<lambda>p.
     bind_act (become s p) (\<lambda>_.
     bind_act (lift_outcome (ReadConfig p)) (\<lambda>kvConfig.
     bind_act (goroutine
       (PopulateShardClients L s (config_Shards kvConfig @ config_NewShards kvConfig))) (\<lambda>_.
     bind_act (goroutine (PopulateReplicaClients L s kvConfig)) (\<lambda>_.
     bind_act (goroutine (StartShardRPCServer L s)) (\<lambda>_.
     bind_act (goroutine (StartReplicaRPCServer L s)) (\<lambda>_.
     goroutine (StartKVRPCServer L s))))))))"

definition main_stop :: "('b, 'r, 'z) shard_lib_scheme \<Rightarrow> string \<Rightarrow> ('r, unit) act" where
  "main_stop L s =
     bind_act (on_store s (KVStore_Close L)) (\<lambda>_.
     bind_act (self s) (\<lambda>p.
     bind_act (lift_outcome (KVStore_Leader L (kvStore p))) (\<lambda>leader.
     bind_act
       (if leader = [] then ret ()
        else
          bind_act (client_call (replicaClients p) leader
            (replica_DemoteVoter L \<lparr>DemoteVoterRequest_Replica = flag_replica (flags p),
                                    DemoteVoterRequest_Address = flag_address (flags p)\<rparr>)) (\<lambda>_. ret ()))
       (\<lambda>_ w. (Return (), crash s w)))))"

end
