(* ===== verification/Kvctl_Cluster.thy ===== *)
theory Kvctl_Cluster
  imports Kvctl_Api Shard_Server
begin

text \<open>
  The cluster as the operator sees it: the objects it reads and writes through the Kubernetes API,
  and the shard processes it calls.  The API client and the helpers of the Kubernetes libraries are
  parameters; \<open>kube_ok\<close> states the documented effect of the verbs on the stored objects, where any
  call may fail instead, as \<open>api_fault\<close> decides by the number of the call.  The indexers are those
  that \<open>SetupWithManager\<close> registers (\<open>kvctl/internal/controller/kvstore_controller.go\<close>).
\<close>

section \<open>Objects\<close>

record PersistentVolumeClaim =
  pvc_Name :: string
  pvc_AccessModes :: "string list"
  pvc_Storage :: string

record StatefulSet =
  ss_Meta :: ObjectMeta
  ss_Replicas :: "32 word"
  ss_ServiceName :: string
  ss_Selector :: string_map
  ss_MinReadySeconds :: int
  ss_TemplateLabels :: string_map
  ss_TemplateAnnotations :: "string_map option"
  ss_TemplateSpec :: string
  ss_VolumeClaimTemplates :: "PersistentVolumeClaim list"
  ss_RetentionWhenScaled :: string
  ss_RetentionWhenDeleted :: string
  ss_ReadyReplicas :: "32 word"

record ServicePort =
  port_Name :: string
  port_Protocol :: string
  port_Port :: int
  port_TargetPort :: int

record Service =
  svc_Meta :: ObjectMeta
  svc_Selector :: string_map
  svc_ClusterIP :: string
  svc_PublishNotReadyAddresses :: bool
  svc_Ports :: "ServicePort list"

record Ingress =
  ing_Meta :: ObjectMeta
  ing_ClassName :: string
  ing_Host :: string
  ing_Path :: string
  ing_PathType :: string
  ing_BackendName :: string
  ing_BackendPort :: int

record ConfigMap =
  cm_Meta :: ObjectMeta
  cm_Data :: string_map

section \<open>The system\<close>

text \<open>One \<open>KVStore\<close> is reconciled; \<open>api_store\<close> is its stored object.  \<open>now\<close> is the wall clock.\<close>

record 'r system =
  api_store :: "KVStoreResource option"
  api_sets :: "StatefulSet list"
  api_services :: "Service list"
  api_ingresses :: "Ingress list"
  api_configs :: "ConfigMap list"
  api_fault :: "nat \<Rightarrow> err option"
  api_clock :: nat
  now :: nat
  shard_world :: "'r world"

type_synonym ('r, 'a) ctl = "('r system, err + 'a) prog"

text \<open>The libraries of the operator: \<open>yaml.Marshal\<close> of a configuration, \<open>GroupVersion.String\<close>,
  \<open>errors.IsNotFound\<close>, \<open>SetControllerReference\<close>, and the verbs of the API client for each kind.  A
  list takes the index function it matches.\<close>

type_synonym ('r, 'a) verb = "'r system \<Rightarrow> (err + 'a) \<times> 'r system"

record ('b, 'r) kvctl_lib = "('b, 'r) shard_lib" +
  yaml_Marshal :: "KVStoreConfig \<Rightarrow> err + string"
  GroupVersion_String :: "GroupVersion \<Rightarrow> string"
  IsNotFound :: "err \<Rightarrow> bool"
  SetControllerReference :: "KVStoreResource \<Rightarrow> ObjectMeta \<Rightarrow> err + ObjectMeta"
  Get_KVStore :: "('r, KVStoreResource) verb"
  Status_Update :: "KVStoreResource \<Rightarrow> ('r, unit) verb"
  List_StatefulSet :: "(StatefulSet \<Rightarrow> string list) \<Rightarrow> string \<Rightarrow> string \<Rightarrow> ('r, StatefulSet list) verb"
  Create_StatefulSet :: "StatefulSet \<Rightarrow> ('r, unit) verb"
  Update_StatefulSet :: "StatefulSet \<Rightarrow> ('r, unit) verb"
  Delete_StatefulSet :: "StatefulSet \<Rightarrow> ('r, unit) verb"
  List_Service :: "(Service \<Rightarrow> string list) \<Rightarrow> string \<Rightarrow> string \<Rightarrow> ('r, Service list) verb"
  Create_Service :: "Service \<Rightarrow> ('r, unit) verb"
  Delete_Service :: "Service \<Rightarrow> ('r, unit) verb"
  List_Ingress :: "(Ingress \<Rightarrow> string list) \<Rightarrow> string \<Rightarrow> string \<Rightarrow> ('r, Ingress list) verb"
  Create_Ingress :: "Ingress \<Rightarrow> ('r, unit) verb"
  Delete_Ingress :: "Ingress \<Rightarrow> ('r, unit) verb"
  Get_ConfigMap :: "string \<Rightarrow> string \<Rightarrow> ('r, ConfigMap) verb"
  Create_ConfigMap :: "ConfigMap \<Rightarrow> ('r, unit) verb"
  Update_ConfigMap :: "ConfigMap \<Rightarrow> ('r, unit) verb"

definition call :: "('r, 'a) verb \<Rightarrow> ('r, 'a) ctl" where
  "call v c = (case v c of (res, c') \<Rightarrow> (Return res, c'))"

text \<open>Sequencing that stops at the first error, as \<open>if err := ...; err != nil { return err }\<close> does.\<close>

definition bind_ok :: "('r, 'a) ctl \<Rightarrow> ('a \<Rightarrow> ('r, 'b) ctl) \<Rightarrow> ('r, 'b) ctl" where
  "bind_ok m f = bind_act m (\<lambda>res. case res of Inl e \<Rightarrow> ret (Inl e) | Inr x \<Rightarrow> f x)"

section \<open>Ownership\<close>

definition apiGVStr :: "('b, 'r, 'z) kvctl_lib_scheme \<Rightarrow> string" where
  "apiGVStr K = GroupVersion_String K kvctl_GroupVersion"

text \<open>The index value of an object: the name of the \<open>KVStore\<close> that controls it.  The three indexers
  of \<open>SetupWithManager\<close> are this function on the metadata of the three kinds.\<close>

definition owner_index :: "('b, 'r, 'z) kvctl_lib_scheme \<Rightarrow> ObjectMeta \<Rightarrow> string list" where
  "owner_index K m =
     (case meta_Controller m of
        None \<Rightarrow> []
      | Some owner \<Rightarrow>
          if owner_APIVersion owner \<noteq> apiGVStr K \<or> owner_Kind owner \<noteq> ''KVStore'' then [] else [owner_Name owner])"

definition index_StatefulSet :: "('b, 'r, 'z) kvctl_lib_scheme \<Rightarrow> StatefulSet \<Rightarrow> string list" where
  "index_StatefulSet K x = owner_index K (ss_Meta x)"
definition index_Ingress :: "('b, 'r, 'z) kvctl_lib_scheme \<Rightarrow> Ingress \<Rightarrow> string list" where
  "index_Ingress K x = owner_index K (ing_Meta x)"
definition index_Service :: "('b, 'r, 'z) kvctl_lib_scheme \<Rightarrow> Service \<Rightarrow> string list" where
  "index_Service K x = owner_index K (svc_Meta x)"

text \<open>\<open>maps.Copy(dst, src)\<close>.\<close>

definition copy_map :: "string_map \<Rightarrow> string_map \<Rightarrow> string_map" where
  "copy_map dst src = foldl (\<lambda>m (k, v). AList.update k v m) dst src"

section \<open>The documented effect of the verbs\<close>

definition NotFoundErr :: "string \<Rightarrow> err" where "NotFoundErr name = StatusErr ''NotFound'' name"
definition AlreadyExistsErr :: "string \<Rightarrow> err" where "AlreadyExistsErr name = StatusErr ''AlreadyExists'' name"

text \<open>A call that may fail; a call that does not fail has the effect \<open>f\<close>.\<close>

definition effect :: "('r system \<Rightarrow> (err + 'a) \<times> 'r system) \<Rightarrow> ('r, 'a) verb" where
  "effect f c =
     (let c' = c\<lparr>api_clock := Suc (api_clock c)\<rparr> in
      case api_fault c (api_clock c) of Some e \<Rightarrow> (Inl e, c') | None \<Rightarrow> f c')"

definition same_object :: "ObjectMeta \<Rightarrow> ObjectMeta \<Rightarrow> bool" where
  "same_object m m' \<longleftrightarrow> meta_Name m = meta_Name m' \<and> meta_Namespace m = meta_Namespace m'"

text \<open>Create, update and delete on the stored objects of one kind, whose metadata is \<open>meta\<close>.\<close>

definition create_in :: "('o \<Rightarrow> ObjectMeta) \<Rightarrow> 'o \<Rightarrow> 'o list \<Rightarrow> err + 'o list" where
  "create_in meta obj objs =
     (if \<exists>x \<in> set objs. same_object (meta x) (meta obj) then Inl (AlreadyExistsErr (meta_Name (meta obj)))
      else Inr (objs @ [obj]))"

definition update_in :: "('o \<Rightarrow> ObjectMeta) \<Rightarrow> 'o \<Rightarrow> 'o list \<Rightarrow> err + 'o list" where
  "update_in meta obj objs =
     (if \<exists>x \<in> set objs. same_object (meta x) (meta obj)
      then Inr (map (\<lambda>x. if same_object (meta x) (meta obj) then obj else x) objs)
      else Inl (NotFoundErr (meta_Name (meta obj))))"

definition delete_in :: "('o \<Rightarrow> ObjectMeta) \<Rightarrow> 'o \<Rightarrow> 'o list \<Rightarrow> err + 'o list" where
  "delete_in meta obj objs =
     (if \<exists>x \<in> set objs. same_object (meta x) (meta obj)
      then Inr (filter (\<lambda>x. \<not> same_object (meta x) (meta obj)) objs)
      else Inl (NotFoundErr (meta_Name (meta obj))))"

definition store_result :: "('o \<Rightarrow> 'r system \<Rightarrow> 'r system) \<Rightarrow> 'r system \<Rightarrow> err + 'o \<Rightarrow> (err + unit) \<times> 'r system" where
  "store_result put c r = (case r of Inl e \<Rightarrow> (Inl e, c) | Inr objs \<Rightarrow> (Inr (), put objs c))"

definition put_sets :: "StatefulSet list \<Rightarrow> 'r system \<Rightarrow> 'r system" where
  "put_sets xs c = c\<lparr>api_sets := xs\<rparr>"
definition put_services :: "Service list \<Rightarrow> 'r system \<Rightarrow> 'r system" where
  "put_services xs c = c\<lparr>api_services := xs\<rparr>"
definition put_ingresses :: "Ingress list \<Rightarrow> 'r system \<Rightarrow> 'r system" where
  "put_ingresses xs c = c\<lparr>api_ingresses := xs\<rparr>"
definition put_configs :: "ConfigMap list \<Rightarrow> 'r system \<Rightarrow> 'r system" where
  "put_configs xs c = c\<lparr>api_configs := xs\<rparr>"

definition list_owned :: "('o \<Rightarrow> ObjectMeta) \<Rightarrow> ('o \<Rightarrow> string list) \<Rightarrow> string \<Rightarrow> string \<Rightarrow> 'o list \<Rightarrow> 'o list" where
  "list_owned meta index ns name objs = filter (\<lambda>x. meta_Namespace (meta x) = ns \<and> name \<in> set (index x)) objs"

definition controlled_by :: "('b, 'r, 'z) kvctl_lib_scheme \<Rightarrow> KVStoreResource \<Rightarrow> ObjectMeta \<Rightarrow> ObjectMeta" where
  "controlled_by K kv m =
     m\<lparr>meta_Controller := Some \<lparr>owner_APIVersion = apiGVStr K, owner_Kind = ''KVStore'', owner_Name = meta_Name (store_Meta kv)\<rparr>\<rparr>"

definition verb_Get_KVStore :: "('r, KVStoreResource) verb" where
  "verb_Get_KVStore = effect (\<lambda>c. case api_store c of None \<Rightarrow> (Inl (NotFoundErr ''''), c) | Some k \<Rightarrow> (Inr k, c))"
definition verb_Status_Update :: "KVStoreResource \<Rightarrow> ('r, unit) verb" where
  "verb_Status_Update kv = effect (\<lambda>c. case api_store c of
        None \<Rightarrow> (Inl (NotFoundErr (meta_Name (store_Meta kv))), c)
      | Some k \<Rightarrow> (Inr (), c\<lparr>api_store := Some (k\<lparr>store_Status := store_Status kv\<rparr>)\<rparr>))"
definition verb_Get_ConfigMap :: "string \<Rightarrow> string \<Rightarrow> ('r, ConfigMap) verb" where
  "verb_Get_ConfigMap ns name = effect (\<lambda>c.
        case find (\<lambda>x. meta_Name (cm_Meta x) = name \<and> meta_Namespace (cm_Meta x) = ns) (api_configs c) of
          None \<Rightarrow> (Inl (NotFoundErr name), c) | Some x \<Rightarrow> (Inr x, c))"

text \<open>List, create, update and delete for a kind of objects with metadata \<open>meta\<close>, read by \<open>objs\<close> and
  replaced by \<open>put\<close>.\<close>

definition verb_List :: "('o \<Rightarrow> ObjectMeta) \<Rightarrow> ('r system \<Rightarrow> 'o list) \<Rightarrow> ('o \<Rightarrow> string list) \<Rightarrow> string \<Rightarrow> string \<Rightarrow> ('r, 'o list) verb" where
  "verb_List meta objs index ns name = effect (\<lambda>c. (Inr (list_owned meta index ns name (objs c)), c))"
definition verb_Create :: "('o \<Rightarrow> ObjectMeta) \<Rightarrow> ('r system \<Rightarrow> 'o list) \<Rightarrow> ('o list \<Rightarrow> 'r system \<Rightarrow> 'r system) \<Rightarrow> 'o \<Rightarrow> ('r, unit) verb" where
  "verb_Create meta objs put x = effect (\<lambda>c. store_result put c (create_in meta x (objs c)))"
definition verb_Update :: "('o \<Rightarrow> ObjectMeta) \<Rightarrow> ('r system \<Rightarrow> 'o list) \<Rightarrow> ('o list \<Rightarrow> 'r system \<Rightarrow> 'r system) \<Rightarrow> 'o \<Rightarrow> ('r, unit) verb" where
  "verb_Update meta objs put x = effect (\<lambda>c. store_result put c (update_in meta x (objs c)))"
definition verb_Delete :: "('o \<Rightarrow> ObjectMeta) \<Rightarrow> ('r system \<Rightarrow> 'o list) \<Rightarrow> ('o list \<Rightarrow> 'r system \<Rightarrow> 'r system) \<Rightarrow> 'o \<Rightarrow> ('r, unit) verb" where
  "verb_Delete meta objs put x = effect (\<lambda>c. store_result put c (delete_in meta x (objs c)))"

text \<open>Documented: Get and List read the stored objects; Create fails on a name that is taken, Update
  and Delete on one that is not; \<open>Status().Update\<close> writes the status of the stored object and leaves the
  rest; \<open>IsNotFound\<close> recognises the error of a missing object.\<close>

definition kube_ok :: "('b, 'r, 'z) kvctl_lib_scheme \<Rightarrow> bool" where
  "kube_ok K \<longleftrightarrow>
     Get_KVStore K = verb_Get_KVStore \<and> Status_Update K = verb_Status_Update \<and>
     List_StatefulSet K = verb_List ss_Meta api_sets \<and>
     Create_StatefulSet K = verb_Create ss_Meta api_sets put_sets \<and>
     Update_StatefulSet K = verb_Update ss_Meta api_sets put_sets \<and>
     Delete_StatefulSet K = verb_Delete ss_Meta api_sets put_sets \<and>
     List_Service K = verb_List svc_Meta api_services \<and>
     Create_Service K = verb_Create svc_Meta api_services put_services \<and>
     Delete_Service K = verb_Delete svc_Meta api_services put_services \<and>
     List_Ingress K = verb_List ing_Meta api_ingresses \<and>
     Create_Ingress K = verb_Create ing_Meta api_ingresses put_ingresses \<and>
     Delete_Ingress K = verb_Delete ing_Meta api_ingresses put_ingresses \<and>
     Get_ConfigMap K = verb_Get_ConfigMap \<and>
     Create_ConfigMap K = verb_Create cm_Meta api_configs put_configs \<and>
     Update_ConfigMap K = verb_Update cm_Meta api_configs put_configs \<and>
     (\<forall>name. IsNotFound K (NotFoundErr name))"

text \<open>\<open>SetControllerReference\<close> on an object without a controller, when the scheme knows both types.\<close>

definition reference_ok :: "('b, 'r, 'z) kvctl_lib_scheme \<Rightarrow> bool" where
  "reference_ok K \<longleftrightarrow> (\<forall>kv m. meta_Controller m = None \<longrightarrow> SetControllerReference K kv m = Inr (controlled_by K kv m))"

section \<open>The calls of the reconciler\<close>

definition create_set :: "('b, 'r, 'z) kvctl_lib_scheme \<Rightarrow> StatefulSet \<Rightarrow> ('r, unit) ctl" where
  "create_set K x = call (Create_StatefulSet K x)"
definition update_set :: "('b, 'r, 'z) kvctl_lib_scheme \<Rightarrow> StatefulSet \<Rightarrow> ('r, unit) ctl" where
  "update_set K x = call (Update_StatefulSet K x)"
definition delete_set :: "('b, 'r, 'z) kvctl_lib_scheme \<Rightarrow> StatefulSet \<Rightarrow> ('r, unit) ctl" where
  "delete_set K x = call (Delete_StatefulSet K x)"
definition create_service :: "('b, 'r, 'z) kvctl_lib_scheme \<Rightarrow> Service \<Rightarrow> ('r, unit) ctl" where
  "create_service K x = call (Create_Service K x)"
definition delete_service :: "('b, 'r, 'z) kvctl_lib_scheme \<Rightarrow> Service \<Rightarrow> ('r, unit) ctl" where
  "delete_service K x = call (Delete_Service K x)"
definition create_ingress :: "('b, 'r, 'z) kvctl_lib_scheme \<Rightarrow> Ingress \<Rightarrow> ('r, unit) ctl" where
  "create_ingress K x = call (Create_Ingress K x)"
definition delete_ingress :: "('b, 'r, 'z) kvctl_lib_scheme \<Rightarrow> Ingress \<Rightarrow> ('r, unit) ctl" where
  "delete_ingress K x = call (Delete_Ingress K x)"
definition create_config :: "('b, 'r, 'z) kvctl_lib_scheme \<Rightarrow> ConfigMap \<Rightarrow> ('r, unit) ctl" where
  "create_config K x = call (Create_ConfigMap K x)"
definition update_config :: "('b, 'r, 'z) kvctl_lib_scheme \<Rightarrow> ConfigMap \<Rightarrow> ('r, unit) ctl" where
  "update_config K x = call (Update_ConfigMap K x)"
definition get_config :: "('b, 'r, 'z) kvctl_lib_scheme \<Rightarrow> string \<Rightarrow> string \<Rightarrow> ('r, ConfigMap) ctl" where
  "get_config K ns name = call (Get_ConfigMap K ns name)"
definition get_store :: "('b, 'r, 'z) kvctl_lib_scheme \<Rightarrow> ('r, KVStoreResource) ctl" where
  "get_store K = call (Get_KVStore K)"
definition status_update :: "('b, 'r, 'z) kvctl_lib_scheme \<Rightarrow> KVStoreResource \<Rightarrow> ('r, unit) ctl" where
  "status_update K kv = call (Status_Update K kv)"
definition list_sets :: "('b, 'r, 'z) kvctl_lib_scheme \<Rightarrow> string \<Rightarrow> string \<Rightarrow> ('r, StatefulSet list) ctl" where
  "list_sets K ns name = call (List_StatefulSet K (index_StatefulSet K) ns name)"
definition list_services :: "('b, 'r, 'z) kvctl_lib_scheme \<Rightarrow> string \<Rightarrow> string \<Rightarrow> ('r, Service list) ctl" where
  "list_services K ns name = call (List_Service K (index_Service K) ns name)"
definition list_ingresses :: "('b, 'r, 'z) kvctl_lib_scheme \<Rightarrow> string \<Rightarrow> string \<Rightarrow> ('r, Ingress list) ctl" where
  "list_ingresses K ns name = call (List_Ingress K (index_Ingress K) ns name)"

text \<open>What they are when the client behaves as documented.\<close>

definition api_call :: "('r system \<Rightarrow> (err + 'a) \<times> 'r system) \<Rightarrow> ('r, 'a) ctl" where
  "api_call f = call (effect f)"

lemma api_call_alt:
  "api_call f c =
     (let c' = c\<lparr>api_clock := Suc (api_clock c)\<rparr> in
      case api_fault c (api_clock c) of
        Some e \<Rightarrow> (Return (Inl e), c')
      | None \<Rightarrow> (case f c' of (res, c'') \<Rightarrow> (Return res, c'')))"
  by (simp add: api_call_def call_def effect_def Let_def split: option.splits prod.splits)

lemma kube_calls:
  assumes "kube_ok K"
  shows "create_set K x1 = api_call (\<lambda>c. store_result put_sets c (create_in ss_Meta x1 (api_sets c)))"
    and "update_set K x1 = api_call (\<lambda>c. store_result put_sets c (update_in ss_Meta x1 (api_sets c)))"
    and "delete_set K x1 = api_call (\<lambda>c. store_result put_sets c (delete_in ss_Meta x1 (api_sets c)))"
    and "create_service K x2 = api_call (\<lambda>c. store_result put_services c (create_in svc_Meta x2 (api_services c)))"
    and "delete_service K x2 = api_call (\<lambda>c. store_result put_services c (delete_in svc_Meta x2 (api_services c)))"
    and "create_ingress K x3 = api_call (\<lambda>c. store_result put_ingresses c (create_in ing_Meta x3 (api_ingresses c)))"
    and "delete_ingress K x3 = api_call (\<lambda>c. store_result put_ingresses c (delete_in ing_Meta x3 (api_ingresses c)))"
    and "create_config K x4 = api_call (\<lambda>c. store_result put_configs c (create_in cm_Meta x4 (api_configs c)))"
    and "update_config K x4 = api_call (\<lambda>c. store_result put_configs c (update_in cm_Meta x4 (api_configs c)))"
    and "get_config K ns name = api_call (\<lambda>c.
        case find (\<lambda>x. meta_Name (cm_Meta x) = name \<and> meta_Namespace (cm_Meta x) = ns) (api_configs c) of
          None \<Rightarrow> (Inl (NotFoundErr name), c) | Some x \<Rightarrow> (Inr x, c))"
    and "get_store K = api_call (\<lambda>c. case api_store c of None \<Rightarrow> (Inl (NotFoundErr ''''), c) | Some k \<Rightarrow> (Inr k, c))"
    and "status_update K kv = api_call (\<lambda>c. case api_store c of
        None \<Rightarrow> (Inl (NotFoundErr (meta_Name (store_Meta kv))), c)
      | Some k \<Rightarrow> (Inr (), c\<lparr>api_store := Some (k\<lparr>store_Status := store_Status kv\<rparr>)\<rparr>))"
    and "list_sets K ns name = api_call (\<lambda>c. (Inr (list_owned ss_Meta (index_StatefulSet K) ns name (api_sets c)), c))"
    and "list_services K ns name = api_call (\<lambda>c. (Inr (list_owned svc_Meta (index_Service K) ns name (api_services c)), c))"
    and "list_ingresses K ns name = api_call (\<lambda>c. (Inr (list_owned ing_Meta (index_Ingress K) ns name (api_ingresses c)), c))"
  using assms
  by (simp_all add: kube_ok_def api_call_def create_set_def update_set_def delete_set_def create_service_def delete_service_def
      create_ingress_def delete_ingress_def create_config_def update_config_def get_config_def get_store_def status_update_def
      list_sets_def list_services_def list_ingresses_def verb_Get_KVStore_def verb_Status_Update_def verb_Get_ConfigMap_def
      verb_List_def verb_Create_def verb_Update_def verb_Delete_def)

lemma kube_not_found: "kube_ok K \<Longrightarrow> IsNotFound K (NotFoundErr name)"
  by (simp add: kube_ok_def)

end
