(* ===== verification/Kvctl_Controller.thy ===== *)
theory Kvctl_Controller
  imports Kvctl_Cluster
begin

text \<open>
  The reconciler (\<open>kvctl/internal/controller/kvstore_controller.go\<close>): the objects it builds for a
  shard, the configuration it writes, \<open>Reconcile\<close>, and the step of every phase.  Each function is an
  action on the system; the handlers it calls on shard processes are those of \<open>Shard_Server\<close>.
\<close>

section \<open>Names and objects\<close>

definition shard_name :: "string \<Rightarrow> int \<Rightarrow> string" where
  "shard_name name i = name @ ''-shard-'' @ itoa i"

definition replica_name :: "string \<Rightarrow> int \<Rightarrow> string" where
  "replica_name shard r = shard @ ''-replica-'' @ itoa r"

abbreviation kv_name :: "KVStoreResource \<Rightarrow> string" where "kv_name kv \<equiv> meta_Name (store_Meta kv)"
abbreviation kv_ns :: "KVStoreResource \<Rightarrow> string" where "kv_ns kv \<equiv> meta_Namespace (store_Meta kv)"
abbreviation kv_phase :: "KVStoreResource \<Rightarrow> RedistributionPhase" where "kv_phase kv \<equiv> status_Phase (store_Status kv)"
abbreviation kv_current :: "KVStoreResource \<Rightarrow> int" where "kv_current kv \<equiv> status_CurrentShards (store_Status kv)"
abbreviation kv_target :: "KVStoreResource \<Rightarrow> int" where "kv_target kv \<equiv> status_TargetShards (store_Status kv)"

definition config_shard :: "KVStoreResource \<Rightarrow> int \<Rightarrow> KVStoreShard" where
  "config_shard kv s =
     \<lparr>shard_Name = shard_name (kv_name kv) s,
      shard_Replicas = map (replica_name (shard_name (kv_name kv) s)) [0..sint (spec_Replicas (store_Spec kv)) - 1]\<rparr>"

definition build_config :: "KVStoreResource \<Rightarrow> KVStoreConfig" where
  "build_config kv =
     (let shards = map (config_shard kv) [0..kv_current kv - 1];
          target = map (config_shard kv) [0..kv_target kv - 1] in
      if kv_current kv \<noteq> kv_target kv \<or> kv_current kv = 0 then
        if kv_current kv = 0 then \<lparr>config_Shards = shards @ target, config_NewShards = []\<rparr>
        else \<lparr>config_Shards = shards, config_NewShards = target\<rparr>
      else \<lparr>config_Shards = shards, config_NewShards = []\<rparr>)"

definition shard_labels :: "KVStoreResource \<Rightarrow> int \<Rightarrow> string_map" where
  "shard_labels kv i = [(''app'', kv_name kv), (''group'', shard_name (kv_name kv) i)]"

definition shard_set :: "KVStoreResource \<Rightarrow> int \<Rightarrow> StatefulSet" where
  "shard_set kv i =
     \<lparr>ss_Meta = \<lparr>meta_Name = shard_name (kv_name kv) i @ ''-replica'', meta_Namespace = kv_ns kv,
        meta_Labels = copy_map (shard_labels kv i) (meta_Labels (store_Meta kv)), meta_Annotations = [],
        meta_Controller = None\<rparr>,
      ss_Replicas = spec_Replicas (store_Spec kv),
      ss_ServiceName = shard_name (kv_name kv) i,
      ss_Selector = shard_labels kv i,
      ss_MinReadySeconds = 10,
      ss_TemplateLabels = shard_labels kv i,
      ss_TemplateAnnotations = Some [(''replicas'', itoa (sint (spec_Replicas (store_Spec kv))))],
      ss_TemplateSpec = spec_PodSpec (store_Spec kv),
      ss_VolumeClaimTemplates = [\<lparr>pvc_Name = ''data-shard'', pvc_AccessModes = [''ReadWriteOnce''], pvc_Storage = ''10Mi''\<rparr>],
      ss_RetentionWhenScaled = ''Delete'', ss_RetentionWhenDeleted = ''Delete'',
      ss_ReadyReplicas = 0\<rparr>"

definition shard_ingress :: "KVStoreResource \<Rightarrow> int \<Rightarrow> Ingress" where
  "shard_ingress kv i =
     \<lparr>ing_Meta = \<lparr>meta_Name = shard_name (kv_name kv) i @ ''-ingress'', meta_Namespace = kv_ns kv,
        meta_Labels = copy_map (shard_labels kv i) (meta_Labels (store_Meta kv)),
        meta_Annotations = [(''nginx.ingress.kubernetes.io/ssl-redirect'', ''false''),
          (''nginx.ingress.kubernetes.io/backend-protocol'', ''GRPC''),
          (''nginx.ingress.kubernetes.io/upstream-vhost'', shard_name (kv_name kv) i)],
        meta_Controller = None\<rparr>,
      ing_ClassName = ''nginx'',
      ing_Host = shard_name (kv_name kv) i @ ''.'' @ spec_IngressDomain (store_Spec kv),
      ing_Path = ''/'', ing_PathType = ''Prefix'',
      ing_BackendName = shard_name (kv_name kv) i, ing_BackendPort = 8080\<rparr>"

definition tcp_port :: "string \<Rightarrow> int \<Rightarrow> ServicePort" where
  "tcp_port name p = \<lparr>port_Name = name, port_Protocol = ''TCP'', port_Port = p, port_TargetPort = p\<rparr>"

definition shard_service :: "KVStoreResource \<Rightarrow> int \<Rightarrow> Service" where
  "shard_service kv i =
     \<lparr>svc_Meta = \<lparr>meta_Name = shard_name (kv_name kv) i, meta_Namespace = kv_ns kv,
        meta_Labels = copy_map (shard_labels kv i) (meta_Labels (store_Meta kv)), meta_Annotations = [],
        meta_Controller = None\<rparr>,
      svc_Selector = shard_labels kv i,
      svc_ClusterIP = ''None'', svc_PublishNotReadyAddresses = True,
      svc_Ports = [tcp_port ''kvrpc'' 8080, tcp_port ''shardrpc'' 8081, tcp_port ''raftrpc'' 8082,
        tcp_port ''leaderrpc'' 8083]\<rparr>"

section \<open>Lists of owned objects\<close>

definition or_empty :: "err + 'a list \<Rightarrow> 'a list" where
  "or_empty res = (case res of Inl e \<Rightarrow> [] | Inr xs \<Rightarrow> xs)"

definition GetShards :: "('b, 'r, 'z) kvctl_lib_scheme \<Rightarrow> KVStoreResource \<Rightarrow> ('r system, StatefulSet list) prog" where
  "GetShards K kv = bind_act (list_sets K (kv_ns kv) (kv_name kv)) (\<lambda>res. ret (or_empty res))"

definition GetServices :: "('b, 'r, 'z) kvctl_lib_scheme \<Rightarrow> KVStoreResource \<Rightarrow> ('r system, Service list) prog" where
  "GetServices K kv = bind_act (list_services K (kv_ns kv) (kv_name kv)) (\<lambda>res. ret (or_empty res))"

definition GetIngresses :: "('b, 'r, 'z) kvctl_lib_scheme \<Rightarrow> KVStoreResource \<Rightarrow> ('r system, Ingress list) prog" where
  "GetIngresses K kv = bind_act (list_ingresses K (kv_ns kv) (kv_name kv)) (\<lambda>res. ret (or_empty res))"

section \<open>Writing the configuration and creating shards\<close>

definition config_name :: "KVStoreResource \<Rightarrow> string" where
  "config_name kv = kv_name kv @ ''-config''"

definition UpdateConfigMap :: "('b, 'r, 'z) kvctl_lib_scheme \<Rightarrow> KVStoreResource \<Rightarrow> ('r, unit) ctl" where
  "UpdateConfigMap K kv =
     (case yaml_Marshal K (build_config kv) of
        Inl e \<Rightarrow> ret (Inl e)
      | Inr configYaml \<Rightarrow>
          bind_act (get_config K (kv_ns kv) (config_name kv)) (\<lambda>res.
          case res of
            Inl e \<Rightarrow>
              if IsNotFound K e then
                (case SetControllerReference K kv
                        \<lparr>meta_Name = config_name kv, meta_Namespace = kv_ns kv, meta_Labels = [(''app'', kv_name kv)],
                         meta_Annotations = [], meta_Controller = None\<rparr> of
                   Inl e' \<Rightarrow> ret (Inl e')
                 | Inr m \<Rightarrow> create_config K \<lparr>cm_Meta = m, cm_Data = [(''config.yaml'', configYaml)]\<rparr>)
              else ret (Inl e)
          | Inr existing \<Rightarrow> update_config K (existing\<lparr>cm_Data := [(''config.yaml'', configYaml)]\<rparr>)))"

fun for_each :: "('i \<Rightarrow> ('r, unit) ctl) \<Rightarrow> 'i list \<Rightarrow> ('r, unit) ctl" where
  "for_each body [] = ret (Inr ())"
| "for_each body (i # is) = bind_ok (body i) (\<lambda>_. for_each body is)"

definition new_shards :: "KVStoreResource \<Rightarrow> int list" where
  "new_shards kv = [kv_current kv..kv_target kv - 1]"

definition spin_up_set :: "('b, 'r, 'z) kvctl_lib_scheme \<Rightarrow> KVStoreResource \<Rightarrow> int \<Rightarrow> ('r, unit) ctl" where
  "spin_up_set K kv i =
     (case SetControllerReference K kv (ss_Meta (shard_set kv i)) of
        Inl e \<Rightarrow> ret (Inl e)
      | Inr m \<Rightarrow> create_set K ((shard_set kv i)\<lparr>ss_Meta := m\<rparr>))"

definition SpinUpShards :: "('b, 'r, 'z) kvctl_lib_scheme \<Rightarrow> KVStoreResource \<Rightarrow> ('r, unit) ctl" where
  "SpinUpShards K kv = for_each (spin_up_set K kv) (new_shards kv)"

definition spin_up_ingress :: "('b, 'r, 'z) kvctl_lib_scheme \<Rightarrow> KVStoreResource \<Rightarrow> int \<Rightarrow> ('r, unit) ctl" where
  "spin_up_ingress K kv i =
     (case SetControllerReference K kv (ing_Meta (shard_ingress kv i)) of
        Inl e \<Rightarrow> ret (Inl e)
      | Inr m \<Rightarrow> create_ingress K ((shard_ingress kv i)\<lparr>ing_Meta := m\<rparr>))"

definition SpinUpShardIngresses :: "('b, 'r, 'z) kvctl_lib_scheme \<Rightarrow> KVStoreResource \<Rightarrow> ('r, unit) ctl" where
  "SpinUpShardIngresses K kv = for_each (spin_up_ingress K kv) (new_shards kv)"

definition spin_up_service :: "('b, 'r, 'z) kvctl_lib_scheme \<Rightarrow> KVStoreResource \<Rightarrow> int \<Rightarrow> ('r, unit) ctl" where
  "spin_up_service K kv i =
     (case SetControllerReference K kv (svc_Meta (shard_service kv i)) of
        Inl e \<Rightarrow> ret (Inl e)
      | Inr m \<Rightarrow> create_service K ((shard_service kv i)\<lparr>svc_Meta := m\<rparr>))"

definition SpinUpShardServices :: "('b, 'r, 'z) kvctl_lib_scheme \<Rightarrow> KVStoreResource \<Rightarrow> ('r, unit) ctl" where
  "SpinUpShardServices K kv = for_each (spin_up_service K kv) (new_shards kv)"

section \<open>Status changes\<close>

definition with_message :: "string \<Rightarrow> KVStoreResource \<Rightarrow> KVStoreResource" where
  "with_message msg kv = kv\<lparr>store_Status := (store_Status kv)\<lparr>status_Message := msg\<rparr>\<rparr>"

definition with_counts :: "int \<Rightarrow> int \<Rightarrow> KVStoreResource \<Rightarrow> KVStoreResource" where
  "with_counts current target kv =
     kv\<lparr>store_Status := (store_Status kv)\<lparr>status_CurrentShards := current, status_TargetShards := target\<rparr>\<rparr>"

definition enter_phase :: "RedistributionPhase \<Rightarrow> string \<Rightarrow> nat \<Rightarrow> KVStoreResource \<Rightarrow> KVStoreResource" where
  "enter_phase ph msg t kv =
     kv\<lparr>store_Status := (store_Status kv)\<lparr>status_Phase := ph, status_Message := msg, status_LastTransition := t\<rparr>\<rparr>"

definition read_now :: "('r system, nat) prog" where
  "read_now c = (Return (now c), c)"

definition transition :: "('b, 'r, 'z) kvctl_lib_scheme \<Rightarrow> RedistributionPhase \<Rightarrow> string \<Rightarrow> KVStoreResource \<Rightarrow> ('r, unit) ctl" where
  "transition K ph msg kv = bind_act read_now (\<lambda>t. status_update K (enter_phase ph msg t kv))"

section \<open>Calling shards\<close>

definition GetShardClient :: "('b, 'r, 'z) kvctl_lib_scheme \<Rightarrow> StatefulSet \<Rightarrow> ('r system, string) prog" where
  "GetShardClient K shard =
     (let target = host_port (ss_ServiceName shard @ ''.'' @ meta_Namespace (ss_Meta shard)) 8081 in
      case dial_loop (dial_ok K target) 0 of None \<Rightarrow> diverge | Some n \<Rightarrow> ret target)"

definition on_world :: "('r world, 'a) prog \<Rightarrow> ('r system, 'a) prog" where
  "on_world m c = (case m (shard_world c) of (r, w) \<Rightarrow> (r, c\<lparr>shard_world := w\<rparr>))"

definition call_shard ::
  "('b, 'r, 'z) kvctl_lib_scheme \<Rightarrow> StatefulSet \<Rightarrow> (string \<Rightarrow> ('r, err + 'a) act) \<Rightarrow> ('r, 'a) ctl" where
  "call_shard K shard handler = bind_act (GetShardClient K shard) (\<lambda>target. on_world (rpc target handler))"

section \<open>The phases\<close>

fun unready_set :: "StatefulSet list \<Rightarrow> bool" where
  "unready_set [] = False"
| "unready_set (shard # shards) =
     (if ss_ReadyReplicas shard \<noteq> ss_Replicas shard then True else unready_set shards)"

definition PrepareScale :: "('b, 'r, 'z) kvctl_lib_scheme \<Rightarrow> KVStoreResource \<Rightarrow> ('r, unit) ctl" where
  "PrepareScale K kv =
     bind_act (GetShards K kv) (\<lambda>shards.
     if unready_set shards then status_update K (with_message ''Waiting for shards to be ready'' kv)
     else if kv_current kv = 0 then
       transition K PhaseNormal ''Ready'' (with_counts (kv_target kv) (kv_target kv) kv)
     else transition K PhaseStoppingWrites ''Starting to disable writes'' kv)"

fun stop_writes_loop :: "('b, 'r, 'z) kvctl_lib_scheme \<Rightarrow> KVStoreResource \<Rightarrow> StatefulSet list \<Rightarrow> ('r, unit) ctl" where
  "stop_writes_loop K kv [] = transition K PhaseRedistributingKeys ''Starting to redistribute keys'' kv"
| "stop_writes_loop K kv (shard # shards) =
     bind_act (call_shard K shard (shard_PauseWrites K PauseWritesRequest)) (\<lambda>res.
     case res of
       Inl e \<Rightarrow>
         bind_act (status_update K (with_message (''Failed to pause writes: '' @ Error e @ ''. Retrying'') kv))
           (\<lambda>_. ret (Inl e))
     | Inr r \<Rightarrow>
         if \<not> PauseWritesResponse_IsPaused r
         then status_update K (with_message ''Waiting for shards to pause writes'' kv)
         else stop_writes_loop K kv shards)"

definition StopWrites :: "('b, 'r, 'z) kvctl_lib_scheme \<Rightarrow> KVStoreResource \<Rightarrow> ('r, unit) ctl" where
  "StopWrites K kv = bind_act (GetShards K kv) (stop_writes_loop K kv)"

definition pending_message :: "int \<Rightarrow> string" where
  "pending_message n = ''Pending keys to be redistributed: '' @ itoa n"

fun redistribute_loop ::
  "('b, 'r, 'z) kvctl_lib_scheme \<Rightarrow> KVStoreResource \<Rightarrow> StatefulSet list \<Rightarrow> int \<Rightarrow> ('r, unit) ctl" where
  "redistribute_loop K kv [] pendingKeys =
     (if pendingKeys = 0
      then transition K PhaseFinalizingScale ''Starting to finalize scaling operation'' kv
      else status_update K (with_message (pending_message pendingKeys) kv))"
| "redistribute_loop K kv (shard # shards) pendingKeys =
     bind_act (call_shard K shard (shard_RedistributeKeys K RedistributeKeysRequest)) (\<lambda>res.
     case res of
       Inl e \<Rightarrow>
         bind_act (status_update K (with_message (''Failed to initiate key redistribution: '' @ Error e) kv))
           (\<lambda>_. ret (Inl e))
     | Inr r \<Rightarrow> redistribute_loop K kv shards (pendingKeys + sint (RedistributeKeysResponse_PendingKeys r)))"

definition ctl_RedistributeKeys :: "('b, 'r, 'z) kvctl_lib_scheme \<Rightarrow> KVStoreResource \<Rightarrow> ('r, unit) ctl" where
  "ctl_RedistributeKeys K kv = bind_act (GetShards K kv) (\<lambda>shards. redistribute_loop K kv shards 0)"

definition group_of :: "ObjectMeta \<Rightarrow> string" where
  "group_of m = (case map_of (meta_Labels m) ''group'' of None \<Rightarrow> '''' | Some g \<Rightarrow> g)"

definition surplus_groups :: "KVStoreResource \<Rightarrow> string list" where
  "surplus_groups kv = map (shard_name (kv_name kv)) (filter (\<lambda>i. kv_target kv \<le> i) [0..kv_current kv - 1])"

fun delete_groups ::
  "('o \<Rightarrow> ObjectMeta) \<Rightarrow> ('o \<Rightarrow> ('r, unit) ctl) \<Rightarrow> string list \<Rightarrow> 'o list \<Rightarrow> ('r, unit) ctl" where
  "delete_groups meta delete groups [] = ret (Inr ())"
| "delete_groups meta delete groups (x # xs) =
     (if group_of (meta x) \<in> set groups then bind_ok (delete x) (\<lambda>_. delete_groups meta delete groups xs)
      else delete_groups meta delete groups xs)"

definition resume_phase :: "('b, 'r, 'z) kvctl_lib_scheme \<Rightarrow> KVStoreResource \<Rightarrow> ('r, unit) ctl" where
  "resume_phase K kv =
     bind_act read_now (\<lambda>t.
       let kv' = with_counts (kv_target kv) (kv_target kv)
                   (enter_phase PhaseResumingWrites ''Starting to resume writes'' t kv) in
       bind_ok (UpdateConfigMap K kv') (\<lambda>_. status_update K kv'))"

definition FinalizeScale :: "('b, 'r, 'z) kvctl_lib_scheme \<Rightarrow> KVStoreResource \<Rightarrow> ('r, unit) ctl" where
  "FinalizeScale K kv =
     (if kv_target kv > kv_current kv then resume_phase K kv
      else
        let groupsToBeDeleted = surplus_groups kv in
        bind_act (GetShards K kv) (\<lambda>shards.
        bind_ok (delete_groups ss_Meta (delete_set K) groupsToBeDeleted shards) (\<lambda>_.
        bind_act (GetIngresses K kv) (\<lambda>ingresses.
        bind_ok (delete_groups ing_Meta (delete_ingress K) groupsToBeDeleted ingresses) (\<lambda>_.
        bind_act (GetServices K kv) (\<lambda>services.
        bind_ok (delete_groups svc_Meta (delete_service K) groupsToBeDeleted services) (\<lambda>_.
        resume_phase K kv)))))))"

fun resume_writes_loop :: "('b, 'r, 'z) kvctl_lib_scheme \<Rightarrow> KVStoreResource \<Rightarrow> StatefulSet list \<Rightarrow> ('r, unit) ctl" where
  "resume_writes_loop K kv [] = transition K PhaseNormal ''Ready'' (with_counts (kv_target kv) (kv_target kv) kv)"
| "resume_writes_loop K kv (shard # shards) =
     bind_act (call_shard K shard (shard_ResumeWrites K ResumeWritesRequest)) (\<lambda>res.
     case res of
       Inl e \<Rightarrow>
         bind_act (status_update K (with_message (''Failed to resume writes: '' @ Error e @ ''. Retrying'') kv))
           (\<lambda>_. ret (Inl e))
     | Inr r \<Rightarrow>
         if \<not> ResumeWritesResponse_IsResumed r
         then status_update K (with_message ''Waiting for shards to resume writes'' kv)
         else resume_writes_loop K kv shards)"

definition ResumeWrites :: "('b, 'r, 'z) kvctl_lib_scheme \<Rightarrow> KVStoreResource \<Rightarrow> ('r, unit) ctl" where
  "ResumeWrites K kv = bind_act (GetShards K kv) (resume_writes_loop K kv)"

section \<open>Reconcile\<close>

datatype reconcile_result = Done | RequeueAfter nat

text \<open>The first shard whose replica count differs from the spec is updated and the reconciliation ends.\<close>

fun fix_replicas :: "('b, 'r, 'z) kvctl_lib_scheme \<Rightarrow> KVStoreResource \<Rightarrow> StatefulSet list \<Rightarrow> ('r, reconcile_result option) ctl" where
  "fix_replicas K kv [] = ret (Inr None)"
| "fix_replicas K kv (shard # shards) =
     (if ss_Replicas shard \<noteq> spec_Replicas (store_Spec kv) then
        let annotations = (case ss_TemplateAnnotations shard of None \<Rightarrow> [] | Some as \<Rightarrow> as);
            replicas = spec_Replicas (store_Spec kv) in
        bind_ok (update_set K (shard\<lparr>ss_Replicas := replicas,
            ss_TemplateAnnotations := Some (AList.update ''replicas'' (itoa (sint replicas)) annotations)\<rparr>))
          (\<lambda>_. ret (Inr (Some (RequeueAfter 1))))
      else fix_replicas K kv shards)"

definition phase_switch :: "('b, 'r, 'z) kvctl_lib_scheme \<Rightarrow> KVStoreResource \<Rightarrow> ('r, reconcile_result) ctl" where
  "phase_switch K kv =
     (if kv_phase kv = PhaseNormal then ret (Inr Done)
      else
        bind_ok
          (if kv_phase kv = PhasePreparingScale then PrepareScale K kv
           else if kv_phase kv = PhaseStoppingWrites then StopWrites K kv
           else if kv_phase kv = PhaseRedistributingKeys then ctl_RedistributeKeys K kv
           else if kv_phase kv = PhaseResumingWrites then ResumeWrites K kv
           else if kv_phase kv = PhaseFinalizingScale then FinalizeScale K kv
           else ret (Inr ()))
          (\<lambda>_. ret (Inr (RequeueAfter 1))))"

definition begin_scale :: "KVStoreResource \<Rightarrow> int \<Rightarrow> nat \<Rightarrow> KVStoreResource" where
  "begin_scale kv current t =
     with_counts current (sint (spec_Shards (store_Spec kv)))
       (enter_phase PhasePreparingScale ''Spinning up shards'' t kv)"

definition scale_up :: "('b, 'r, 'z) kvctl_lib_scheme \<Rightarrow> KVStoreResource \<Rightarrow> ('r, reconcile_result) ctl" where
  "scale_up K kv =
     bind_act (status_update K kv) (\<lambda>_.
     bind_ok (UpdateConfigMap K kv) (\<lambda>_.
     bind_ok (SpinUpShardIngresses K kv) (\<lambda>_.
     bind_ok (SpinUpShardServices K kv) (\<lambda>_.
     bind_ok (SpinUpShards K kv) (\<lambda>_.
     ret (Inr (RequeueAfter 1)))))))"

definition Reconcile :: "('b, 'r, 'z) kvctl_lib_scheme \<Rightarrow> ('r, reconcile_result) ctl" where
  "Reconcile K =
     bind_act (get_store K) (\<lambda>got.
     case got of
       Inl e \<Rightarrow> ret (if IsNotFound K e then Inr Done else Inl e)
     | Inr kv \<Rightarrow>
         bind_ok (list_sets K (kv_ns kv) (kv_name kv)) (\<lambda>shardList.
         bind_ok (fix_replicas K kv shardList) (\<lambda>fixed.
         case fixed of
           Some res \<Rightarrow> ret (Inr res)
         | None \<Rightarrow>
             if kv_phase kv = PhaseNormal then
               bind_act read_now (\<lambda>t.
               let n = int (length shardList); kv' = begin_scale kv n t in
               if n < sint (spec_Shards (store_Spec kv)) then scale_up K kv'
               else if n > sint (spec_Shards (store_Spec kv)) then
                 bind_act (status_update K kv') (\<lambda>_.
                 bind_ok (UpdateConfigMap K kv') (\<lambda>_.
                 phase_switch K kv'))
               else phase_switch K kv)
             else phase_switch K kv)))"

end
