(* ===== verification/Kvctl_Objects.thy ===== *)
theory Kvctl_Objects
  imports Kvctl_Controller
begin

text \<open>
  What the reconciler's loops do to the stored objects when no API call fails.  The locale
  \<open>object_kind\<close> is the interface of one kind of objects in the API server: how its list is read and
  replaced, and what the verbs rely on.  The loops over creations and deletions are evaluated once in
  it; it is interpreted for StatefulSets, Services, Ingresses and ConfigMaps.
\<close>

text \<open>No API call fails from now on.\<close>

definition no_faults :: "'r system \<Rightarrow> bool" where
  "no_faults c \<longleftrightarrow> (\<forall>n \<ge> api_clock c. api_fault c n = None)"

text \<open>The system after \<open>n\<close> more API calls.\<close>

definition ticks :: "nat \<Rightarrow> 'r system \<Rightarrow> 'r system" where
  "ticks n c = c\<lparr>api_clock := api_clock c + n\<rparr>"

lemma ticks_simps [simp]:
  "ticks 0 c = c" "ticks m (ticks n c) = ticks (n + m) c" "no_faults c \<Longrightarrow> no_faults (ticks n c)"
  "api_store (ticks n c) = api_store c" "api_sets (ticks n c) = api_sets c" "api_services (ticks n c) = api_services c"
  "api_ingresses (ticks n c) = api_ingresses c" "api_configs (ticks n c) = api_configs c" "now (ticks n c) = now c"
  "shard_world (ticks n c) = shard_world c"
  by (simp_all add: ticks_def no_faults_def add.assoc)

lemma api_call_run: "no_faults c \<Longrightarrow> api_call f c = map_prod Return id (f (ticks 1 c))"
  by (simp add: api_call_alt no_faults_def Let_def ticks_def split: prod.splits)

lemma bind_run: "m c = (Return x, c') \<Longrightarrow> bind_act m f c = f x c'"
  by (simp add: bind_act_def)

lemma bind_ok_run: "m c = (Return (Inr x), c') \<Longrightarrow> bind_ok m f c = f x c'"
  by (simp add: bind_ok_def bind_act_def)

definition object_key :: "ObjectMeta \<Rightarrow> string \<times> string" where
  "object_key m = (meta_Name m, meta_Namespace m)"

lemma same_object_key: "same_object m m' \<longleftrightarrow> object_key m = object_key m'"
  by (simp add: same_object_def object_key_def)

definition put_store :: "KVStoreResource option \<Rightarrow> 'r system \<Rightarrow> 'r system" where
  "put_store k c = c\<lparr>api_store := k\<rparr>"

text \<open>The API server holds at most one object of a kind under a name.\<close>

definition unique_objects :: "('o \<Rightarrow> ObjectMeta) \<Rightarrow> 'o list \<Rightarrow> bool" where
  "unique_objects meta xs \<longleftrightarrow> distinct (map (\<lambda>x. object_key (meta x)) xs)"

lemma unique_objects_eq:
  "unique_objects meta xs \<Longrightarrow> x \<in> set xs \<Longrightarrow> y \<in> set xs \<Longrightarrow> object_key (meta x) = object_key (meta y) \<longleftrightarrow> x = y"
  by (auto simp: unique_objects_def distinct_map dest: inj_onD)

definition fresh_for :: "('o \<Rightarrow> ObjectMeta) \<Rightarrow> 'o list \<Rightarrow> 'o list \<Rightarrow> bool" where
  "fresh_for meta xs objs \<longleftrightarrow>
     unique_objects meta xs \<and> (\<forall>x \<in> set xs. \<forall>y \<in> set objs. object_key (meta x) \<noteq> object_key (meta y))"

section \<open>One kind of objects\<close>

locale object_kind =
  fixes meta :: "'o \<Rightarrow> ObjectMeta"
    and objs :: "'r system \<Rightarrow> 'o list"
    and put :: "'o list \<Rightarrow> 'r system \<Rightarrow> 'r system"
  assumes objs_put: "objs (put xs c) = xs"
    and put_put: "put xs (put ys c) = put xs c"
    and put_objs: "put (objs c) c = c"
    and objs_ticks: "objs (ticks n c) = objs c"
    and ticks_put: "ticks n (put xs c) = put xs (ticks n c)"
    and faults_put: "no_faults (put xs c) = no_faults c"
begin

lemma create_run:
  assumes "no_faults c" and "fresh_for meta [x] (objs c)"
  shows "api_call (\<lambda>c. store_result put c (create_in meta x (objs c))) c = (Return (Inr ()), put (objs c @ [x]) (ticks 1 c))"
  using assms by (auto simp: api_call_run create_in_def store_result_def same_object_key fresh_for_def objs_ticks)

lemma create_all:
  assumes "no_faults c" and "fresh_for meta (map mk is) (objs c)"
    and body: "\<And>i c. body i c = api_call (\<lambda>c. store_result put c (create_in meta (mk i) (objs c))) c"
  shows "for_each body is c = (Return (Inr ()), put (objs c @ map mk is) (ticks (length is) c))"
  using assms(1,2)
proof (induction "is" arbitrary: c)
  case Nil
  then show ?case by (simp add: ret_def put_objs)
next
  case (Cons i "is")
  let ?c = "put (objs c @ [mk i]) (ticks 1 c)"
  have "fresh_for meta [mk i] (objs c)" "fresh_for meta (map mk is) (objs ?c)" "no_faults ?c"
    using Cons.prems by (auto simp: fresh_for_def unique_objects_def objs_put faults_put image_iff)
  then show ?case
    using Cons.IH [of ?c] Cons.prems(1) create_run [of c "mk i"]
    by (simp add: bind_ok_run body objs_put ticks_put put_put)
qed

lemma delete_run:
  assumes "no_faults c" and "x \<in> set (objs c)"
  shows "api_call (\<lambda>c. store_result put c (delete_in meta x (objs c))) c =
    (Return (Inr ()), put (filter (\<lambda>y. object_key (meta y) \<noteq> object_key (meta x)) (objs c)) (ticks 1 c))"
  using assms by (auto simp: api_call_run delete_in_def store_result_def same_object_key objs_ticks)

lemma delete_all:
  assumes "no_faults c" and "unique_objects meta (objs c)" and "distinct xs" and "set xs \<subseteq> set (objs c)"
    and delete: "\<And>x c. delete x c = api_call (\<lambda>c. store_result put c (delete_in meta x (objs c))) c"
  shows "delete_groups meta delete groups xs c =
    (Return (Inr ()), put (filter (\<lambda>y. \<not> (y \<in> set xs \<and> group_of (meta y) \<in> set groups)) (objs c))
       (ticks (length (filter (\<lambda>y. group_of (meta y) \<in> set groups) xs)) c))"
  using assms(1-4)
proof (induction xs arbitrary: c)
  case Nil
  then show ?case by (simp add: ret_def put_objs)
next
  case (Cons x xs)
  show ?case
  proof (cases "group_of (meta x) \<in> set groups")
    case False
    then have "filter (\<lambda>y. \<not> (y \<in> set xs \<and> group_of (meta y) \<in> set groups)) (objs c) =
      filter (\<lambda>y. \<not> (y \<in> set (x # xs) \<and> group_of (meta y) \<in> set groups)) (objs c)"
      by (auto intro: filter_cong)
    then show ?thesis using False Cons.IH [of c] Cons.prems by simp
  next
    case True
    let ?ys = "filter (\<lambda>y. object_key (meta y) \<noteq> object_key (meta x)) (objs c)"
    let ?c = "put ?ys (ticks 1 c)"
    have key: "object_key (meta y) = object_key (meta x) \<longleftrightarrow> y = x" if "y \<in> set (objs c)" for y
      using unique_objects_eq [OF Cons.prems(2)] that Cons.prems(4) by simp
    have "unique_objects meta (objs ?c)" "set xs \<subseteq> set (objs ?c)" "no_faults ?c"
      using Cons.prems key by (auto simp: objs_put faults_put unique_objects_def distinct_map_filter)
    then have IH: "delete_groups meta delete groups xs ?c =
      (Return (Inr ()), put (filter (\<lambda>y. \<not> (y \<in> set xs \<and> group_of (meta y) \<in> set groups)) ?ys)
         (ticks (Suc (length (filter (\<lambda>y. group_of (meta y) \<in> set groups) xs))) c))"
      using Cons.IH [of ?c] Cons.prems by (simp add: objs_put put_put ticks_put)
    have "filter (\<lambda>y. \<not> (y \<in> set xs \<and> group_of (meta y) \<in> set groups)) ?ys =
      filter (\<lambda>y. \<not> (y \<in> set (x # xs) \<and> group_of (meta y) \<in> set groups)) (objs c)"
      using True key by (auto simp: intro!: filter_cong)
    then show ?thesis
      using True IH delete_run [of c x] delete [of x c] Cons.prems by (simp add: bind_ok_run)
  qed
qed

end

interpretation sets: object_kind ss_Meta api_sets put_sets
  by unfold_locales (simp_all add: put_sets_def ticks_def no_faults_def)

interpretation services: object_kind svc_Meta api_services put_services
  by unfold_locales (simp_all add: put_services_def ticks_def no_faults_def)

interpretation ingresses: object_kind ing_Meta api_ingresses put_ingresses
  by unfold_locales (simp_all add: put_ingresses_def ticks_def no_faults_def)

interpretation configs: object_kind cm_Meta api_configs put_configs
  by unfold_locales (simp_all add: put_configs_def ticks_def no_faults_def)

lemma put_simps [simp]:
  "no_faults (put_sets xs c) = no_faults c" "no_faults (put_services ys c) = no_faults c"
  "no_faults (put_ingresses zs c) = no_faults c" "no_faults (put_configs cs c) = no_faults c"
  "no_faults (put_store k c) = no_faults c"
  "api_sets (put_sets xs c) = xs" "api_sets (put_services ys c) = api_sets c"
  "api_sets (put_ingresses zs c) = api_sets c" "api_sets (put_configs cs c) = api_sets c"
  "api_sets (put_store k c) = api_sets c"
  "api_services (put_sets xs c) = api_services c" "api_services (put_services ys c) = ys"
  "api_services (put_ingresses zs c) = api_services c" "api_services (put_configs cs c) = api_services c"
  "api_services (put_store k c) = api_services c"
  "api_ingresses (put_sets xs c) = api_ingresses c" "api_ingresses (put_services ys c) = api_ingresses c"
  "api_ingresses (put_ingresses zs c) = zs" "api_ingresses (put_configs cs c) = api_ingresses c"
  "api_ingresses (put_store k c) = api_ingresses c"
  "api_configs (put_sets xs c) = api_configs c" "api_configs (put_services ys c) = api_configs c"
  "api_configs (put_ingresses zs c) = api_configs c" "api_configs (put_configs cs c) = cs"
  "api_configs (put_store k c) = api_configs c"
  "api_store (put_sets xs c) = api_store c" "api_store (put_services ys c) = api_store c"
  "api_store (put_ingresses zs c) = api_store c" "api_store (put_configs cs c) = api_store c"
  "api_store (put_store k c) = k"
  "shard_world (put_sets xs c) = shard_world c" "shard_world (put_services ys c) = shard_world c"
  "shard_world (put_ingresses zs c) = shard_world c" "shard_world (put_configs cs c) = shard_world c"
  "shard_world (put_store k c) = shard_world c"
  "now (put_sets xs c) = now c" "now (put_services ys c) = now c"
  "now (put_ingresses zs c) = now c" "now (put_configs cs c) = now c" "now (put_store k c) = now c"
  by (simp_all add: put_sets_def put_services_def put_ingresses_def put_configs_def put_store_def no_faults_def)

section \<open>Reading and the status\<close>

lemma get_store_run: "kube_ok K \<Longrightarrow> no_faults c \<Longrightarrow> api_store c = Some kv \<Longrightarrow> get_store K c = (Return (Inr kv), ticks 1 c)"
  by (simp add: kube_calls api_call_run)

lemma status_update_run:
  "kube_ok K \<Longrightarrow> no_faults c \<Longrightarrow> api_store c = Some k \<Longrightarrow>
   status_update K kv c = (Return (Inr ()), put_store (Some (k\<lparr>store_Status := store_Status kv\<rparr>)) (ticks 1 c))"
  by (simp add: kube_calls api_call_run put_store_def)

lemma list_sets_run:
  "kube_ok K \<Longrightarrow> no_faults c \<Longrightarrow>
   list_sets K ns name c = (Return (Inr (list_owned ss_Meta (index_StatefulSet K) ns name (api_sets c))), ticks 1 c)"
  by (simp add: kube_calls api_call_run)

lemma lists_run:
  assumes "kube_ok K" and "no_faults c"
  shows "GetShards K kv c = (Return (list_owned ss_Meta (index_StatefulSet K) (kv_ns kv) (kv_name kv) (api_sets c)), ticks 1 c)"
    and "GetServices K kv c = (Return (list_owned svc_Meta (index_Service K) (kv_ns kv) (kv_name kv) (api_services c)), ticks 1 c)"
    and "GetIngresses K kv c = (Return (list_owned ing_Meta (index_Ingress K) (kv_ns kv) (kv_name kv) (api_ingresses c)), ticks 1 c)"
  using assms
  by (simp_all add: GetShards_def GetServices_def GetIngresses_def bind_act_def or_empty_def ret_def kube_calls api_call_run)

lemma transition_run:
  "kube_ok K \<Longrightarrow> no_faults c \<Longrightarrow> api_store c = Some k \<Longrightarrow> transition K ph msg kv c =
   (Return (Inr ()), put_store (Some (k\<lparr>store_Status := store_Status (enter_phase ph msg (now c) kv)\<rparr>)) (ticks 1 c))"
  by (simp add: transition_def bind_act_def read_now_def status_update_run)

lemma fix_replicas_run:
  "\<forall>s \<in> set shards. ss_Replicas s = spec_Replicas (store_Spec kv) \<Longrightarrow> fix_replicas K kv shards c = (Return (Inr None), c)"
  by (induction shards) (simp_all add: ret_def)

end
