(* ===== verification/Kv_Store_Correct.thy ===== *)
theory Kv_Store_Correct
  imports Kv_Store
begin

text \<open>
  What the store's operations guarantee.  The locale \<open>store_operation\<close> is the contract every
  operation of \<open>KVStore\<close> meets (it never moves the store or the state machine to another map
  object and never touches the store's own write flag); each operation is interpreted in it.
  The theorems: a write acknowledged by Raft is what \<open>Get\<close> returns, over the map object that
  store and state machine share; the flag \<open>GetWritesEnabled\<close> reads never changes in any reachable
  process; a process restarted from a snapshot reads from a map its state machine no longer uses;
  and \<open>Join\<close> leaves the other servers alone and installs the replica once, unless the removal of what
  conflicts with it cost the node its leadership.
\<close>

section \<open>The contract of a store operation\<close>

definition kv_shared :: "'r kvproc \<Rightarrow> bool" where
  "kv_shared p \<longleftrightarrow> store (kp_kv p) = store (kp_fsm p) \<and> fsm_inv (kp_fsm p, kp_heap p)"

definition same_refs :: "'r kvproc \<Rightarrow> 'r kvproc \<Rightarrow> bool" where
  "same_refs p p' \<longleftrightarrow>
     store (kp_kv p') = store (kp_kv p) \<and> store (kp_fsm p') = store (kp_fsm p) \<and>
     writesEnabled (kp_kv p') = writesEnabled (kp_kv p) \<and>
     (fsm_inv (kp_fsm p, kp_heap p) \<longrightarrow> fsm_inv (kp_fsm p', kp_heap p')) \<and>
     heap_next (kp_heap p') = heap_next (kp_heap p) \<and> (wf_heap (kp_heap p) \<longrightarrow> wf_heap (kp_heap p'))"

locale store_operation =
  fixes op :: "'r kvproc \<Rightarrow> ('e \<times> 'r kvproc) outcome"
  assumes op_refs: "op p = Return (e, p') \<Longrightarrow> same_refs p p'"
begin

lemma op_keeps_shared: "op p = Return (e, p') \<Longrightarrow> kv_shared p \<Longrightarrow> kv_shared p'"
  using op_refs [of p e p'] by (auto simp: kv_shared_def same_refs_def)

lemma op_keeps_flag: "op p = Return (e, p') \<Longrightarrow> GetWritesEnabled p' = GetWritesEnabled p"
  using op_refs [of p e p'] by (auto simp: same_refs_def GetWritesEnabled_def)

end

lemma same_refs_refl [simp]: "same_refs p p"
  by (simp add: same_refs_def)

lemma same_refs_raft [simp]: "same_refs p (p\<lparr>kp_kv := (kp_kv p)\<lparr>raft := r\<rparr>\<rparr>)"
  by (simp add: same_refs_def)

lemma fsm_run_refs:
  assumes "fsm_run c ds (kp_fsm p, kp_heap p) = Return (f, h)"
  shows "same_refs p (p\<lparr>kp_kv := (kp_kv p)\<lparr>raft := r\<rparr>, kp_fsm := f, kp_heap := h\<rparr>)"
  using fsm_run_frame [OF assms] fsm_run_inv [OF assms] by (simp add: same_refs_def)

lemma raft_apply_entry_refs: "raft_apply_entry L d p = Return (e, p') \<Longrightarrow> same_refs p p'"
  by (auto simp: raft_apply_entry_def intro: fsm_run_refs split: option.splits prod.splits)

interpretation set_writes: store_operation "SetWritesEnabled L b" for L b
  by unfold_locales
    (auto simp: SetWritesEnabled_def intro: raft_apply_entry_refs split: if_splits sum.splits)

interpretation set_op: store_operation "KVStore_Set L key v" for L key v
  by unfold_locales
    (auto simp: KVStore_Set_def intro: raft_apply_entry_refs split: if_splits sum.splits option.splits)

interpretation delete_op: store_operation "KVStore_Delete L key" for L key
  by unfold_locales
    (auto simp: KVStore_Delete_def intro: raft_apply_entry_refs split: if_splits sum.splits option.splits)

interpretation snapshot_op: store_operation "KVStore_Snapshot L" for L
  by unfold_locales
    (auto simp: KVStore_Snapshot_def Let_def same_refs_def split: sum.splits option.splits prod.splits)

interpretation close_op: store_operation "KVStore_Close L" for L
  by unfold_locales (auto simp: KVStore_Close_def split: option.splits prod.splits)

interpretation join_op: store_operation "KVStore_Join L ip port shard replica" for L ip port shard replica
  by unfold_locales (auto simp: KVStore_Join_def split: option.splits prod.splits)

interpretation demote_op: store_operation "KVStore_DemoteVoter L ip port shard replica" for L ip port shard replica
  by unfold_locales (auto simp: KVStore_DemoteVoter_def split: option.splits prod.splits if_splits)

section \<open>Opening a store\<close>

text \<open>What \<open>Open\<close> leaves behind when the node had no snapshot to restore, and when it had one.\<close>

definition starts_without_snapshot :: "('b, 'r, 'z) raft_lib_scheme \<Rightarrow> string \<Rightarrow> bool" where
  "starts_without_snapshot L sid \<longleftrightarrow> (\<forall>r s. NewRaft L (setup_config sid) = Inr (r, s) \<longrightarrow> s = None)"

lemma SetupRaft_cases:
  assumes "SetupRaft L dir sid address boot fh = Inr (r, f, h)"
  obtains r0 s where "NewRaft L (setup_config sid) = Inr (r0, s)"
    and "(case s of None \<Rightarrow> (None, fh) | Some b \<Rightarrow> KVFsm_Restore L (Inr b) fh) = (None, f, h)"
  using assms
  by (auto simp: SetupRaft_def split: option.splits sum.splits prod.splits if_splits)

lemma Open_cases:
  assumes "KVStore_Open L dir ip port shard replica boot (k, h) = Inr p"
  obtains r0 s where "NewRaft L (setup_config (replica_id replica shard port)) = Inr (r0, s)"
    and "(case s of None \<Rightarrow> (None, NewKVFsm (store k), h) | Some b \<Rightarrow> KVFsm_Restore L (Inr b) (NewKVFsm (store k), h)) =
      (None, kp_fsm p, kp_heap p)"
    and "store (kp_kv p) = store k" and "writesEnabled (kp_kv p) = writesEnabled k"
    and "raft (kp_kv p) \<noteq> None"
  using assms
  by (auto simp: KVStore_Open_def Let_def split: sum.splits prod.splits elim!: SetupRaft_cases)

lemma NewKVStore_facts:
  assumes "NewKVStore h0 = (k, h)" and "wf_heap h0"
  shows "writesEnabled k = False" and "map_read h (store k) = []" and "store k \<noteq> None"
    and "valid_ref h (store k)" and "wf_heap h"
  using assms by (auto simp: NewKVStore_def map_new_def valid_ref_def wf_heap_def)

lemma open_fresh_shared:
  assumes "NewKVStore h0 = (k, h)" and "wf_heap h0"
    and "starts_without_snapshot L (replica_id replica shard port)"
    and "KVStore_Open L dir ip port shard replica boot (k, h) = Inr p"
  shows "kv_shared p"
  using assms(4)
proof (rule Open_cases)
  fix r0 s
  assume s: "NewRaft L (setup_config (replica_id replica shard port)) = Inr (r0, s)"
    and fsm: "(case s of None \<Rightarrow> (None, NewKVFsm (store k), h) | Some b \<Rightarrow> KVFsm_Restore L (Inr b) (NewKVFsm (store k), h)) =
      (None, kp_fsm p, kp_heap p)"
    and kv: "store (kp_kv p) = store k"
  from s assms(3) have "s = None" by (simp add: starts_without_snapshot_def)
  with fsm have "kp_fsm p = NewKVFsm (store k)" "kp_heap p = h" by simp_all
  then show ?thesis
    using kv NewKVStore_facts [OF assms(1,2)] by (simp add: kv_shared_def fsm_inv_def NewKVFsm_def)
qed

section \<open>A concrete Raft node\<close>

text \<open>A single-node instance of the library, for evaluating the operations on concrete inputs: a
  leader commits what it is given at once, configuration changes take effect at once, and the
  node starts from the snapshot it is built with.\<close>

record demo_node =
  dn_role :: raft_state
  dn_leader :: string
  dn_servers :: "raft_server list"

definition demo_add :: "string \<Rightarrow> string \<Rightarrow> raft_server list \<Rightarrow> raft_server list" where
  "demo_add sid a ss = filter (\<lambda>s. server_ID s \<noteq> sid) ss @ [\<lparr>server_ID = sid, server_Address = a\<rparr>]"

definition demo_lib :: "wire option \<Rightarrow> (wire, demo_node) raft_lib" where
  "demo_lib snap =
     \<lparr>marshal_entry = marshal_entry wire_codec, unmarshal_entry = unmarshal_entry wire_codec,
      marshal_snapshot = marshal_snapshot wire_codec, unmarshal_snapshot = unmarshal_snapshot wire_codec,
      ErrNotLeader_message = ''node is not the leader'',
      NewBoltStore = (\<lambda>_. None), NewFileSnapshotStore = (\<lambda>_ _. None),
      ResolveTCPAddr = (\<lambda>a. Inr a), NewTCPTransport = (\<lambda>a _ _. Inr a),
      NewRaft = (\<lambda>c. Inr (\<lparr>dn_role = Leader, dn_leader = LocalID c, dn_servers = []\<rparr>, snap)),
      NewRaft_restore_err = (\<lambda>e. e),
      BootstrapCluster = (\<lambda>r ss. (None, r\<lparr>dn_servers := ss\<rparr>)),
      raft_State = dn_role,
      raft_Apply = (\<lambda>r d. if dn_role r = Leader then (None, [d], r)
        else (Some (RaftErr NotLeader ''node is not the leader''), [], r)),
      raft_sink_write = (\<lambda>_ _. None), raft_sink_close = (\<lambda>_. None),
      raft_Snapshot = (\<lambda>r res. (fst res, r)),
      snapshot_Open = (\<lambda>_. Inl (LibErr ''no snapshot'')),
      raft_GetConfiguration = (\<lambda>r. Inr (dn_servers r)),
      raft_RemoveServer = (\<lambda>r sid. (None, r\<lparr>dn_servers := filter (\<lambda>s. server_ID s \<noteq> sid) (dn_servers r)\<rparr>)),
      raft_AddVoter = (\<lambda>r sid a. (None, r\<lparr>dn_servers := demo_add sid a (dn_servers r)\<rparr>)),
      raft_DemoteVoter = (\<lambda>r sid. (None, r)),
      raft_AppliedIndex = (\<lambda>_. 0), raft_LastIndex = (\<lambda>_. 0),
      raft_LeaderWithID = (\<lambda>r. ([], dn_leader r)),
      raft_LeadershipTransfer = (\<lambda>r. (None, r\<lparr>dn_role := Follower\<rparr>))\<rparr>"

lemma demo_lib_ok [simp]:
  "entry_codec_ok (demo_lib s)" "snapshot_codec_ok (demo_lib s)" "raft_apply_ok (demo_lib s)"
  using wire_entry_codec_ok wire_snapshot_codec_ok
  by (simp_all add: entry_codec_ok_def snapshot_codec_ok_def raft_apply_ok_def demo_lib_def)

lemma demo_lib_simps [simp]:
  "marshal_entry (demo_lib s) m = Inr (WEntry m)" "unmarshal_entry (demo_lib s) (WEntry m) = Inr m"
  "marshal_snapshot (demo_lib s) ms = Inr (WSnapshot ms)"
  "NewBoltStore (demo_lib s) pa = None" "NewFileSnapshotStore (demo_lib s) pa n = None"
  "ResolveTCPAddr (demo_lib s) a = Inr a" "NewTCPTransport (demo_lib s) a b tc = Inr a"
  "NewRaft (demo_lib s) c = Inr (\<lparr>dn_role = Leader, dn_leader = LocalID c, dn_servers = []\<rparr>, s)"
  "BootstrapCluster (demo_lib s) r ss = (None, r\<lparr>dn_servers := ss\<rparr>)"
  "raft_State (demo_lib s) = dn_role"
  "dn_role r = Leader \<Longrightarrow> raft_Apply (demo_lib s) r d = (None, [d], r)"
  "raft_GetConfiguration (demo_lib s) r = Inr (dn_servers r)"
  "raft_RemoveServer (demo_lib s) r sid = (None, r\<lparr>dn_servers := filter (\<lambda>s. server_ID s \<noteq> sid) (dn_servers r)\<rparr>)"
  "raft_AddVoter (demo_lib s) r sid a = (None, r\<lparr>dn_servers := demo_add sid a (dn_servers r)\<rparr>)"
  "raft_LeaderWithID (demo_lib s) r = ([], dn_leader r)"
  by (simp_all add: demo_lib_def wire_codec_def)

definition demo_node0 :: demo_node where
  "demo_node0 =
     \<lparr>dn_role = Leader, dn_leader = replica_id ''r-0'' ''s-0'' 8082,
      dn_servers = [\<lparr>server_ID = replica_id ''r-0'' ''s-0'' 8082, server_Address = host_port ''10.0.0.1'' 8082\<rparr>]\<rparr>"

definition demo_proc :: "demo_node kvproc" where
  "demo_proc =
     \<lparr>kp_kv = \<lparr>raft = Some demo_node0, lastSnapshotIndex = 0, store = Some 0, writesEnabled = False\<rparr>,
      kp_fsm = NewKVFsm (Some 0), kp_heap = \<lparr>heap_maps = (\<lambda>_. []), heap_next = 1\<rparr>\<rparr>"

lemma demo_proc_open:
  "KVStore_Open (demo_lib None) ''/data'' ''10.0.0.1'' 8082 ''s-0'' ''r-0'' True (NewKVStore empty_heap) = Inr demo_proc"
  by (simp add: KVStore_Open_def SetupRaft_def NewKVStore_def map_new_def Let_def empty_heap_def
      demo_proc_def demo_node0_def setup_config_def fun_eq_iff)

lemma demo_proc_shared [simp]: "kv_shared demo_proc"
proof -
  obtain k h :: _ where kh: "NewKVStore empty_heap = (k :: demo_node KVStore, h)" by fastforce
  show ?thesis
    by (rule open_fresh_shared [OF kh wf_empty_heap _ demo_proc_open [unfolded kh]])
      (simp add: starts_without_snapshot_def)
qed

lemma demo_proc_Set: "\<exists>p'. KVStore_Set (demo_lib s) key v demo_proc = Return (None, p')"
  by (simp add: KVStore_Set_def demo_proc_def demo_node0_def raft_apply_entry_def KVFsm_Apply_def
      NewKVFsm_def apply_entry_set)

lemma demo_proc_Delete: "\<exists>p'. KVStore_Delete (demo_lib s) key demo_proc = Return (None, p')"
  by (simp add: KVStore_Delete_def demo_proc_def demo_node0_def raft_apply_entry_def KVFsm_Apply_def
      NewKVFsm_def apply_entry_delete)

section \<open>Acknowledged writes are readable\<close>

lemma kv_shared_Get:
  assumes "kv_shared p"
  shows "KVStore_Get key p =
    (case fst (fsm_view (kp_fsm p, kp_heap p)) key of Some v \<Rightarrow> Inr v | None \<Rightarrow> Inl KeyNotFound)"
  using assms by (simp add: KVStore_Get_def fsm_view_def kv_shared_def)

lemma acknowledged_entry_applied:
  assumes "raft_apply_ok L" "entry_codec_ok L" "marshal_entry L (command_entry cmd) = Inr d" "kv_shared p"
    and "raft_apply_entry L d p = Return (None, p')"
  shows "\<exists>m w. fsm_view (kp_fsm p', kp_heap p') = spec_step cmd (m, w)" and "kv_shared p'"
proof -
  obtain r ds r' fh where 1: "raft_Apply L r d = (None, ds, r')"
    and 2: "fsm_run L ds (kp_fsm p, kp_heap p) = Return fh"
    and 3: "kp_fsm p' = fst fh" "kp_heap p' = snd fh"
    using assms(5) by (auto simp: raft_apply_entry_def split: option.splits prod.splits)
  obtain pre where ds: "ds = pre @ [d]" using assms(1) 1 unfolding raft_apply_ok_def by blast
  obtain fh0 where a: "fsm_run L pre (kp_fsm p, kp_heap p) = Return fh0" and b: "fsm_run L [d] fh0 = Return fh"
    using 2 by (auto simp: ds fsm_run_append)
  have "fsm_inv fh0" using fsm_run_inv [OF a] assms(4) by (simp add: kv_shared_def)
  moreover have "apply_entry (command_entry cmd) fh0 = Return fh"
    using b by (auto simp: KVFsm_Apply_encoded [OF assms(2,3)])
  ultimately have "fsm_view fh = spec_step cmd (fsm_view fh0)"
    using apply_command_refines [of fh0 cmd] by auto
  then show "\<exists>m w. fsm_view (kp_fsm p', kp_heap p') = spec_step cmd (m, w)"
    using 3 by (cases "fsm_view fh0") auto
  show "kv_shared p'"
    using raft_apply_entry_refs [OF assms(5)] assms(4) by (auto simp: kv_shared_def same_refs_def)
qed

lemma Set_Get:
  assumes "raft_apply_ok L" and "entry_codec_ok L" and "kv_shared p"
    and "KVStore_Set L key value p = Return (None, p')"
  shows "KVStore_Get key p' = Inr value"
proof -
  obtain d where d: "marshal_entry L (command_entry (CSet key value)) = Inr d"
    and a: "raft_apply_entry L d p = Return (None, p')"
    using assms(4) by (auto simp: KVStore_Set_def split: option.splits sum.splits if_splits)
  note applied = acknowledged_entry_applied [OF assms(1,2) d assms(3) a]
  obtain m w where "fsm_view (kp_fsm p', kp_heap p') = spec_step (CSet key value) (m, w)"
    using applied(1) by blast
  then show ?thesis by (simp add: kv_shared_Get [OF applied(2)])
qed

text \<open>C9: when store and state machine share their map, a \<open>Set\<close> that Raft acknowledges is read
  back by \<open>Get\<close> on the same replica.\<close>

theorem acknowledged_set_is_read:
  assumes "raft_apply_ok L" and "entry_codec_ok L" and "kv_shared p"
    and "KVStore_Set L key value p = Return (None, p')"
  shows "KVStore_Get key p' = Inr value"
  using assms by (rule Set_Get)

theorem acknowledged_set_is_read_witness:
  "\<exists>p'. KVStore_Set (demo_lib None) ''k'' ''v'' demo_proc = Return (None, p') \<and> KVStore_Get ''k'' p' = Inr ''v''"
  using demo_proc_Set [of None "''k''" "''v''"] acknowledged_set_is_read [OF demo_lib_ok(3,1) demo_proc_shared]
  by blast

lemma Delete_Get:
  assumes "raft_apply_ok L" and "entry_codec_ok L" and "kv_shared p"
    and "KVStore_Delete L key p = Return (None, p')"
  shows "KVStore_Get key p' = Inl KeyNotFound"
proof -
  obtain d where d: "marshal_entry L (command_entry (CDelete key)) = Inr d"
    and a: "raft_apply_entry L d p = Return (None, p')"
    using assms(4) by (auto simp: KVStore_Delete_def split: option.splits sum.splits if_splits)
  note applied = acknowledged_entry_applied [OF assms(1,2) d assms(3) a]
  obtain m w where "fsm_view (kp_fsm p', kp_heap p') = spec_step (CDelete key) (m, w)"
    using applied(1) by blast
  then show ?thesis by (simp add: kv_shared_Get [OF applied(2)])
qed

text \<open>A \<open>Delete\<close> that Raft acknowledges makes \<open>Get\<close> of that key answer \<open>KeyNotFound\<close>.\<close>

theorem acknowledged_delete_is_gone:
  assumes "raft_apply_ok L" and "entry_codec_ok L" and "kv_shared p"
    and "KVStore_Delete L key p = Return (None, p')"
  shows "KVStore_Get key p' = Inl KeyNotFound"
  using assms by (rule Delete_Get)

theorem acknowledged_delete_is_gone_witness:
  "\<exists>p'. KVStore_Delete (demo_lib None) ''k'' demo_proc = Return (None, p') \<and>
     KVStore_Get ''k'' p' = Inl KeyNotFound"
  using demo_proc_Delete [of None "''k''"] acknowledged_delete_is_gone [OF demo_lib_ok(3,1) demo_proc_shared]
  by blast

section \<open>Reachable stores\<close>

text \<open>Every way a running process's store can change: opening it, the operations of \<open>KVStore\<close>,
  entries Raft commits on its own (a follower's state machine), a snapshot Raft installs, and the
  node changing state between calls.\<close>

inductive kv_reach :: "('b, 'r, 'z) raft_lib_scheme \<Rightarrow> 'r kvproc \<Rightarrow> bool" for L where
  reach_open: "wf_heap h0 \<Longrightarrow> NewKVStore h0 = kh \<Longrightarrow>
     KVStore_Open L dir ip port shard replica boot kh = Inr p \<Longrightarrow> kv_reach L p"
| reach_set: "kv_reach L p \<Longrightarrow> KVStore_Set L key v p = Return (e, p') \<Longrightarrow> kv_reach L p'"
| reach_delete: "kv_reach L p \<Longrightarrow> KVStore_Delete L key p = Return (e, p') \<Longrightarrow> kv_reach L p'"
| reach_writes: "kv_reach L p \<Longrightarrow> SetWritesEnabled L b p = Return (e, p') \<Longrightarrow> kv_reach L p'"
| reach_snapshot: "kv_reach L p \<Longrightarrow> KVStore_Snapshot L p = Return (res, p') \<Longrightarrow> kv_reach L p'"
| reach_close: "kv_reach L p \<Longrightarrow> KVStore_Close L p = Return (e, p') \<Longrightarrow> kv_reach L p'"
| reach_join: "kv_reach L p \<Longrightarrow> KVStore_Join L ip port shard replica p = Return (e, p') \<Longrightarrow> kv_reach L p'"
| reach_demote: "kv_reach L p \<Longrightarrow> KVStore_DemoteVoter L ip port shard replica p = Return (e, p') \<Longrightarrow> kv_reach L p'"
| reach_deliver: "kv_reach L p \<Longrightarrow> fsm_run L ds (kp_fsm p, kp_heap p) = Return (f, h) \<Longrightarrow>
     kv_reach L (p\<lparr>kp_fsm := f, kp_heap := h\<rparr>)"
| reach_restore: "kv_reach L p \<Longrightarrow> KVFsm_Restore L rd (kp_fsm p, kp_heap p) = (e, f, h) \<Longrightarrow>
     kv_reach L (p\<lparr>kp_fsm := f, kp_heap := h\<rparr>)"
| reach_node: "kv_reach L p \<Longrightarrow> kv_reach L (p\<lparr>kp_kv := (kp_kv p)\<lparr>raft := Some r\<rparr>\<rparr>)"

lemmas op_flags =
  set_op.op_keeps_flag delete_op.op_keeps_flag set_writes.op_keeps_flag snapshot_op.op_keeps_flag
  close_op.op_keeps_flag join_op.op_keeps_flag demote_op.op_keeps_flag

lemma kv_reach_flag: "kv_reach L p \<Longrightarrow> \<not> GetWritesEnabled p"
proof (induction rule: kv_reach.induct)
  case (reach_open h0 kh dir ip port shard replica boot p)
  then show ?case
    by (cases kh) (auto simp: GetWritesEnabled_def elim!: Open_cases dest: NewKVStore_facts(1))
qed (auto simp: GetWritesEnabled_def dest: op_flags [unfolded GetWritesEnabled_def])

text \<open>C20: in every reachable process \<open>GetWritesEnabled\<close> answers false, because no operation
  ever assigns the flag of the store (the TOGGLE entry changes the flag of the state machine only);
  so disabling writes is a no-op that reports success.\<close>

theorem writes_flag_never_set:
  assumes "kv_reach L p"
  shows "GetWritesEnabled p = False \<and> SetWritesEnabled L False p = Return (None, p)"
  using kv_reach_flag [OF assms] by (simp add: GetWritesEnabled_def SetWritesEnabled_def)

theorem writes_flag_never_set_witness:
  "GetWritesEnabled demo_proc = False \<and> SetWritesEnabled (demo_lib None) False demo_proc = Return (None, demo_proc)"
  by (rule writes_flag_never_set [OF kv_reach.reach_open [OF wf_empty_heap refl demo_proc_open]])

section \<open>Restarting from a snapshot\<close>

lemma Restore_detaches:
  assumes "KVFsm_Restore L (Inr b) (f, h) = (None, f', h')" "valid_ref h r" "r \<noteq> None"
  shows "store f' \<noteq> r" and "map_read h' r = map_read h r"
  using assms
  by (auto simp: KVFsm_Restore_def map_new_def Let_def valid_ref_def map_read_def
      split: sum.splits option.splits)

lemma detached_set_unseen:
  assumes "store (kp_kv p) \<noteq> store (kp_fsm p)" and "KVStore_Set L key v p = Return (e, p')"
  shows "KVStore_Get key' p' = KVStore_Get key' p"
proof -
  have "map_read (kp_heap p') (store (kp_kv p')) = map_read (kp_heap p) (store (kp_kv p))"
    using assms
    by (auto simp: KVStore_Set_def raft_apply_entry_def dest!: fsm_run_frame
        split: option.splits sum.splits if_splits prod.splits)
  then show ?thesis by (simp add: KVStore_Get_def)
qed

text \<open>C21: a process that starts from a snapshot (\<open>Open\<close> of a fresh store, \<open>NewRaft\<close> restoring the
  snapshot) has the snapshot's contents in its state machine, yet \<open>Get\<close> finds no key, and a
  \<open>Set\<close> does not change that: \<open>Restore\<close> gives the state machine another map and the store keeps
  the old, empty one.\<close>

theorem restart_from_snapshot_reads_nothing:
  assumes "snapshot_codec_ok L" and "wf_heap h0" and "NewKVStore h0 = (k, h)"
    and "NewRaft L (setup_config (replica_id replica shard port)) = Inr (r, Some b)"
    and "marshal_snapshot L (snapshot_message (KVFsm_Snapshot f0) hs) = Inr b"
    and "KVStore_Open L dir ip port shard replica boot (k, h) = Inr p"
  shows "fst (fsm_view (kp_fsm p, kp_heap p)) = fst (fsm_view (f0, hs)) \<and>
    KVStore_Get key p = Inl KeyNotFound \<and>
    (\<forall>key' v e p'. KVStore_Set L key' v p = Return (e, p') \<longrightarrow> KVStore_Get key p' = Inl KeyNotFound)"
proof -
  note nk = NewKVStore_facts [OF assms(3,2)]
  have "KVFsm_Restore L (Inr b) (NewKVFsm (store k), h) = (None, kp_fsm p, kp_heap p) \<and>
      store (kp_kv p) = store k"
    using assms(6) by (rule Open_cases) (simp add: assms(4))
  then have R: "KVFsm_Restore L (Inr b) (NewKVFsm (store k), h) = (None, kp_fsm p, kp_heap p)"
    and kv: "store (kp_kv p) = store k" by simp_all
  have view: "fst (fsm_view (kp_fsm p, kp_heap p)) = fst (fsm_view (f0, hs))"
    using Restore_persisted(2) [OF assms(1,5) R] by (simp add: fsm_view_def)
  note det = Restore_detaches [OF R nk(4,3)]
  have get: "KVStore_Get key p = Inl KeyNotFound"
    using det(2) nk(2) kv by (simp add: KVStore_Get_def)
  have "KVStore_Get key p' = Inl KeyNotFound" if "KVStore_Set L key' v p = Return (e, p')" for key' v e p'
    using detached_set_unseen [OF _ that, of key] det(1) kv get by simp
  with view get show ?thesis by blast
qed

definition demo_snapshot :: wire where
  "demo_snapshot = WSnapshot (snapshot_message (KVFsm_Snapshot (fst demo_full)) (snd demo_full))"

theorem restart_from_snapshot_reads_nothing_witness:
  "\<exists>p. KVStore_Open (demo_lib (Some demo_snapshot)) ''/data'' ''10.0.0.1'' 8082 ''s-0'' ''r-0'' False (NewKVStore empty_heap) = Inr p \<and>
     fst (fsm_view (kp_fsm p, kp_heap p)) ''k'' = Some ''v'' \<and> KVStore_Get ''k'' p = Inl KeyNotFound"
proof -
  obtain k h where kh: "NewKVStore empty_heap = (k :: demo_node KVStore, h)" by fastforce
  have n: "NewRaft (demo_lib (Some demo_snapshot)) (setup_config (replica_id ''r-0'' ''s-0'' 8082)) =
      Inr (\<lparr>dn_role = Leader, dn_leader = replica_id ''r-0'' ''s-0'' 8082, dn_servers = []\<rparr>, Some demo_snapshot)"
    by (simp add: setup_config_def)
  have m: "marshal_snapshot (demo_lib (Some demo_snapshot))
      (snapshot_message (KVFsm_Snapshot (fst demo_full)) (snd demo_full)) = Inr demo_snapshot"
    by (simp add: demo_snapshot_def)
  obtain e f' h' where R: "KVFsm_Restore (demo_lib (Some demo_snapshot)) (Inr demo_snapshot) (NewKVFsm (store k) :: demo_node KVFsm, h) = (e, f', h')"
    by (metis prod_cases3)
  moreover have "e = None" by (rule Restore_persisted(1) [OF demo_lib_ok(2) m R])
  ultimately obtain p where p: "KVStore_Open (demo_lib (Some demo_snapshot)) ''/data'' ''10.0.0.1'' 8082 ''s-0'' ''r-0'' False (k, h) = Inr p"
    by (simp add: KVStore_Open_def SetupRaft_def Let_def)
  have v: "fst (fsm_view (fst demo_full, snd demo_full)) ''k'' = Some ''v''"
    by (simp add: fsm_view_def demo_full_def NewKVFsm_def)
  show ?thesis
    using restart_from_snapshot_reads_nothing [OF demo_lib_ok(2) wf_empty_heap kh n m p, of "''k''"] p v kh
    by auto
qed

section \<open>Joining the cluster\<close>

text \<open>What the Raft library documents of configuration changes: a removal that succeeds drops the
  servers with that id, adding a voter replaces the server with its id; ids and addresses in a configuration
  are distinct.  Nothing is said of the node's role: a leader that removes itself causes a new election.\<close>

definition raft_membership_ok :: "('b, 'r, 'z) raft_lib_scheme \<Rightarrow> bool" where
  "raft_membership_ok L \<longleftrightarrow>
     (\<forall>r i r' cfg. raft_GetConfiguration L r = Inr cfg \<longrightarrow> raft_RemoveServer L r i = (None, r') \<longrightarrow>
        raft_GetConfiguration L r' = Inr (filter (\<lambda>s. server_ID s \<noteq> i) cfg)) \<and>
     (\<forall>r i a r' cfg. raft_GetConfiguration L r = Inr cfg \<longrightarrow> raft_AddVoter L r i a = (None, r') \<longrightarrow>
        (\<exists>cfg'. raft_GetConfiguration L r' = Inr cfg' \<and>
           set cfg' = insert \<lparr>server_ID = i, server_Address = a\<rparr> {s \<in> set cfg. server_ID s \<noteq> i}))"

definition conflicts :: "string \<Rightarrow> string \<Rightarrow> raft_server \<Rightarrow> bool" where
  "conflicts sid address m \<longleftrightarrow> server_ID m = sid \<or> server_Address m = address"

lemma server_eq: "m = \<lparr>server_ID = i, server_Address = a\<rparr> \<longleftrightarrow> server_ID m = i \<and> server_Address m = a"
  for m :: raft_server
  by (cases m) auto

lemma join_loop_exact:
  assumes "\<lparr>server_ID = sid, server_Address = a\<rparr> \<in> set ms"
    and "distinct (map server_ID ms)" "distinct (map server_Address ms)"
  shows "join_loop L sid a ms r = Inl (None, r)"
  using assms
proof (induction ms)
  case (Cons m ms)
  show ?case
  proof (cases "m = \<lparr>server_ID = sid, server_Address = a\<rparr>")
    case False
    then have "\<lparr>server_ID = sid, server_Address = a\<rparr> \<in> set ms" using Cons.prems(1) by auto
    moreover have "server_ID m \<noteq> sid" "server_Address m \<noteq> a"
      using calculation Cons.prems(2,3) by (force simp: image_iff)+
    ultimately show ?thesis using Cons by simp
  qed simp
qed simp

lemma join_loop_removes:
  assumes "raft_membership_ok L" "raft_GetConfiguration L r = Inr cfg"
    and "\<lparr>server_ID = sid, server_Address = a\<rparr> \<notin> set ms" "join_loop L sid a ms r = Inr r'"
  shows "raft_GetConfiguration L r' = Inr (filter (\<lambda>s. server_ID s \<notin> server_ID ` {m \<in> set ms. conflicts sid a m}) cfg)"
  using assms(2-)
proof (induction ms arbitrary: r cfg)
  case Nil
  then show ?case by simp
next
  case (Cons m ms)
  show ?case
  proof (cases "conflicts sid a m")
    case False
    then have "join_loop L sid a ms r = Inr r'" using Cons.prems(3) by (simp add: conflicts_def)
    with Cons.IH [OF Cons.prems(1)] Cons.prems(2) False show ?thesis by (auto intro: filter_cong)
  next
    case True
    have ne: "\<not> (server_ID m = sid \<and> server_Address m = a)"
      using Cons.prems(2) server_eq by fastforce
    obtain r1 where r1: "raft_RemoveServer L r (server_ID m) = (None, r1)" "join_loop L sid a ms r1 = Inr r'"
      using Cons.prems(3) True ne by (auto simp: conflicts_def split: prod.splits option.splits)
    have c1: "raft_GetConfiguration L r1 = Inr (filter (\<lambda>s. server_ID s \<noteq> server_ID m) cfg)"
      using assms(1) Cons.prems(1) r1(1) unfolding raft_membership_ok_def by blast
    from Cons.IH [OF c1 _ r1(2)] Cons.prems(2) True show ?thesis
      by (auto intro!: filter_cong)
  qed
qed

lemma join_loop_Inl_None:
  "join_loop L sid a ms r = Inl (None, r') \<Longrightarrow> \<lparr>server_ID = sid, server_Address = a\<rparr> \<in> set ms"
proof (induction ms arbitrary: r)
  case Nil
  then show ?case by simp
next
  case (Cons m ms)
  show ?case
  proof (cases "m = \<lparr>server_ID = sid, server_Address = a\<rparr>")
    case True
    then show ?thesis by simp
  next
    case False
    then have "\<not> (server_ID m = sid \<and> server_Address m = a)" using server_eq [of m sid a] by blast
    with Cons.prems obtain r1 where "join_loop L sid a ms r1 = Inl (None, r')"
      by (auto split: if_splits prod.splits option.splits)
    from Cons.IH [OF this] show ?thesis by simp
  qed
qed

lemma unique_conflict:
  assumes "\<lparr>server_ID = sid, server_Address = a\<rparr> \<in> set cfg" (is "?x \<in> _")
    and "distinct (map server_ID cfg)" and "distinct (map server_Address cfg)"
  shows "{s \<in> set cfg. conflicts sid a s} = {\<lparr>server_ID = sid, server_Address = a\<rparr>}"
proof -
  have "s = ?x" if "s \<in> set cfg" "conflicts sid a s" for s
    using that assms inj_onD [of server_ID "set cfg" s ?x] inj_onD [of server_Address "set cfg" s ?x]
    by (auto simp: distinct_map conflicts_def)
  moreover have "conflicts sid a ?x" by (simp add: conflicts_def)
  ultimately show ?thesis using assms(1) by blast
qed

lemma join_loop_quiet: "\<forall>m \<in> set ms. \<not> conflicts sid a m \<Longrightarrow> join_loop L sid a ms r = Inr r"
  by (induction ms) (simp_all add: conflicts_def)

text \<open>The servers left when those that clash are removed by their ids.\<close>

lemma conflicts_removed:
  assumes "distinct (map server_ID cfg)"
  shows "set (filter (\<lambda>s. server_ID s \<notin> server_ID ` {m \<in> set cfg. conflicts sid a m}) cfg) = {s \<in> set cfg. \<not> conflicts sid a s}"
  using assms by (auto simp: distinct_map dest: inj_onD)

lemma join_node_changes:
  assumes "raft_membership_ok L" and "raft_State L r = Leader" and "raft_GetConfiguration L r = Inr cfg"
    and "distinct (map server_ID cfg)" and "\<lparr>server_ID = sid, server_Address = a\<rparr> \<notin> set cfg" (is "?x \<notin> _")
    and "join_node L sid a r = (None, r')"
  shows "\<exists>cfg'. raft_GetConfiguration L r' = Inr cfg' \<and>
    (set cfg' = insert \<lparr>server_ID = sid, server_Address = a\<rparr> {s \<in> set cfg. \<not> conflicts sid a s} \<or>
     set cfg' = {s \<in> set cfg. \<not> conflicts sid a s} \<and> raft_State L r' \<noteq> Leader \<and> (\<exists>m \<in> set cfg. conflicts sid a m))"
proof -
  let ?rest = "filter (\<lambda>s. server_ID s \<notin> server_ID ` {m \<in> set cfg. conflicts sid a m}) cfg"
  obtain r1 where r1: "join_loop L sid a cfg r = Inr r1" "JoinReplica L r1 sid a = (None, r')"
    using assms(2,3,5,6) by (auto simp: join_node_def dest: join_loop_Inl_None split: sum.splits)
  note removed = join_loop_removes [OF assms(1,3,5) r1(1)]
  note rest = conflicts_removed [OF assms(4), of sid a]
  show ?thesis
  proof (cases "raft_State L r1 = Leader")
    case True
    then have "raft_AddVoter L r1 sid a = (None, r')"
      using r1(2) by (auto simp: JoinReplica_def split: prod.splits option.splits)
    with assms(1) removed obtain cfg' where "raft_GetConfiguration L r' = Inr cfg'"
      "set cfg' = insert ?x {s \<in> set ?rest. server_ID s \<noteq> sid}"
      unfolding raft_membership_ok_def by blast
    moreover have "{s \<in> set ?rest. server_ID s \<noteq> sid} = {s \<in> set cfg. \<not> conflicts sid a s}"
      unfolding rest by (auto simp: conflicts_def)
    ultimately show ?thesis by auto
  next
    case False
    then have "r' = r1" using r1(2) by (simp add: JoinReplica_def)
    moreover have "\<exists>m \<in> set cfg. conflicts sid a m"
      using False assms(2) r1(1) join_loop_quiet [of cfg sid a L r] by auto
    ultimately show ?thesis using False removed rest by auto
  qed
qed

text \<open>C19: when a leader's \<open>Join\<close> returns without error, the servers whose id and address differ from those of
  the joining replica are as before, and one of two things holds of the others.  The replica is in the
  configuration, and it is the only one with that id or that address; or none is, and the node, having removed
  a server with that id or address, is no longer the leader.  In the second case \<open>Join\<close> reports success
  although it removed the replica and did not add it; a leader that joins itself again can end there.\<close>

theorem join_installs_replica:
  assumes "raft_membership_ok L" and "raft_State L r = Leader" and "raft_GetConfiguration L r = Inr cfg"
    and "distinct (map server_ID cfg)" and "distinct (map server_Address cfg)"
    and "join_node L sid a r = (None, r')"
  shows "\<exists>cfg'. raft_GetConfiguration L r' = Inr cfg' \<and>
    {s \<in> set cfg'. \<not> conflicts sid a s} = {s \<in> set cfg. \<not> conflicts sid a s} \<and>
    ({s \<in> set cfg'. conflicts sid a s} = {\<lparr>server_ID = sid, server_Address = a\<rparr>} \<or>
     {s \<in> set cfg'. conflicts sid a s} = {} \<and> raft_State L r' \<noteq> Leader \<and>
     (\<exists>m \<in> set cfg. conflicts sid a m \<and> m \<noteq> \<lparr>server_ID = sid, server_Address = a\<rparr>))"
proof (cases "\<lparr>server_ID = sid, server_Address = a\<rparr> \<in> set cfg")
  case True
  then have "r' = r" using assms by (simp add: join_node_def join_loop_exact)
  then show ?thesis using unique_conflict [OF True assms(4,5)] assms(3) by blast
next
  case False
  have "conflicts sid a \<lparr>server_ID = sid, server_Address = a\<rparr>" by (simp add: conflicts_def)
  then show ?thesis using join_node_changes [OF assms(1-4) False assms(6)] False by (elim exE conjE disjE) (auto 0 4)
qed

text \<open>A library in which a leader that removes itself steps down, and a cluster of two.\<close>

definition election_lib :: "(wire, demo_node) raft_lib" where
  "election_lib = (demo_lib None)\<lparr>raft_RemoveServer := (\<lambda>r i.
     (None, r\<lparr>dn_servers := filter (\<lambda>s. server_ID s \<noteq> i) (dn_servers r), dn_role := (if i = ''r-0'' then Follower else dn_role r)\<rparr>))\<rparr>"

definition two_servers :: demo_node where
  "two_servers = \<lparr>dn_role = Leader, dn_leader = ''r-0'', dn_servers =
     [\<lparr>server_ID = ''r-0'', server_Address = ''10.0.0.1:8082''\<rparr>, \<lparr>server_ID = ''r-1'', server_Address = ''10.0.0.2:8082''\<rparr>]\<rparr>"

lemma demo_membership_ok [simp]: "raft_membership_ok (demo_lib s)"
  by (auto simp: raft_membership_ok_def demo_add_def)

lemma election_membership_ok: "raft_membership_ok election_lib"
  by (auto simp: raft_membership_ok_def demo_add_def election_lib_def)

lemma two_servers_join:
  "join_node election_lib sid ''10.0.0.9:8082'' two_servers =
    (None, if sid = ''r-0'' then two_servers\<lparr>dn_role := Follower, dn_servers := [\<lparr>server_ID = ''r-1'', server_Address = ''10.0.0.2:8082''\<rparr>]\<rparr>
     else two_servers\<lparr>dn_servers := demo_add sid ''10.0.0.9:8082'' (dn_servers two_servers)\<rparr>)"
  by (simp add: join_node_def JoinReplica_def two_servers_def election_lib_def demo_add_def)

lemma demo_names:
  "replica_id ''r-0'' ''s-0'' 8082 = ''r-0.s-0:8082''" "host_port ''10.0.0.1'' 8082 = ''10.0.0.1:8082''"
  by (simp_all add: replica_id_def host_port_def render_simps)

theorem join_installs_replica_witness:
  "(\<exists>r' cfg'. join_node election_lib ''r-1'' ''10.0.0.9:8082'' two_servers = (None, r') \<and>
     raft_GetConfiguration election_lib r' = Inr cfg' \<and>
     {s \<in> set cfg'. conflicts ''r-1'' ''10.0.0.9:8082'' s} = {\<lparr>server_ID = ''r-1'', server_Address = ''10.0.0.9:8082''\<rparr>}) \<and>
   (\<exists>r' cfg'. join_node election_lib ''r-0'' ''10.0.0.9:8082'' two_servers = (None, r') \<and>
     raft_GetConfiguration election_lib r' = Inr cfg' \<and> raft_State election_lib r' = Follower \<and>
     {s \<in> set cfg'. conflicts ''r-0'' ''10.0.0.9:8082'' s} = {})"
proof -
  have st: "raft_State election_lib two_servers = Leader"
    "raft_GetConfiguration election_lib two_servers = Inr (dn_servers two_servers)"
    by (simp_all add: two_servers_def election_lib_def)
  have d: "distinct (map server_ID (dn_servers two_servers))" "distinct (map server_Address (dn_servers two_servers))"
    by (simp_all add: two_servers_def)
  have roles: "raft_State election_lib = dn_role" "raft_GetConfiguration election_lib n = Inr (dn_servers n)" for n
    by (simp_all add: election_lib_def)
  note join = join_installs_replica [OF election_membership_ok st d two_servers_join]
  show ?thesis
    using join [of "''r-1''"] join [of "''r-0''"] two_servers_join [of "''r-1''"] two_servers_join [of "''r-0''"]
    by (auto simp: roles two_servers_def conflicts_def)
qed

lemma raft_update_same:
  assumes "raft (kp_kv p) = Some r"
  shows "p\<lparr>kp_kv := (kp_kv p)\<lparr>raft := Some r\<rparr>\<rparr> = p"
proof -
  have "(kp_kv p)\<lparr>raft := Some r\<rparr> = kp_kv p"
    using assms by (cases "kp_kv p") simp
  then show ?thesis by (cases p) simp
qed

text \<open>On a replica that is not the leader, \<open>Set\<close> and \<open>Delete\<close> answer \<open>ErrNotLeader\<close>, and
  \<open>Join\<close> and \<open>DemoteVoter\<close> answer success, and none of them changes anything.\<close>

theorem follower_operations_refused:
  assumes "raft (kp_kv p) = Some r" and "raft_State L r \<noteq> Leader"
  shows "KVStore_Set L key v p = Return (Some (ErrNotLeader L), p) \<and>
    KVStore_Delete L key p = Return (Some (ErrNotLeader L), p) \<and>
    KVStore_Join L ip port shard replica p = Return (None, p) \<and>
    KVStore_DemoteVoter L ip port shard replica p = Return (None, p)"
  using assms raft_update_same [OF assms(1)]
  by (simp add: KVStore_Set_def KVStore_Delete_def KVStore_Join_def KVStore_DemoteVoter_def join_node_def)

definition demo_follower :: "demo_node kvproc" where
  "demo_follower = demo_proc\<lparr>kp_kv := (kp_kv demo_proc)\<lparr>raft := Some (demo_node0\<lparr>dn_role := Follower\<rparr>)\<rparr>\<rparr>"

theorem follower_operations_refused_witness:
  "KVStore_Set (demo_lib None) ''k'' ''v'' demo_follower = Return (Some (ErrNotLeader (demo_lib None)), demo_follower)"
proof -
  have "raft (kp_kv demo_follower) = Some (demo_node0\<lparr>dn_role := Follower\<rparr>)"
    by (simp add: demo_follower_def)
  moreover have "raft_State (demo_lib None) (demo_node0\<lparr>dn_role := Follower\<rparr>) \<noteq> Leader"
    by simp
  ultimately show ?thesis by (rule follower_operations_refused [THEN conjunct1])
qed

end
