(* ===== verification/Shard_Invariants.thy ===== *)
theory Shard_Invariants
  imports Shard_Server Kv_Store_Correct
begin

text \<open>
  Invariants of the processes of a world.  The locale \<open>process_invariant\<close> is the interface between
  the store and the handlers: a property of one process that the store's operations and the
  assignments to the package variables keep.  Inside it every handler of the three services, the
  redistribution and the start and end of a process are shown to keep it for all processes, whatever
  the network does.  It is interpreted three times: with reachability of the store, with the sharing
  of the map between store and state machine, and with the shape of the client maps.
\<close>

named_theorems keeps \<open>introduction rules: an action keeps an invariant of all processes\<close>

definition all_procs :: "(string \<Rightarrow> 'r process \<Rightarrow> bool) \<Rightarrow> 'r world \<Rightarrow> bool" where
  "all_procs P w \<longleftrightarrow> (\<forall>h p. processes w h = Some p \<longrightarrow> P h p)"

definition keeps_all :: "(string \<Rightarrow> 'r process \<Rightarrow> bool) \<Rightarrow> ('r, 'a) act \<Rightarrow> bool" where
  "keeps_all P m \<longleftrightarrow> (\<forall>w. all_procs P w \<longrightarrow> all_procs P (snd (m w)))"

lemma keeps_allD: "keeps_all P m \<Longrightarrow> all_procs P w \<Longrightarrow> m w = (x, w') \<Longrightarrow> all_procs P w'"
  by (auto simp: keeps_all_def dest: spec [of _ w])

lemma all_procsD: "all_procs P w \<Longrightarrow> processes w h = Some p \<Longrightarrow> P h p"
  by (simp add: all_procs_def)

lemma all_procs_upd [simp]:
  "all_procs P w \<Longrightarrow> P h p \<Longrightarrow> all_procs P (set_process h p w)"
  "all_procs P w \<Longrightarrow> all_procs P (crash h w)"
  "all_procs P (w\<lparr>clock := n\<rparr>) = all_procs P w"
  by (auto simp: all_procs_def set_process_def crash_def)

lemma keeps_basic [keeps]:
  "keeps_all P (ret x)" "keeps_all P panic" "keeps_all P diverge" "keeps_all P (lift_outcome y)"
  by (simp_all add: keeps_all_def ret_def panic_def diverge_def lift_outcome_def)

lemma keeps_bind: "keeps_all P m \<Longrightarrow> (\<And>x. keeps_all P (f x)) \<Longrightarrow> keeps_all P (bind_act m f)"
  by (auto simp: keeps_all_def bind_act_def split: prod.splits outcome.splits)

lemma keeps_bind_self:
  "(\<And>p. P s p \<Longrightarrow> keeps_all P (f p)) \<Longrightarrow> keeps_all P (bind_act (self s) f)"
  by (auto simp: keeps_all_def bind_act_def self_def all_procs_def split: option.splits)

lemma keeps_bind_lift:
  "(\<And>x. y = Return x \<Longrightarrow> keeps_all P (f x)) \<Longrightarrow> keeps_all P (bind_act (lift_outcome y) f)"
  by (auto simp: keeps_all_def bind_act_def lift_outcome_def split: outcome.splits)

lemma keeps_become: "P s p \<Longrightarrow> keeps_all P (become s p)"
  by (simp add: keeps_all_def become_def)

lemma keeps_if [keeps]: "(b \<Longrightarrow> keeps_all P m) \<Longrightarrow> (\<not> b \<Longrightarrow> keeps_all P n) \<Longrightarrow> keeps_all P (if b then m else n)"
  by simp

lemma keeps_case_sum [keeps]:
  "(\<And>x. y = Inl x \<Longrightarrow> keeps_all P (f x)) \<Longrightarrow> (\<And>x. y = Inr x \<Longrightarrow> keeps_all P (g x)) \<Longrightarrow>
   keeps_all P (case y of Inl x \<Rightarrow> f x | Inr x \<Rightarrow> g x)"
  by (simp split: sum.splits)

lemma keeps_case_option [keeps]:
  "keeps_all P m \<Longrightarrow> (\<And>x. y = Some x \<Longrightarrow> keeps_all P (f x)) \<Longrightarrow>
   keeps_all P (case y of None \<Rightarrow> m | Some x \<Rightarrow> f x)"
  by (simp split: option.splits)

lemma keeps_rpc: "(\<And>h. keeps_all P (handler h)) \<Longrightarrow> keeps_all P (rpc target handler)"
proof -
  assume h: "\<And>h. keeps_all P (handler h)"
  have "all_procs P (snd (handler h (w\<lparr>clock := n\<rparr>)))" if "all_procs P w" for h w n
    using h that by (simp add: keeps_all_def)
  then show ?thesis
    by (auto simp: keeps_all_def rpc_def Let_def split: option.splits fate.splits prod.splits outcome.splits)
      (metis snd_conv all_procs_upd(2))+
qed

lemma keeps_client_call:
  "(\<And>h. keeps_all P (handler h)) \<Longrightarrow> keeps_all P (client_call clients key handler)"
  by (auto simp: client_call_def intro!: keeps keeps_rpc)

lemma keeps_on_store:
  assumes "\<And>p x k. P s p \<Longrightarrow> op (kvStore p) = Return (x, k) \<Longrightarrow> P s (p\<lparr>kvStore := k\<rparr>)"
  shows "keeps_all P (on_store s op)"
  unfolding on_store_def
  by (intro keeps_bind_self)
    (auto split: outcome.splits intro!: keeps keeps_bind keeps_become assms)

lemmas keeps_structure = keeps keeps_bind_self keeps_bind_lift keeps_bind keeps_client_call keeps_become

lemma populate_clients_bounds:
  "populate_clients L ds cs = (r, cs') \<Longrightarrow> set cs \<subseteq> set cs' \<and> set cs' \<subseteq> set cs \<union> set ds"
proof (induction L ds cs rule: populate_clients.induct)
  case (2 L key target ds cs)
  then show ?case by (fastforce split: if_splits option.splits)
qed simp

lemma find_leader_keeps_all:
  assumes "\<And>p rs. keeps_all P (ask_replicas L p rs)" and "find_leader L p rs w = Some res" and "all_procs P w"
  shows "all_procs P (snd res)"
proof -
  have "L = L \<longrightarrow> all_procs P w \<longrightarrow> all_procs P (snd res)"
  proof (rule find_leader.raw_induct [where P = "\<lambda>L' p rs w res. L' = L \<longrightarrow> all_procs P w \<longrightarrow> all_procs P (snd res)", OF _ assms(2)])
    fix go L' p rs w res
    assume IH: "\<And>L' p rs w res. go L' p rs w = Some res \<Longrightarrow> L' = L \<longrightarrow> all_procs P w \<longrightarrow> all_procs P (snd res)"
      and step: "(case ask_replicas L' p rs w of
        (Return (Some leader), w') \<Rightarrow> Some (Return leader, w') | (Return None, w') \<Rightarrow> go L' p rs w'
      | (Panic, w') \<Rightarrow> Some (Panic, w') | (Diverge, w') \<Rightarrow> Some (Diverge, w')) = Some res"
    show "L' = L \<longrightarrow> all_procs P w \<longrightarrow> all_procs P (snd res)"
    proof (intro impI)
      assume L: "L' = L" and w: "all_procs P w"
      obtain x w1 where ask: "ask_replicas L p rs w = (x, w1)" by fastforce
      have "all_procs P w1" using assms(1) w ask by (rule keeps_allD)
      then show "all_procs P (snd res)"
        using step L ask IH by (auto split: outcome.splits option.splits)
    qed
  qed
  with assms(3) show ?thesis by blast
qed

text \<open>Waiting keeps what changes of the node and delivered entries keep.\<close>

lemma wait_for_logs_keeps:
  assumes node: "\<And>k r. Q k \<Longrightarrow> Q (k\<lparr>kp_kv := (kp_kv k)\<lparr>raft := Some r\<rparr>\<rparr>)"
    and deliver: "\<And>k ds f h. Q k \<Longrightarrow> fsm_run L ds (kp_fsm k, kp_heap k) = Return (f, h) \<Longrightarrow> Q (k\<lparr>kp_fsm := f, kp_heap := h\<rparr>)"
    and run: "wait_for_logs L k = Some (Return k')" and "Q k"
  shows "Q k'"
proof -
  have second: "Q k'" if w: "wait_second L k = Return k'" and q: "Q k" for k k'
  proof -
    obtain r ds r' f h where "raft_wait L r = (ds, r')" "fsm_run L ds (kp_fsm k, kp_heap k) = Return (f, h)"
      "k' = (k\<lparr>kp_fsm := f, kp_heap := h\<rparr>)\<lparr>kp_kv := (kp_kv (k\<lparr>kp_fsm := f, kp_heap := h\<rparr>))\<lparr>raft := Some r'\<rparr>\<rparr>"
      using w by (auto simp: wait_second_def split: option.splits prod.splits)
    then show ?thesis using deliver [OF q] node by metis
  qed
  have "L = L \<longrightarrow> Q k \<longrightarrow> (\<forall>k''. (Return k' :: 'a kvproc outcome) = Return k'' \<longrightarrow> Q k'')"
  proof (rule wait_for_logs.raw_induct [where P = "\<lambda>L' k res. L' = L \<longrightarrow> Q k \<longrightarrow> (\<forall>k''. res = Return k'' \<longrightarrow> Q k'')", OF _ run])
    fix go :: "('b, 'a, 'c) shard_lib_scheme \<Rightarrow> 'a kvproc \<Rightarrow> 'a kvproc outcome option" and L' k res
    assume IH: "\<And>L' k res. go L' k = Some res \<Longrightarrow> L' = L \<longrightarrow> Q k \<longrightarrow> (\<forall>k''. res = Return k'' \<longrightarrow> Q k'')"
      and step: "(case HasLatestLogs L' k of Return b \<Rightarrow> if b then Some (Return k)
          else (case wait_second L' k of Return k' \<Rightarrow> go L' k' | Panic \<Rightarrow> Some Panic | Diverge \<Rightarrow> Some Diverge)
        | Panic \<Rightarrow> Some Panic | Diverge \<Rightarrow> Some Diverge) = Some res"
    show "L' = L \<longrightarrow> Q k \<longrightarrow> (\<forall>k''. res = Return k'' \<longrightarrow> Q k'')"
      using step second by (auto split: outcome.splits if_splits dest!: IH)
  qed
  with assms(4) show ?thesis by blast
qed

section \<open>The interface\<close>

locale process_invariant =
  fixes L :: "('b, 'r, 'z) shard_lib_scheme" and P :: "string \<Rightarrow> 'r process \<Rightarrow> bool"
  assumes inv_set: "P h p \<Longrightarrow> KVStore_Set L key v (kvStore p) = Return (e, k) \<Longrightarrow> P h (p\<lparr>kvStore := k\<rparr>)"
    and inv_delete: "P h p \<Longrightarrow> KVStore_Delete L key (kvStore p) = Return (e, k) \<Longrightarrow> P h (p\<lparr>kvStore := k\<rparr>)"
    and inv_writes: "P h p \<Longrightarrow> SetWritesEnabled L b (kvStore p) = Return (e, k) \<Longrightarrow> P h (p\<lparr>kvStore := k\<rparr>)"
    and inv_join: "P h p \<Longrightarrow> KVStore_Join L ip port sh rep (kvStore p) = Return (e, k) \<Longrightarrow> P h (p\<lparr>kvStore := k\<rparr>)"
    and inv_demote: "P h p \<Longrightarrow> KVStore_DemoteVoter L ip port sh rep (kvStore p) = Return (e, k) \<Longrightarrow> P h (p\<lparr>kvStore := k\<rparr>)"
    and inv_close: "P h p \<Longrightarrow> KVStore_Close L (kvStore p) = Return (e, k) \<Longrightarrow> P h (p\<lparr>kvStore := k\<rparr>)"
    and inv_node: "P h p \<Longrightarrow> P h (p\<lparr>kvStore := (kvStore p)\<lparr>kp_kv := (kp_kv (kvStore p))\<lparr>raft := Some r\<rparr>\<rparr>\<rparr>)"
    and inv_deliver: "P h p \<Longrightarrow> fsm_run L ds (kp_fsm (kvStore p), kp_heap (kvStore p)) = Return (f, hp) \<Longrightarrow>
      P h (p\<lparr>kvStore := (kvStore p)\<lparr>kp_fsm := f, kp_heap := hp\<rparr>\<rparr>)"
    and inv_ring: "P h p \<Longrightarrow> P h (p\<lparr>ch := ring\<rparr>)"
    and inv_flag: "P h p \<Longrightarrow> P h (p\<lparr>redistributingKeys := b\<rparr>)"
    and inv_spawned: "P h p \<Longrightarrow> P h (p\<lparr>spawned := n\<rparr>)"
    and inv_servers: "P h p \<Longrightarrow> P h (p\<lparr>servers := sv\<rparr>)"
    and inv_config: "P h p \<Longrightarrow> P h (p\<lparr>configFile := c\<rparr>)"
    and inv_shards: "P h p \<Longrightarrow> set (shardClients p) \<subseteq> set cs \<Longrightarrow>
      set cs \<subseteq> set (shardClients p) \<union> range (\<lambda>n. (n, host_port n (flag_shardPort (flags p)))) \<Longrightarrow>
      P h (p\<lparr>shardClients := cs\<rparr>)"
    and inv_replicas: "P h p \<Longrightarrow> set (replicaClients p) \<subseteq> set cs \<Longrightarrow>
      set cs \<subseteq> set (replicaClients p) \<union>
        range (\<lambda>d. (replica_id d (flag_shard (flags p)) (flag_raftPort (flags p)),
                    replica_id d (flag_shard (flags p)) (flag_replicaPort (flags p)))) \<Longrightarrow>
      P h (p\<lparr>replicaClients := cs\<rparr>)"
begin

lemma store_rules:
  "keeps_all P (on_store s (KVStore_Set L key v))"
  "keeps_all P (on_store s (KVStore_Delete L key))"
  "keeps_all P (on_store s (SetWritesEnabled L b))"
  "keeps_all P (on_store s (KVStore_Join L ip port sh rep))"
  "keeps_all P (on_store s (KVStore_DemoteVoter L ip port sh rep))"
  "keeps_all P (on_store s (KVStore_Close L))"
  by (rule keeps_on_store, erule (1) inv_set inv_delete inv_writes inv_join inv_demote inv_close)+

lemmas field_rules = inv_ring inv_flag inv_spawned

lemma keeps_replica_Put: "keeps_all P (replica_Put L req s)"
  unfolding replica_Put_def by (intro keeps_structure store_rules)

lemma keeps_replica_Delete: "keeps_all P (replica_Delete L req s)"
  unfolding replica_Delete_def by (intro keeps_structure store_rules)

lemma keeps_replica_PauseWrites: "keeps_all P (replica_PauseWrites L req s)"
  unfolding replica_PauseWrites_def by (intro keeps_structure store_rules)

lemma keeps_replica_RedistributeKeys: "keeps_all P (replica_RedistributeKeys L req s)"
  unfolding replica_RedistributeKeys_def by (intro keeps_structure field_rules)

lemma keeps_PopulateShardClients: "keeps_all P (PopulateShardClients L s shards)"
  unfolding PopulateShardClients_def
proof (intro keeps_bind_self)
  fix p
  assume p: "P s p"
  let ?ds = "map (\<lambda>d. (shard_Name d, host_port (shard_Name d) (flag_shardPort (flags p)))) shards"
  obtain r cs where cs: "populate_clients L ?ds (shardClients p) = (r, cs)" by fastforce
  have "P s (p\<lparr>shardClients := cs\<rparr>)"
    using populate_clients_bounds [OF cs] by (intro inv_shards p) auto
  then show "keeps_all P (case populate_clients L ?ds (shardClients p) of
      (r, cs) \<Rightarrow> bind_act (become s (p\<lparr>shardClients := cs\<rparr>)) (\<lambda>_. lift_outcome r))"
    by (simp add: cs keeps_structure)
qed

lemma keeps_ReloadConfig: "keeps_all P (ReloadConfig L s)"
  unfolding ReloadConfig_def by (intro keeps_structure field_rules keeps_PopulateShardClients)

lemma keeps_replica_ReloadConfig: "keeps_all P (replica_ReloadConfig L req s)"
  unfolding replica_ReloadConfig_def by (intro keeps_structure keeps_ReloadConfig)

lemma keeps_reload_replicas: "keeps_all P (reload_replicas L clients rs b)"
  by (induction rs arbitrary: b)
    (auto intro!: keeps keeps_bind keeps_client_call keeps_replica_ReloadConfig)

lemma keeps_replica_ResumeWrites: "keeps_all P (replica_ResumeWrites L req s)"
  unfolding replica_ResumeWrites_def by (intro keeps_structure store_rules keeps_reload_replicas)

lemma keeps_replica_Join: "keeps_all P (replica_Join L req s)"
  unfolding replica_Join_def by (intro keeps_structure store_rules)

lemma keeps_replica_Leader: "keeps_all P (replica_Leader L req s)"
  unfolding replica_Leader_def by (intro keeps_structure)

lemma keeps_replica_DemoteVoter: "keeps_all P (replica_DemoteVoter L req s)"
  unfolding replica_DemoteVoter_def by (intro keeps_structure store_rules)

lemmas replica_rules =
  keeps_replica_Put keeps_replica_Delete keeps_replica_PauseWrites keeps_replica_RedistributeKeys
  keeps_replica_ReloadConfig keeps_replica_ResumeWrites keeps_replica_Join keeps_replica_Leader
  keeps_replica_DemoteVoter

lemma keeps_forward: "(\<And>h. keeps_all P (handler h)) \<Longrightarrow> keeps_all P (forward_to_leader L s handler)"
  unfolding forward_to_leader_def by (intro keeps_structure)

lemma keeps_shard_Get: "keeps_all P (shard_Get req s)"
  unfolding shard_Get_def by (intro keeps_structure)

lemma keeps_shard_Put: "keeps_all P (shard_Put L req s)"
  unfolding shard_Put_def by (intro keeps_structure keeps_forward store_rules replica_rules)

lemma keeps_shard_Delete: "keeps_all P (shard_Delete L req s)"
  unfolding shard_Delete_def by (intro keeps_structure keeps_forward store_rules replica_rules)

lemma keeps_shard_PauseWrites: "keeps_all P (shard_PauseWrites L req s)"
  unfolding shard_PauseWrites_def by (intro keeps_forward replica_rules)

lemma keeps_shard_RedistributeKeys: "keeps_all P (shard_RedistributeKeys L req s)"
  unfolding shard_RedistributeKeys_def by (intro keeps_forward replica_rules)

lemma keeps_reload_all: "keeps_all P (reload_all L clients rs)"
  by (induction rs) (auto intro!: keeps keeps_bind keeps_client_call keeps_replica_ReloadConfig)

lemma keeps_shard_ResumeWrites: "keeps_all P (shard_ResumeWrites L req s)"
  unfolding shard_ResumeWrites_def by (intro keeps_structure keeps_reload_all replica_rules)

lemmas shard_rules =
  keeps_shard_Get keeps_shard_Put keeps_shard_Delete keeps_shard_PauseWrites
  keeps_shard_RedistributeKeys keeps_shard_ResumeWrites

lemma keeps_kv_Get: "keeps_all P (kv_Get L req s)"
  unfolding kv_Get_def via_shard_def by (intro keeps_structure shard_rules)

lemma keeps_kv_Put: "keeps_all P (kv_Put L req s)"
  unfolding kv_Put_def via_shard_def by (intro keeps_structure shard_rules)

lemma keeps_kv_Delete: "keeps_all P (kv_Delete L req s)"
  unfolding kv_Delete_def via_shard_def by (intro keeps_structure shard_rules)

lemma keeps_send_key: "keeps_all P (send_key L s loc key v)"
  unfolding send_key_def by (intro keeps_structure shard_rules)

lemma keeps_purge_key: "keeps_all P (purge_key L s key)"
  unfolding purge_key_def by (intro keeps_structure store_rules)

lemma keeps_redistribute_key: "keeps_all P (redistribute_key L s newCh key)"
  unfolding redistribute_key_def by (intro keeps_structure keeps_send_key keeps_purge_key)

lemma keeps_redistribute_loop: "keeps_all P (redistribute_keys_loop L s newCh ks)"
  by (induction ks) (auto intro!: keeps keeps_bind keeps_redistribute_key)

lemma keeps_set_redistributing: "keeps_all P (set_redistributing s b)"
  unfolding set_redistributing_def by (intro keeps_structure field_rules)

lemma keeps_RedistributeKeys: "keeps_all P (RedistributeKeys L s)"
  unfolding RedistributeKeys_def redistribute_under_def
  by (intro keeps_structure keeps_set_redistributing keeps_PopulateShardClients keeps_redistribute_loop)

lemma keeps_run_spawned: "keeps_all P (run_spawned L s)"
  unfolding run_spawned_def by (intro keeps_structure field_rules keeps_RedistributeKeys)

lemma keeps_ask_replicas: "keeps_all P (ask_replicas L p rs)"
  by (induction rs) (auto intro!: keeps keeps_bind keeps_client_call keeps_replica_Leader)

lemma keeps_leader_to_join: "keeps_all P (leader_to_join L p rs)"
proof -
  have "keeps_all P (\<lambda>w. case find_leader L p rs w of None \<Rightarrow> (Diverge, w) | Some res \<Rightarrow> res)"
    using find_leader_keeps_all [OF keeps_ask_replicas] by (auto simp: keeps_all_def split: option.splits)
  then show ?thesis unfolding leader_to_join_def by (intro keeps_structure)
qed

lemma keeps_await_logs: "keeps_all P (await_logs L s)"
  unfolding await_logs_def
proof (intro keeps_bind_self)
  fix p
  assume p: "P s p"
  have "P s (p\<lparr>kvStore := k\<rparr>)" if "wait_for_logs L (kvStore p) = Some (Return k)" for k
  proof (rule wait_for_logs_keeps [where Q = "\<lambda>k. P s (p\<lparr>kvStore := k\<rparr>)", OF _ _ that])
    show "P s (p\<lparr>kvStore := kvStore p\<rparr>)" using p by simp
  qed (use inv_node [of s "p\<lparr>kvStore := _\<rparr>"] inv_deliver [of s "p\<lparr>kvStore := _\<rparr>"] in simp_all)
  then show "keeps_all P (case wait_for_logs L (kvStore p) of None \<Rightarrow> diverge
      | Some (Return k) \<Rightarrow> become s (p\<lparr>kvStore := k\<rparr>) | Some Panic \<Rightarrow> panic | Some Diverge \<Rightarrow> diverge)"
    by (auto split: option.splits outcome.splits intro!: keeps_structure)
qed

lemma keeps_JoinCluster: "keeps_all P (JoinCluster L s rs)"
  unfolding JoinCluster_def
  by (intro keeps_structure keeps_leader_to_join keeps_await_logs replica_rules)

lemma keeps_PopulateReplicaClients: "keeps_all P (PopulateReplicaClients L s cfg)"
  unfolding PopulateReplicaClients_def
proof (intro keeps_bind_self)
  fix p
  assume p: "P s p"
  let ?ds = "map (\<lambda>d. (replica_id d (flag_shard (flags p)) (flag_raftPort (flags p)),
    replica_id d (flag_shard (flags p)) (flag_replicaPort (flags p)))) (own_replicas p cfg)"
  obtain r cs where cs: "populate_clients L ?ds (replicaClients p) = (r, cs)" by fastforce
  have "P s (p\<lparr>replicaClients := cs\<rparr>)"
    using populate_clients_bounds [OF cs] by (intro inv_replicas p) auto
  then show "keeps_all P (let replicas = own_replicas p cfg in
      case populate_clients L (map (\<lambda>d. (replica_id d (flag_shard (flags p)) (flag_raftPort (flags p)),
        replica_id d (flag_shard (flags p)) (flag_replicaPort (flags p)))) replicas) (replicaClients p) of
      (r, cs) \<Rightarrow> bind_act (become s (p\<lparr>replicaClients := cs\<rparr>)) (\<lambda>_.
        bind_act (lift_outcome r) (\<lambda>_. JoinCluster L s replicas)))"
    by (simp add: Let_def cs keeps_structure keeps_JoinCluster)
qed

lemma keeps_goroutine: "keeps_all P m \<Longrightarrow> keeps_all P (goroutine m)"
  by (auto simp: keeps_all_def goroutine_def split: prod.splits outcome.splits)

lemma keeps_start_server: "keeps_all P (start_server L s port svc)"
  unfolding start_server_def Let_def by (intro keeps_structure inv_servers)

lemma keeps_servers:
  "keeps_all P (StartShardRPCServer L s)" "keeps_all P (StartReplicaRPCServer L s)" "keeps_all P (StartKVRPCServer L s)"
  unfolding StartShardRPCServer_def StartReplicaRPCServer_def StartKVRPCServer_def
  by (intro keeps_bind_self keeps_start_server)+

lemma keeps_main_start:
  "(\<And>p. main_open L fl cfg b = Return p \<Longrightarrow> P s p) \<Longrightarrow> keeps_all P (main_start L s fl cfg b)"
  unfolding main_start_def
  by (intro keeps_structure keeps_goroutine keeps_PopulateShardClients keeps_PopulateReplicaClients keeps_servers)

lemma keeps_main_stop: "keeps_all P (main_stop L s)"
proof -
  have "keeps_all P (\<lambda>w. (Return (), crash s w))" by (simp add: keeps_all_def)
  then show ?thesis
    unfolding main_stop_def by (intro keeps_structure store_rules replica_rules)
qed

end

section \<open>Interpretations\<close>

definition store_reachable :: "('b, 'r, 'z) shard_lib_scheme \<Rightarrow> string \<Rightarrow> 'r process \<Rightarrow> bool" where
  "store_reachable L h p \<longleftrightarrow> kv_reach L (kvStore p)"

definition store_shared :: "string \<Rightarrow> 'r process \<Rightarrow> bool" where
  "store_shared h p \<longleftrightarrow> kv_shared (kvStore p)"

definition clients_wf :: "string \<Rightarrow> 'r process \<Rightarrow> bool" where
  "clients_wf h p \<longleftrightarrow>
     set (shardClients p) \<subseteq> range (\<lambda>n. (n, host_port n (flag_shardPort (flags p)))) \<and>
     set (replicaClients p) \<subseteq>
       range (\<lambda>d. (replica_id d (flag_shard (flags p)) (flag_raftPort (flags p)),
                   replica_id d (flag_shard (flags p)) (flag_replicaPort (flags p))))"

interpretation reach: process_invariant L "store_reachable L" for L
  by unfold_locales (auto simp: store_reachable_def intro: kv_reach.intros)

lemma kv_shared_node: "kv_shared k \<Longrightarrow> kv_shared (k\<lparr>kp_kv := (kp_kv k)\<lparr>raft := r\<rparr>\<rparr>)"
  by (simp add: kv_shared_def)

lemma kv_shared_deliver:
  "kv_shared k \<Longrightarrow> fsm_run L ds (kp_fsm k, kp_heap k) = Return (f, h) \<Longrightarrow> kv_shared (k\<lparr>kp_fsm := f, kp_heap := h\<rparr>)"
  using fsm_run_frame [of L ds "kp_fsm k" "kp_heap k" f h] fsm_run_inv [of L ds "(kp_fsm k, kp_heap k)" "(f, h)"]
  by (simp add: kv_shared_def)

interpretation shared: process_invariant L store_shared for L
  by unfold_locales
    (auto simp: store_shared_def kv_shared_node kv_shared_deliver dest: set_op.op_keeps_shared delete_op.op_keeps_shared
      set_writes.op_keeps_shared join_op.op_keeps_shared demote_op.op_keeps_shared close_op.op_keeps_shared)

interpretation clients: process_invariant L clients_wf for L
  by unfold_locales (auto simp: clients_wf_def)

end
