(* ===== verification/Shard_World.thy ===== *)
theory Shard_World
  imports Shard_Invariants
begin

text \<open>
  The step relation \<open>world_step\<close> collects everything that can happen to a world of shard
  processes: requests served at any process, goroutines, configuration files changing, Raft driving a
  state machine, processes starting, stopping and crashing, and the network changing.  Every store of
  a reachable world is reachable (\<open>reachable_stores\<close>).  The last section holds the rules that
  invert an action that returned, used by the proofs about handlers.
\<close>

section \<open>Everything that can happen\<close>

datatype request =
    KvGet GetRequest | KvPut PutRequest | KvDelete DeleteRequest
  | ShardGet GetRequest | ShardPut InternalPutRequest | ShardDelete DeleteRequest
  | ShardPauseWrites PauseWritesRequest | ShardRedistributeKeys RedistributeKeysRequest
  | ShardResumeWrites ResumeWritesRequest
  | ReplicaPut InternalPutRequest | ReplicaDelete DeleteRequest
  | ReplicaPauseWrites PauseWritesRequest | ReplicaRedistributeKeys RedistributeKeysRequest
  | ReplicaResumeWrites ResumeWritesRequest | ReplicaJoin JoinRequest | ReplicaLeader LeaderRequest
  | ReplicaDemoteVoter DemoteVoterRequest | ReplicaReloadConfig ReloadConfigRequest

definition ignore :: "('r, 'a) act \<Rightarrow> ('r, unit) act" where
  "ignore m = bind_act m (\<lambda>_. ret ())"

fun serve :: "('b, 'r, 'z) shard_lib_scheme \<Rightarrow> request \<Rightarrow> string \<Rightarrow> ('r, unit) act" where
  "serve L (KvGet r) s = ignore (kv_Get L r s)"
| "serve L (KvPut r) s = ignore (kv_Put L r s)"
| "serve L (KvDelete r) s = ignore (kv_Delete L r s)"
| "serve L (ShardGet r) s = ignore (shard_Get r s)"
| "serve L (ShardPut r) s = ignore (shard_Put L r s)"
| "serve L (ShardDelete r) s = ignore (shard_Delete L r s)"
| "serve L (ShardPauseWrites r) s = ignore (shard_PauseWrites L r s)"
| "serve L (ShardRedistributeKeys r) s = ignore (shard_RedistributeKeys L r s)"
| "serve L (ShardResumeWrites r) s = ignore (shard_ResumeWrites L r s)"
| "serve L (ReplicaPut r) s = ignore (replica_Put L r s)"
| "serve L (ReplicaDelete r) s = ignore (replica_Delete L r s)"
| "serve L (ReplicaPauseWrites r) s = ignore (replica_PauseWrites L r s)"
| "serve L (ReplicaRedistributeKeys r) s = ignore (replica_RedistributeKeys L r s)"
| "serve L (ReplicaResumeWrites r) s = ignore (replica_ResumeWrites L r s)"
| "serve L (ReplicaJoin r) s = ignore (replica_Join L r s)"
| "serve L (ReplicaLeader r) s = ignore (replica_Leader L r s)"
| "serve L (ReplicaDemoteVoter r) s = ignore (replica_DemoteVoter L r s)"
| "serve L (ReplicaReloadConfig r) s = ignore (replica_ReloadConfig L r s)"

definition set_store :: "string \<Rightarrow> 'r kvproc \<Rightarrow> 'r world \<Rightarrow> 'r world" where
  "set_store s k w = (case processes w s of None \<Rightarrow> w | Some p \<Rightarrow> set_process s (p\<lparr>kvStore := k\<rparr>) w)"

inductive world_step :: "('b, 'r, 'z) shard_lib_scheme \<Rightarrow> 'r world \<Rightarrow> 'r world \<Rightarrow> bool" for L where
  step_serve: "serve L req s w = (x, w') \<Longrightarrow> world_step L w w'"
| step_goroutine: "run_spawned L s w = (x, w') \<Longrightarrow> world_step L w w'"
| step_start: "main_start L s fl cfg b w = (x, w') \<Longrightarrow> world_step L w w'"
| step_stop: "main_stop L s w = (x, w') \<Longrightarrow> world_step L w w'"
| step_crash: "world_step L w (crash s w)"
| step_config: "processes w s = Some p \<Longrightarrow> world_step L w (set_process s (p\<lparr>configFile := c\<rparr>) w)"
| step_deliver: "processes w s = Some p \<Longrightarrow> k = kvStore p \<Longrightarrow>
     fsm_run L ds (kp_fsm k, kp_heap k) = Return (f, h) \<Longrightarrow>
     world_step L w (set_process s (p\<lparr>kvStore := k\<lparr>kp_fsm := f, kp_heap := h\<rparr>\<rparr>) w)"
| step_restore: "processes w s = Some p \<Longrightarrow> k = kvStore p \<Longrightarrow>
     KVFsm_Restore L rd (kp_fsm k, kp_heap k) = (e, f, h) \<Longrightarrow>
     world_step L w (set_process s (p\<lparr>kvStore := k\<lparr>kp_fsm := f, kp_heap := h\<rparr>\<rparr>) w)"
| step_node: "processes w s = Some p \<Longrightarrow> k = kvStore p \<Longrightarrow>
     world_step L w (set_process s (p\<lparr>kvStore := k\<lparr>kp_kv := (kp_kv k)\<lparr>raft := Some r\<rparr>\<rparr>\<rparr>) w)"
| step_network: "processes w' = processes w \<Longrightarrow> world_step L w w'"

definition reachable :: "('b, 'r, 'z) shard_lib_scheme \<Rightarrow> 'r world \<Rightarrow> bool" where
  "reachable L w \<longleftrightarrow> (\<exists>w0. processes w0 = (\<lambda>_. None) \<and> (world_step L)\<^sup>*\<^sup>* w0 w)"

lemma serve_keeps: "keeps_all (store_reachable L) (serve L req s)"
  unfolding ignore_def
  by (cases req)
    (auto simp: ignore_def intro!: keeps keeps_bind reach.keeps_kv_Get reach.keeps_kv_Put reach.keeps_kv_Delete
      reach.shard_rules reach.replica_rules)

lemma main_open_reachable: "main_open L fl cfg b = Return p \<Longrightarrow> store_reachable L s p"
  by (cases cfg)
    (auto simp: main_open_def store_reachable_def bind_outcome.simps new_ring_def Let_def
      split: if_splits sum.splits intro: kv_reach.reach_open [OF wf_empty_heap refl])

lemma store_step:
  assumes "all_procs (store_reachable L) w" and "processes w s = Some p" and "kv_reach L (kvStore p) \<Longrightarrow> kv_reach L k"
  shows "all_procs (store_reachable L) (set_process s (p\<lparr>kvStore := k\<rparr>) w)"
  by (rule all_procs_upd(1) [OF assms(1)]) (use assms all_procsD [OF assms(1,2)] in \<open>simp add: store_reachable_def\<close>)

lemma world_step_keeps: "world_step L w w' \<Longrightarrow> all_procs (store_reachable L) w \<Longrightarrow> all_procs (store_reachable L) w'"
proof (induction rule: world_step.induct)
  case (step_start s fl cfg b w x w')
  have "keeps_all (store_reachable L) (main_start L s fl cfg b)"
    by (rule reach.keeps_main_start) (rule main_open_reachable)
  then show ?case using step_start by (blast dest: keeps_allD)
next
  case (step_deliver w s p k ds f h)
  then show ?case
    using kv_reach.reach_deliver [of L k ds f h] by (intro store_step) auto
next
  case (step_restore w s p k rd e f h)
  then show ?case
    using kv_reach.reach_restore [of L k rd e f h] by (intro store_step) auto
next
  case (step_node w s p k r)
  then show ?case
    using kv_reach.reach_node [of L k r] by (intro store_step) auto
next
  case (step_network w' w)
  then show ?case by (simp add: all_procs_def)
next
  case (step_config w s p c)
  then show ?case using reach.inv_config all_procsD all_procs_upd(1) by blast
qed (auto dest: keeps_allD [OF serve_keeps] keeps_allD [OF reach.keeps_run_spawned]
       keeps_allD [OF reach.keeps_main_stop])

lemma reachable_stores: "reachable L w \<Longrightarrow> all_procs (store_reachable L) w"
proof -
  have "(world_step L)\<^sup>*\<^sup>* w0 w \<Longrightarrow> all_procs (store_reachable L) w0 \<Longrightarrow> all_procs (store_reachable L) w" for w0
    by (induction rule: rtranclp_induct) (auto intro: world_step_keeps)
  then show "reachable L w \<Longrightarrow> ?thesis"
    by (fastforce simp: reachable_def all_procs_def)
qed

lemma reachable_flag: "reachable L w \<Longrightarrow> processes w s = Some p \<Longrightarrow> \<not> GetWritesEnabled (kvStore p)"
  using reachable_stores [of L w] kv_reach_flag [of L "kvStore p"]
  by (auto simp: store_reachable_def dest: all_procsD)

section \<open>Inverting actions\<close>

lemma bind_act_Return [act_simps]:
  "bind_act m f w = (Return y, w') \<longleftrightarrow> (\<exists>x w1. m w = (Return x, w1) \<and> f x w1 = (Return y, w'))"
  by (auto simp: bind_act_def split: prod.splits outcome.splits)

lemma self_Return [act_simps]: "self s w = (Return p, w') \<longleftrightarrow> processes w s = Some p \<and> w' = w"
  by (auto simp: self_def split: option.splits)

lemma ret_Return [act_simps]: "ret x w = (Return y, w') \<longleftrightarrow> y = x \<and> w' = w"
  by (auto simp: ret_def)

lemma lift_Return [act_simps]: "lift_outcome x w = (Return y, w') \<longleftrightarrow> x = Return y \<and> w' = w"
  by (auto simp: lift_outcome_def)

lemma stop_Return [act_simps]: "panic w \<noteq> (Return y, w')" "diverge w \<noteq> (Return y, w')"
  by (auto simp: panic_def diverge_def)

lemma become_Return [act_simps]: "become s p w = (Return y, w') \<longleftrightarrow> w' = set_process s p w"
  by (auto simp: become_def)

lemma on_store_Return [act_simps]:
  "on_store s op w = (Return x, w') \<longleftrightarrow>
     (\<exists>p k. processes w s = Some p \<and> op (kvStore p) = Return (x, k) \<and> w' = set_process s (p\<lparr>kvStore := k\<rparr>) w)"
  by (cases "processes w s")
    (auto simp: on_store_def bind_act_def self_def become_def ret_def panic_def diverge_def
      split: outcome.splits prod.splits)

lemma rpc_Inr:
  "rpc target handler w = (Return (Inr x), w') \<Longrightarrow>
   \<exists>host. route w (clock w) target = Some host \<and> handler host (w\<lparr>clock := Suc (clock w)\<rparr>) = (Return (Inr x), w')"
  by (auto simp: rpc_def Let_def status_result_def
      split: option.splits fate.splits prod.splits outcome.splits sum.splits if_splits)

lemma client_call_Inr:
  "client_call clients key handler w = (Return (Inr x), w') \<Longrightarrow>
   \<exists>target host. map_of clients key = Some target \<and> route w (clock w) target = Some host \<and>
     processes w host \<noteq> None \<and> handler host (w\<lparr>clock := Suc (clock w)\<rparr>) = (Return (Inr x), w')"
  by (auto simp: client_call_def rpc_def Let_def status_result_def panic_def
      split: option.splits fate.splits prod.splits outcome.splits sum.splits if_splits)

lemma processes_set [simp]:
  "processes (set_process s p w) = (processes w)(s \<mapsto> p)" "route (set_process s p w) = route w"
  "clock (set_process s p w) = clock w" "rpc_fate (set_process s p w) = rpc_fate w"
  "unavailable (set_process s p w) = unavailable w"
  by (simp_all add: set_process_def)

end
