(* ===== verification/Demo_World.thy ===== *)
theory Demo_World
  imports Shard_World
begin

text \<open>
  A concrete world for evaluating the handlers: two shards with one replica each, started by
  \<open>main\<close> from a configuration in which the store grows from the shard \<open>s-0\<close> to \<open>s-0\<close> and
  \<open>s-1\<close>; names resolve, and no call is lost.  Keys are located by their length.
\<close>

definition demo_shard_lib :: "(wire, demo_node) shard_lib" where
  "demo_shard_lib =
     raft_lib.extend (demo_lib None)
       (shard_lib.fields (\<lambda>ms. ms \<noteq> [])
          (\<lambda>ms k. if ms = [] then None else Some (ms ! (length k mod length ms)))
          (\<lambda>xs. xs) (\<lambda>_ _. True) (\<lambda>_. None) (\<lambda>r. ([], r)))"

lemma demo_shard_lib_simps [simp]:
  "ring_ok demo_shard_lib ms \<longleftrightarrow> ms \<noteq> []"
  "LocateKey demo_shard_lib ms k = (if ms = [] then None else Some (ms ! (length k mod length ms)))"
  "range_order demo_shard_lib xs = xs"
  "dial_ok demo_shard_lib t n" "net_Listen demo_shard_lib t = None"
  "raft_wait demo_shard_lib r = ([], r)"
  "marshal_entry demo_shard_lib m = Inr (WEntry m)" "unmarshal_entry demo_shard_lib (WEntry m) = Inr m"
  "NewBoltStore demo_shard_lib pa = None" "NewFileSnapshotStore demo_shard_lib pa n = None"
  "ResolveTCPAddr demo_shard_lib a = Inr a" "NewTCPTransport demo_shard_lib a b tc = Inr a"
  "NewRaft demo_shard_lib c = Inr (\<lparr>dn_role = Leader, dn_leader = LocalID c, dn_servers = []\<rparr>, None)"
  "BootstrapCluster demo_shard_lib r ss = (None, r\<lparr>dn_servers := ss\<rparr>)"
  "raft_State demo_shard_lib = dn_role"
  "dn_role r = Leader \<Longrightarrow> raft_Apply demo_shard_lib r d = (None, [d], r)"
  "raft_GetConfiguration demo_shard_lib r = Inr (dn_servers r)"
  "raft_LeaderWithID demo_shard_lib r = ([], dn_leader r)"
  "raft_AppliedIndex demo_shard_lib r = 0" "raft_LastIndex demo_shard_lib r = 0"
  by (simp_all add: demo_shard_lib_def demo_lib_def raft_lib.defs shard_lib.defs wire_codec_def)

lemma demo_shard_lib_ok [simp]:
  "entry_codec_ok demo_shard_lib" "raft_apply_ok demo_shard_lib" "raft_membership_ok demo_shard_lib"
  "range_ok demo_shard_lib" "locate_ok demo_shard_lib"
  using demo_lib_ok(1,3) [of None] demo_membership_ok [of None]
  by (simp_all add: demo_shard_lib_def demo_lib_def raft_lib.defs shard_lib.defs entry_codec_ok_def
      raft_apply_ok_def raft_membership_ok_def range_ok_def locate_ok_def)

definition demo_flags :: "string \<Rightarrow> flags" where
  "demo_flags sh = default_flags
     \<lparr>flag_address := ''10.0.0.1'', flag_shard := sh, flag_replica := ''r-0'', flag_shouldBootstrap := True\<rparr>"

definition demo_shard :: "string \<Rightarrow> KVStoreShard" where
  "demo_shard sh = \<lparr>shard_Name = sh, shard_Replicas = [''r-0'']\<rparr>"

definition demo_config :: KVStoreConfig where
  "demo_config =
     \<lparr>config_Shards = [demo_shard ''s-0''], config_NewShards = [demo_shard ''s-0'', demo_shard ''s-1'']\<rparr>"

definition demo_store :: "string \<Rightarrow> gomap \<Rightarrow> demo_node kvproc" where
  "demo_store sh m =
     \<lparr>kp_kv = \<lparr>raft = Some \<lparr>dn_role = Leader, dn_leader = replica_id ''r-0'' sh 8082,
          dn_servers = [\<lparr>server_ID = replica_id ''r-0'' sh 8082, server_Address = host_port ''10.0.0.1'' 8082\<rparr>]\<rparr>,
        lastSnapshotIndex = 0, store = Some 0, writesEnabled = False\<rparr>,
      kp_fsm = NewKVFsm (Some 0), kp_heap = \<lparr>heap_maps = (\<lambda>_. [])(0 := m), heap_next = 1\<rparr>\<rparr>"

definition demo_process :: "string \<Rightarrow> gomap \<Rightarrow> demo_node process" where
  "demo_process sh m =
     \<lparr>flags = demo_flags sh, configFile = Parsed demo_config, ch = Some [''s-0''],
      shardClients = [(''s-0'', host_port ''s-0'' 8081), (''s-1'', host_port ''s-1'' 8081)],
      replicaClients = [(replica_id ''r-0'' sh 8082, replica_id ''r-0'' sh 8083)],
      kvStore = demo_store sh m, redistributingKeys = False, spawned = 0,
      servers = [(host_port [] 8081, ShardRPC), (host_port [] 8083, ReplicaRPC), (host_port [] 8080, KV)]\<rparr>"

definition demo_route :: "nat \<Rightarrow> string \<Rightarrow> string option" where
  "demo_route n t =
     (if t = ''s-0:8081'' \<or> t = ''r-0.s-0:8083'' then Some ''r-0.s-0''
      else if t = ''s-1:8081'' \<or> t = ''r-0.s-1:8083'' then Some ''r-0.s-1''
      else None)"

definition demo_world :: "gomap \<Rightarrow> gomap \<Rightarrow> demo_node world" where
  "demo_world m0 m1 =
     \<lparr>processes = [''r-0.s-0'' \<mapsto> demo_process ''s-0'' m0, ''r-0.s-1'' \<mapsto> demo_process ''s-1'' m1],
      route = demo_route, rpc_fate = (\<lambda>_. Served None), unavailable = StatusErr ''Unavailable'' [], clock = 0\<rparr>"

definition demo_empty :: "demo_node world" where
  "demo_empty = (demo_world [] [])\<lparr>processes := Map.empty, route := (\<lambda>_ _. None)\<rparr>"

lemma demo_main_open:
  "main_open demo_shard_lib (demo_flags sh) (Parsed demo_config) False =
   Return ((demo_process sh [])\<lparr>shardClients := [], replicaClients := [], servers := []\<rparr>)"
  by (simp add: main_open_def new_ring_def Let_def KVStore_Open_def SetupRaft_def NewKVStore_def map_new_def
      empty_heap_def demo_process_def demo_store_def demo_config_def demo_shard_def demo_flags_def
      default_flags_def setup_config_def fun_eq_iff)

lemma demo_dial [simp]: "dial_loop (dial_ok demo_shard_lib t) n = Some n"
  by (subst dial_loop.simps) simp

lemma demo_wait [simp]: "wait_for_logs demo_shard_lib (demo_store sh m) = Some (Return (demo_store sh m))"
  by (subst wait_for_logs.simps) (simp add: HasLatestLogs_def demo_store_def)

lemma demo_fields [simp]:
  "flag_shard (demo_flags sh) = sh" "flag_replica (demo_flags sh) = ''r-0''"
  "flag_address (demo_flags sh) = ''10.0.0.1''" "flag_raftPort (demo_flags sh) = 8082"
  "flag_replicaPort (demo_flags sh) = 8083" "flag_shardPort (demo_flags sh) = 8081"
  "config_Shards demo_config = [demo_shard ''s-0'']"
  "config_NewShards demo_config = [demo_shard ''s-0'', demo_shard ''s-1'']"
  "shard_Name (demo_shard sh) = sh" "shard_Replicas (demo_shard sh) = [''r-0'']"
  "flags (demo_process sh m) = demo_flags sh" "configFile (demo_process sh m) = Parsed demo_config"
  "ch (demo_process sh m) = Some [''s-0'']" "kvStore (demo_process sh m) = demo_store sh m"
  "flag_kvPort (demo_flags sh) = 8080"
  "redistributingKeys (demo_process sh m) = False" "spawned (demo_process sh m) = 0"
  "shardClients (demo_process sh m) = [(''s-0'', host_port ''s-0'' 8081), (''s-1'', host_port ''s-1'' 8081)]"
  "replicaClients (demo_process sh m) = [(replica_id ''r-0'' sh 8082, replica_id ''r-0'' sh 8083)]"
  by (simp_all add: demo_flags_def default_flags_def demo_config_def demo_shard_def demo_process_def)

lemma demo_process_complete:
  "(demo_process sh m)\<lparr>
     shardClients := [(''s-0'', host_port ''s-0'' 8081), (''s-1'', host_port ''s-1'' 8081)],
     replicaClients := [(replica_id ''r-0'' sh 8082, replica_id ''r-0'' sh 8083)],
     kvStore := demo_store sh m,
     servers := [(host_port [] 8081, ShardRPC), (host_port [] 8083, ReplicaRPC), (host_port [] 8080, KV)]\<rparr> = demo_process sh m"
  by (simp add: demo_process_def)

lemma demo_leader [simp]: "KVStore_Leader demo_shard_lib (demo_store sh m) = Return (replica_id ''r-0'' sh 8082)"
  by (simp add: KVStore_Leader_def demo_store_def)

lemma replica_id_nonempty [simp]: "replica_id r sh port \<noteq> []"
  by (simp add: replica_id_def)

lemma demo_main_start:
  assumes "sh = ''s-0'' \<or> sh = ''s-1''" and "\<And>n t. route w n t = None"
  shows "\<exists>w'. main_start demo_shard_lib h (demo_flags sh) (Parsed demo_config) False w = (Return (), w') \<and>
    processes w' = (processes w)(h \<mapsto> demo_process sh []) \<and> route w' = route w"
  using assms demo_process_complete [of sh "[]"]
  by (auto simp: main_start_def demo_main_open bind_act_def lift_outcome_def become_def ReadConfig_def
      goroutine_def PopulateShardClients_def PopulateReplicaClients_def self_def JoinCluster_def
      leader_to_join_def await_logs_def client_call_def rpc_def Let_def own_replicas_def ret_def
      StartShardRPCServer_def StartReplicaRPCServer_def StartKVRPCServer_def start_server_def set_process_def)

lemma demo_reachable [simp]: "reachable demo_shard_lib (demo_world [] [])"
proof -
  let ?L = demo_shard_lib
  obtain w1 where 1: "main_start ?L ''r-0.s-0'' (demo_flags ''s-0'') (Parsed demo_config) False demo_empty = (Return (), w1)"
    "processes w1 = [''r-0.s-0'' \<mapsto> demo_process ''s-0'' []]" "route w1 = (\<lambda>_ _. None)"
    using demo_main_start [of "''s-0''" demo_empty "''r-0.s-0''"] by (auto simp: demo_empty_def)
  obtain w2 where 2: "main_start ?L ''r-0.s-1'' (demo_flags ''s-1'') (Parsed demo_config) False w1 = (Return (), w2)"
    "processes w2 = [''r-0.s-0'' \<mapsto> demo_process ''s-0'' [], ''r-0.s-1'' \<mapsto> demo_process ''s-1'' []]"
    using demo_main_start [of "''s-1''" w1 "''r-0.s-1''"] 1(2,3) by auto
  have "world_step ?L w2 (demo_world [] [])" by (rule step_network) (simp add: 2(2) demo_world_def)
  moreover have "world_step ?L demo_empty w1" "world_step ?L w1 w2"
    by (rule step_start [OF 1(1)], rule step_start [OF 2(1)])
  ultimately have "(world_step ?L)\<^sup>*\<^sup>* demo_empty (demo_world [] [])"
    by (blast intro: converse_rtranclp_into_rtranclp)
  moreover have "processes demo_empty = (\<lambda>_. None)" by (simp add: demo_empty_def)
  ultimately show ?thesis unfolding reachable_def by blast
qed

lemma demo_processes [simp]:
  "processes (demo_world m0 m1) ''r-0.s-0'' = Some (demo_process ''s-0'' m0)"
  "processes (demo_world m0 m1) ''r-0.s-1'' = Some (demo_process ''s-1'' m1)"
  "processes (demo_world m0 m1) h \<noteq> None \<longleftrightarrow> h = ''r-0.s-0'' \<or> h = ''r-0.s-1''"
  "route (demo_world m0 m1) = demo_route" "rpc_fate (demo_world m0 m1) n = Served None"
  "unavailable (demo_world m0 m1) = StatusErr ''Unavailable'' []" "clock (demo_world m0 m1) = 0"
  by (auto simp: demo_world_def)

lemma demo_targets [simp]:
  "demo_route n (host_port ''s-0'' 8081) = Some ''r-0.s-0''"
  "demo_route n (host_port ''s-1'' 8081) = Some ''r-0.s-1''"
  "demo_route n (replica_id ''r-0'' ''s-0'' 8083) = Some ''r-0.s-0''"
  "demo_route n (replica_id ''r-0'' ''s-1'' 8083) = Some ''r-0.s-1''"
  by (simp_all add: demo_route_def host_port_def replica_id_def render_simps)

lemma demo_Set [simp]:
  "KVStore_Set demo_shard_lib key v (demo_store sh m) = Return (None, demo_store sh (AList.update key v m))"
  by (simp add: KVStore_Set_def raft_apply_entry_def KVFsm_Apply_def apply_entry_set demo_store_def NewKVFsm_def
      fun_eq_iff)

lemma demo_Delete [simp]:
  "KVStore_Delete demo_shard_lib key (demo_store sh m) = Return (None, demo_store sh (AList.delete key m))"
  by (simp add: KVStore_Delete_def raft_apply_entry_def KVFsm_Apply_def apply_entry_delete demo_store_def NewKVFsm_def
      fun_eq_iff)

lemma demo_Get [simp]:
  "KVStore_Get key (demo_store sh m) = (case map_of m key of Some v \<Rightarrow> Inr v | None \<Rightarrow> Inl KeyNotFound)"
  by (simp add: KVStore_Get_def demo_store_def)

lemma demo_Keys [simp]: "KVStore_Keys (demo_store sh m) = map fst m"
  by (simp add: KVStore_Keys_def demo_store_def)

lemma demo_kv_shared [simp]: "kv_shared (demo_store sh m) \<longleftrightarrow> wf_map m"
  by (auto simp: kv_shared_def demo_store_def fsm_inv_def NewKVFsm_def wf_heap_def valid_ref_def)

lemma demo_shared [simp]: "all_procs store_shared (demo_world m0 m1) \<longleftrightarrow> wf_map m0 \<and> wf_map m1"
  by (auto simp: all_procs_def store_shared_def demo_world_def)

lemma demo_become [simp]: "(demo_process sh m)\<lparr>kvStore := demo_store sh m'\<rparr> = demo_process sh m'"
  by (simp add: demo_process_def)

lemma demo_set_process [simp]:
  "set_process ''r-0.s-0'' (demo_process ''s-0'' m) ((demo_world m0 m1)\<lparr>clock := n\<rparr>) = (demo_world m m1)\<lparr>clock := n\<rparr>"
  "set_process ''r-0.s-1'' (demo_process ''s-1'' m) ((demo_world m0 m1)\<lparr>clock := n\<rparr>) = (demo_world m0 m)\<lparr>clock := n\<rparr>"
  by (auto simp: set_process_def demo_world_def fun_eq_iff)

lemmas demo_eval = bind_act_def self_def lift_outcome_def become_def ret_def on_store_def client_call_def
  rpc_def Let_def status_result_def locate_def

end
