(* ===== verification/Demo_Operator.thy ===== *)
theory Demo_Operator
  imports Kvctl_Controller Demo_World
begin

text \<open>
  A concrete operator for evaluating reconciliations: the resource \<open>s\<close> in the namespace \<open>default\<close>,
  with one replica per shard, an API server whose faults and objects are arguments, and a rendering of
  configurations.
\<close>

text \<open>The rendering lists the shard names, then the new ones.\<close>

definition demo_yaml :: "KVStoreConfig \<Rightarrow> string" where
  "demo_yaml c = concat (map shard_Name (config_Shards c)) @ ''/'' @ concat (map shard_Name (config_NewShards c))"

definition demo_kvctl_lib :: "(wire, demo_node) kvctl_lib" where
  "demo_kvctl_lib = shard_lib.extend demo_shard_lib (kvctl_lib.fields (\<lambda>c. Inr (demo_yaml c)) (\<lambda>gv. gv_Group gv @ ''/'' @ gv_Version gv)
     (\<lambda>e. case e of StatusErr c m \<Rightarrow> c = ''NotFound'' | _ \<Rightarrow> False)
     (\<lambda>kv m. Inr (m\<lparr>meta_Controller := Some \<lparr>owner_APIVersion = ''kvctl.captainirs.dev/v1'', owner_Kind = ''KVStore'',
        owner_Name = meta_Name (store_Meta kv)\<rparr>\<rparr>))
     verb_Get_KVStore verb_Status_Update (verb_List ss_Meta api_sets)
     (verb_Create ss_Meta api_sets put_sets) (verb_Update ss_Meta api_sets put_sets) (verb_Delete ss_Meta api_sets put_sets)
     (verb_List svc_Meta api_services) (verb_Create svc_Meta api_services put_services) (verb_Delete svc_Meta api_services put_services)
     (verb_List ing_Meta api_ingresses) (verb_Create ing_Meta api_ingresses put_ingresses)
     (verb_Delete ing_Meta api_ingresses put_ingresses)
     verb_Get_ConfigMap (verb_Create cm_Meta api_configs put_configs) (verb_Update cm_Meta api_configs put_configs))"

lemma demo_kvctl_lib_simps [simp]:
  "yaml_Marshal demo_kvctl_lib c = Inr (demo_yaml c)" "kube_ok demo_kvctl_lib" "reference_ok demo_kvctl_lib"
  "\<not> IsNotFound demo_kvctl_lib KeyNotFound"
  by (simp_all add: demo_kvctl_lib_def shard_lib.defs kvctl_lib.defs kube_ok_def reference_ok_def controlled_by_def apiGVStr_def
      kvctl_GroupVersion_def NotFoundErr_def)

lemma demo_kvctl_fields [simp]:
  "ring_ok demo_kvctl_lib = ring_ok demo_shard_lib" "LocateKey demo_kvctl_lib = LocateKey demo_shard_lib"
  "range_order demo_kvctl_lib = range_order demo_shard_lib" "dial_ok demo_kvctl_lib = dial_ok demo_shard_lib"
  "raft_LeaderWithID demo_kvctl_lib = raft_LeaderWithID demo_shard_lib"
  by (simp_all add: demo_kvctl_lib_def shard_lib.defs kvctl_lib.defs)

lemma demo_kvctl_ok [simp]: "range_ok demo_kvctl_lib" "locate_ok demo_kvctl_lib"
  using demo_shard_lib_ok(4,5) by (simp_all add: range_ok_def locate_ok_def)

definition demo_status :: "RedistributionPhase \<Rightarrow> int \<Rightarrow> int \<Rightarrow> KVStoreStatus" where
  "demo_status ph cur tgt = \<lparr>status_Phase = ph, status_CurrentShards = cur, status_TargetShards = tgt,
     status_Message = [], status_LastTransition = 0\<rparr>"

definition demo_resource :: "string_map \<Rightarrow> 32 word \<Rightarrow> KVStoreStatus \<Rightarrow> KVStoreResource" where
  "demo_resource labels sh st =
     \<lparr>store_Meta = \<lparr>meta_Name = ''s'', meta_Namespace = ''default'', meta_Labels = labels, meta_Annotations = [],
        meta_Controller = None\<rparr>,
      store_Spec = \<lparr>spec_Shards = sh, spec_Replicas = 1, spec_IngressDomain = ''localho.st'', spec_PodSpec = []\<rparr>,
      store_Status = st\<rparr>"

definition demo_system :: "(nat \<Rightarrow> err option) \<Rightarrow> KVStoreResource option \<Rightarrow> StatefulSet list \<Rightarrow> demo_node system" where
  "demo_system faults k sets =
     \<lparr>api_store = k, api_sets = sets, api_services = [], api_ingresses = [], api_configs = [], api_fault = faults,
      api_clock = 0, now = 0, shard_world = demo_world [] []\<rparr>"

lemma demo_resource_simps [simp]:
  "kv_name (demo_resource labels sh st) = ''s''" "kv_ns (demo_resource labels sh st) = ''default''"
  "meta_Labels (store_Meta (demo_resource labels sh st)) = labels"
  "spec_Shards (store_Spec (demo_resource labels sh st)) = sh" "spec_Replicas (store_Spec (demo_resource labels sh st)) = 1"
  "store_Status (demo_resource labels sh st) = st"
  "status_Phase (demo_status ph cur tgt) = ph" "status_CurrentShards (demo_status ph cur tgt) = cur"
  "status_TargetShards (demo_status ph cur tgt) = tgt"
  by (simp_all add: demo_resource_def demo_status_def)

lemma demo_system_simps [simp]:
  "api_store (demo_system faults k sets) = k" "api_sets (demo_system faults k sets) = sets"
  "api_services (demo_system faults k sets) = []" "api_ingresses (demo_system faults k sets) = []"
  "api_configs (demo_system faults k sets) = []" "api_fault (demo_system faults k sets) = faults"
  "api_clock (demo_system faults k sets) = 0" "now (demo_system faults k sets) = 0"
  "shard_world (demo_system faults k sets) = demo_world [] []"
  by (simp_all add: demo_system_def)

end
