(* ===== verification/Kvctl_Phases.thy ===== *)
theory Kvctl_Phases
  imports Demo_Operator
begin

text \<open>
  How a reconciliation may change the resource.  The locale \<open>step_relation\<close> is the interface the
  reconciler's building blocks are checked against: a reflexive and transitive relation between the
  system before and after.  It is interpreted with the relation that allows the stored resource to
  change only in its status, and there only to given values; with it every function of the reconciler
  is bounded, whatever API calls fail and whatever shards answer.  The theorem: the phase and the two
  shard counts move along the transitions of \<open>scale_step\<close> only.
\<close>

named_theorems within \<open>introduction rules: a program stays within a step relation\<close>

definition within_rel :: "('s \<Rightarrow> 's \<Rightarrow> bool) \<Rightarrow> ('s, 'a) prog \<Rightarrow> bool" where
  "within_rel R m \<longleftrightarrow> (\<forall>c. R c (snd (m c)))"

lemma within_relD: "within_rel R m \<Longrightarrow> m c = (x, c') \<Longrightarrow> R c c'"
  by (auto simp: within_rel_def dest: spec [of _ c])

locale step_relation =
  fixes R :: "'r system \<Rightarrow> 'r system \<Rightarrow> bool"
  assumes R_refl: "R c c" and R_trans: "R a b \<Longrightarrow> R b c \<Longrightarrow> R a c"
begin

lemma within_ret: "within_rel R (ret x)" "within_rel R diverge" "within_rel R read_now"
  by (simp_all add: within_rel_def ret_def diverge_def read_now_def R_refl)

lemma within_bind:
  assumes "within_rel R m" and "\<And>x. within_rel R (f x)"
  shows "within_rel R (bind_act m f)"
  unfolding within_rel_def
proof
  fix c
  obtain x c1 where m: "m c = (x, c1)" by fastforce
  have "R c c1" using assms(1) m by (rule within_relD)
  moreover have "R c1 (snd (f y c1))" for y using assms(2) by (simp add: within_rel_def)
  ultimately show "R c (snd (bind_act m f c))"
    using m by (auto simp: bind_act_def split: outcome.splits intro: R_trans)
qed

lemma within_cases:
  "(\<And>x. within_rel R (f x)) \<Longrightarrow> (\<And>x. within_rel R (g x)) \<Longrightarrow>
     within_rel R (case y of Inl x \<Rightarrow> f x | Inr x \<Rightarrow> g x)"
  "(b \<Longrightarrow> within_rel R m) \<Longrightarrow> (\<not> b \<Longrightarrow> within_rel R n) \<Longrightarrow> within_rel R (if b then m else n)"
  "within_rel R m \<Longrightarrow> (\<And>x. within_rel R (h x)) \<Longrightarrow>
     within_rel R (case z of None \<Rightarrow> m | Some x \<Rightarrow> h x)"
  by (simp_all split: sum.splits option.splits)

lemma within_bind_ok: "within_rel R m \<Longrightarrow> (\<And>x. within_rel R (f x)) \<Longrightarrow> within_rel R (bind_ok m f)"
  unfolding bind_ok_def by (intro within_bind within_cases within_ret)

lemma within_for_each: "(\<And>i. within_rel R (body i)) \<Longrightarrow> within_rel R (for_each body is)"
  by (induction "is") (auto intro!: within_ret within_bind_ok)

lemma within_delete_groups:
  "(\<And>x. within_rel R (delete x)) \<Longrightarrow> within_rel R (delete_groups meta delete groups xs)"
  by (induction xs) (auto intro!: within_ret within_bind_ok)

lemmas within_rules = within_ret within_cases within_bind within_bind_ok within_for_each within_delete_groups

end

section \<open>Only the status changes, within limits\<close>

definition status_within :: "KVStoreStatus set \<Rightarrow> 'r system \<Rightarrow> 'r system \<Rightarrow> bool" where
  "status_within S c c' \<longleftrightarrow>
     api_store c' = api_store c \<or>
     (\<exists>st \<in> S. api_store c' = map_option (\<lambda>k. k\<lparr>store_Status := st\<rparr>) (api_store c))"

interpretation status: step_relation "status_within S" for S
proof
  fix a b c :: "'a system"
  show "status_within S c c" by (simp add: status_within_def)
  show "status_within S a c" if "status_within S a b" and "status_within S b c"
    using that by (auto simp: status_within_def option.map_comp o_def)
qed

lemma status_api_call:
  assumes "\<And>c. api_store (snd (f c)) = api_store c"
  shows "within_rel (status_within S) (api_call f)"
proof -
  have "api_store (snd (api_call f c)) = api_store c" for c
    using assms [of "c\<lparr>api_clock := Suc (api_clock c)\<rparr>"]
    by (auto simp: api_call_alt Let_def split: option.splits prod.splits)
  then show ?thesis by (simp add: within_rel_def status_within_def)
qed

lemma store_result_store:
  "(\<And>xs c. api_store (put xs c) = api_store c) \<Longrightarrow> api_store (snd (store_result put c r)) = api_store c"
  by (simp add: store_result_def split: sum.splits)

lemma put_store:
  "api_store (put_sets a c) = api_store c" "api_store (put_services b c) = api_store c"
  "api_store (put_ingresses d c) = api_store c" "api_store (put_configs e c) = api_store c"
  by (simp_all add: put_sets_def put_services_def put_ingresses_def put_configs_def)

lemma status_verbs:
  assumes "kube_ok K"
  shows "within_rel (status_within S) (create_set K x1)" "within_rel (status_within S) (update_set K x1)"
    "within_rel (status_within S) (delete_set K x1)" "within_rel (status_within S) (create_service K x2)"
    "within_rel (status_within S) (delete_service K x2)" "within_rel (status_within S) (create_ingress K x3)"
    "within_rel (status_within S) (delete_ingress K x3)" "within_rel (status_within S) (create_config K x4)"
    "within_rel (status_within S) (update_config K x4)" "within_rel (status_within S) (get_config K ns name)"
    "within_rel (status_within S) (list_sets K ns name)" "within_rel (status_within S) (list_services K ns name)"
    "within_rel (status_within S) (list_ingresses K ns name)"
  unfolding kube_calls [OF assms]
  by (rule status_api_call, simp add: store_result_store put_store split: option.splits)+

lemma status_status_update: "kube_ok K \<Longrightarrow> store_Status kv \<in> S \<Longrightarrow> within_rel (status_within S) (status_update K kv)"
  by (auto simp: within_rel_def status_within_def kube_calls api_call_alt Let_def split: option.splits)

lemma status_lists:
  assumes "kube_ok K"
  shows "within_rel (status_within S) (GetShards K kv)" "within_rel (status_within S) (GetServices K kv)"
    "within_rel (status_within S) (GetIngresses K kv)"
  unfolding GetShards_def GetServices_def GetIngresses_def
  by (intro status.within_rules status_verbs assms)+

lemma status_on_world: "within_rel (status_within S) (on_world m)"
  by (simp add: within_rel_def status_within_def on_world_def split: prod.splits)

lemma status_call_shard: "within_rel (status_within S) (call_shard K shard handler)"
  unfolding call_shard_def GetShardClient_def Let_def by (intro status.within_rules status_on_world)

lemma status_transition:
  "kube_ok K \<Longrightarrow> (\<And>t. store_Status (enter_phase ph msg t kv) \<in> S) \<Longrightarrow> within_rel (status_within S) (transition K ph msg kv)"
  unfolding transition_def by (intro status.within_rules status_status_update)

lemma status_UpdateConfigMap: "kube_ok K \<Longrightarrow> within_rel (status_within S) (UpdateConfigMap K kv)"
  unfolding UpdateConfigMap_def by (intro status.within_rules status_verbs)

lemma status_spin_up:
  assumes "kube_ok K"
  shows "within_rel (status_within S) (SpinUpShards K kv)" "within_rel (status_within S) (SpinUpShardIngresses K kv)"
    "within_rel (status_within S) (SpinUpShardServices K kv)"
  unfolding SpinUpShards_def SpinUpShardIngresses_def SpinUpShardServices_def spin_up_set_def spin_up_ingress_def
    spin_up_service_def
  by (intro status.within_rules status_verbs assms)+

lemma status_fix_replicas: "kube_ok K \<Longrightarrow> within_rel (status_within S) (fix_replicas K kv shards)"
proof (induction shards)
  case (Cons shard shards)
  then show ?case unfolding fix_replicas.simps Let_def by (intro status.within_rules status_verbs)
qed (simp add: status.within_rules)

lemmas status_rules = status.within_rules status_verbs status_lists status_call_shard status_transition
  status_UpdateConfigMap status_spin_up status_fix_replicas status_status_update

section \<open>The phase machine\<close>

text \<open>Phase, current and target shards of a status.\<close>

definition scale_view :: "KVStoreStatus \<Rightarrow> RedistributionPhase \<times> int \<times> int" where
  "scale_view st = (status_Phase st, status_CurrentShards st, status_TargetShards st)"

text \<open>The transitions for a resource that wants \<open>sh\<close> shards.\<close>

inductive scale_step ::
  "int \<Rightarrow> RedistributionPhase \<times> int \<times> int \<Rightarrow> RedistributionPhase \<times> int \<times> int \<Rightarrow> bool" for sh where
  step_stay: "scale_step sh v v"
| step_begin: "0 \<le> n \<Longrightarrow> n \<noteq> sh \<Longrightarrow> scale_step sh (PhaseNormal, c, t) (PhasePreparingScale, n, sh)"
| step_begin_down: "sh < n \<Longrightarrow> scale_step sh (PhaseNormal, c, t) (PhaseStoppingWrites, n, sh)"
| step_first: "scale_step sh (PhasePreparingScale, 0, t) (PhaseNormal, t, t)"
| step_ready: "c \<noteq> 0 \<Longrightarrow> scale_step sh (PhasePreparingScale, c, t) (PhaseStoppingWrites, c, t)"
| step_stopped: "scale_step sh (PhaseStoppingWrites, c, t) (PhaseRedistributingKeys, c, t)"
| step_moved: "scale_step sh (PhaseRedistributingKeys, c, t) (PhaseFinalizingScale, c, t)"
| step_finalized: "scale_step sh (PhaseFinalizingScale, c, t) (PhaseResumingWrites, t, t)"
| step_resumed: "scale_step sh (PhaseResumingWrites, c, t) (PhaseNormal, t, t)"

definition allowed :: "KVStoreResource \<Rightarrow> KVStoreStatus set" where
  "allowed kv = {st. scale_step (sint (spec_Shards (store_Spec kv))) (scale_view (store_Status kv)) (scale_view st)}"

lemma scale_view_simps [simp]:
  "scale_view (store_Status (with_message msg kv)) = scale_view (store_Status kv)"
  "scale_view (store_Status (enter_phase ph msg t kv)) = (ph, kv_current kv, kv_target kv)"
  "scale_view (store_Status (with_counts a b kv)) = (kv_phase kv, a, b)"
  "status_Phase (store_Status (enter_phase ph msg t kv)) = ph"
  "status_Phase (store_Status (with_counts a b kv)) = kv_phase kv"
  "status_CurrentShards (store_Status (with_counts a b kv)) = a"
  "status_TargetShards (store_Status (with_counts a b kv)) = b"
  "status_CurrentShards (store_Status (enter_phase ph msg t kv)) = kv_current kv"
  "status_TargetShards (store_Status (enter_phase ph msg t kv)) = kv_target kv"
  "store_Spec (with_counts a b kv) = store_Spec kv" "store_Spec (enter_phase ph msg t kv) = store_Spec kv"
  "store_Meta (with_counts a b kv) = store_Meta kv" "store_Meta (enter_phase ph msg t kv) = store_Meta kv"
  by (simp_all add: scale_view_def with_message_def enter_phase_def with_counts_def)

lemma scale_view_phase: "scale_view (store_Status kv) = (kv_phase kv, kv_current kv, kv_target kv)"
  by (simp add: scale_view_def)

lemma PrepareScale_within:
  assumes kube: "kube_ok K" and "scale_view (store_Status kv) \<in> V"
    and "kv_current kv = 0 \<Longrightarrow> (PhaseNormal, kv_target kv, kv_target kv) \<in> V"
    and "kv_current kv \<noteq> 0 \<Longrightarrow> (PhaseStoppingWrites, kv_current kv, kv_target kv) \<in> V"
  shows "within_rel (status_within {st. scale_view st \<in> V}) (PrepareScale K kv)"
  unfolding PrepareScale_def using assms by (intro status_rules kube) simp_all

lemma stop_writes_within:
  assumes kube: "kube_ok K" and "scale_view (store_Status kv) \<in> V" and "(PhaseRedistributingKeys, kv_current kv, kv_target kv) \<in> V"
  shows "within_rel (status_within {st. scale_view st \<in> V}) (stop_writes_loop K kv shards)"
proof (induction shards)
  case Nil
  then show ?case using assms unfolding stop_writes_loop.simps by (intro status_rules kube) simp_all
next
  case (Cons shard shards)
  then show ?case using assms unfolding stop_writes_loop.simps by (intro status_rules kube) simp_all
qed

lemma redistribute_within:
  assumes kube: "kube_ok K" and "scale_view (store_Status kv) \<in> V" and "(PhaseFinalizingScale, kv_current kv, kv_target kv) \<in> V"
  shows "within_rel (status_within {st. scale_view st \<in> V}) (redistribute_loop K kv shards n)"
proof (induction shards arbitrary: n)
  case Nil
  then show ?case using assms unfolding redistribute_loop.simps by (intro status_rules kube) simp_all
next
  case (Cons shard shards)
  then show ?case using assms unfolding redistribute_loop.simps by (intro status_rules kube) simp_all
qed

lemma resume_writes_within:
  assumes kube: "kube_ok K" and "scale_view (store_Status kv) \<in> V" and "(PhaseNormal, kv_target kv, kv_target kv) \<in> V"
  shows "within_rel (status_within {st. scale_view st \<in> V}) (resume_writes_loop K kv shards)"
proof (induction shards)
  case Nil
  then show ?case using assms unfolding resume_writes_loop.simps by (intro status_rules kube) simp_all
next
  case (Cons shard shards)
  then show ?case using assms unfolding resume_writes_loop.simps by (intro status_rules kube) simp_all
qed

lemma FinalizeScale_within:
  assumes kube: "kube_ok K" and "(PhaseResumingWrites, kv_target kv, kv_target kv) \<in> V"
  shows "within_rel (status_within {st. scale_view st \<in> V}) (FinalizeScale K kv)"
  unfolding FinalizeScale_def resume_phase_def Let_def using assms by (intro status_rules kube) simp_all

lemma phase_switch_within:
  assumes kube: "kube_ok K" and "scale_view (store_Status kv) \<in> V" and "kv_phase kv = PhasePreparingScale"
    and "kv_current kv = 0 \<Longrightarrow> (PhaseNormal, kv_target kv, kv_target kv) \<in> V"
    and "kv_current kv \<noteq> 0 \<Longrightarrow> (PhaseStoppingWrites, kv_current kv, kv_target kv) \<in> V"
  shows "within_rel (status_within {st. scale_view st \<in> V}) (phase_switch K kv)"
  unfolding phase_switch_def using assms(3)
  by (simp add: status.within_bind_ok status.within_ret PrepareScale_within [OF kube assms(2,4,5)])

lemma phase_switch_allowed:
  assumes kube: "kube_ok K"
  shows "within_rel (status_within (allowed kv)) (phase_switch K kv)"
proof -
  let ?V = "{v. scale_step (sint (spec_Shards (store_Spec kv))) (scale_view (store_Status kv)) v}"
  have S: "allowed kv = {st. scale_view st \<in> ?V}" by (simp add: allowed_def)
  have stay: "scale_view (store_Status kv) \<in> ?V" by (simp add: step_stay)
  note v = scale_view_phase [of kv]
  show ?thesis
    unfolding phase_switch_def S StopWrites_def ctl_RedistributeKeys_def ResumeWrites_def
    by (intro status_rules PrepareScale_within stop_writes_within redistribute_within resume_writes_within
        FinalizeScale_within stay kube)
      (simp_all add: v scale_step.intros)
qed

lemma begin_allowed:
  assumes "kv_phase kv = PhaseNormal" and "0 \<le> n" and "n \<noteq> sint (spec_Shards (store_Spec kv))"
  shows "store_Status (begin_scale kv n t) \<in> allowed kv"
  using assms by (simp add: allowed_def begin_scale_def scale_view_phase step_begin)

lemma scale_up_allowed:
  assumes "kube_ok K" and "store_Status kv' \<in> S"
  shows "within_rel (status_within S) (scale_up K kv')"
  unfolding scale_up_def by (intro status_rules assms)

lemma scale_down_allowed:
  assumes kube: "kube_ok K" and "kv_phase kv = PhaseNormal" and "sint (spec_Shards (store_Spec kv)) < n" and "1 \<le> sint (spec_Shards (store_Spec kv))"
  shows "within_rel (status_within (allowed kv)) (phase_switch K (begin_scale kv n t))"
proof -
  let ?V = "{v. scale_step (sint (spec_Shards (store_Spec kv))) (scale_view (store_Status kv)) v}"
  have S: "allowed kv = {st. scale_view st \<in> ?V}" by (simp add: allowed_def)
  show ?thesis
    unfolding S
    by (rule phase_switch_within [OF kube]) (use assms in \<open>simp_all add: begin_scale_def scale_view_phase scale_step.intros\<close>)
qed

section \<open>Reconcile follows the machine\<close>

text \<open>What \<open>Reconcile\<close> does once it has read the resource.\<close>

definition reconcile_rest :: "('b, 'r, 'z) kvctl_lib_scheme \<Rightarrow> KVStoreResource \<Rightarrow> ('r, reconcile_result) ctl" where
  "reconcile_rest K kv =
     bind_ok (list_sets K (kv_ns kv) (kv_name kv)) (\<lambda>shardList.
     bind_ok (fix_replicas K kv shardList) (\<lambda>fixed.
     case fixed of
       Some res \<Rightarrow> ret (Inr res)
     | None \<Rightarrow>
         if kv_phase kv = PhaseNormal then
           bind_act read_now (\<lambda>t.
           let n = int (length shardList); kv' = begin_scale kv n t in
           if n < sint (spec_Shards (store_Spec kv)) then scale_up K kv'
           else if n > sint (spec_Shards (store_Spec kv)) then
             bind_act (status_update K kv') (\<lambda>_.
             bind_ok (UpdateConfigMap K kv') (\<lambda>_.
             phase_switch K kv'))
           else phase_switch K kv)
         else phase_switch K kv))"

lemma Reconcile_rest:
  "Reconcile K = bind_act (get_store K) (\<lambda>got. case got of
     Inl e \<Rightarrow> ret (if IsNotFound K e then Inr Done else Inl e) | Inr kv \<Rightarrow> reconcile_rest K kv)"
  unfolding Reconcile_def reconcile_rest_def by (rule refl)

lemma reconcile_rest_allowed:
  assumes "kube_ok K" and "1 \<le> sint (spec_Shards (store_Spec kv))"
  shows "within_rel (status_within (allowed kv)) (reconcile_rest K kv)"
  unfolding reconcile_rest_def Let_def
  by (intro status_rules phase_switch_allowed scale_up_allowed begin_allowed scale_down_allowed assms)
    (use assms in simp_all)

lemma get_store_result:
  "kube_ok K \<Longrightarrow> get_store K c = (x, c') \<Longrightarrow>
   api_store c' = api_store c \<and> (\<exists>r. x = Return r \<and> (\<forall>kv. r = Inr kv \<longrightarrow> api_store c = Some kv))"
  by (auto simp: kube_calls api_call_alt Let_def split: option.splits)

lemma reconcile_step:
  assumes "kube_ok K" and "api_store c = Some kv" and "1 \<le> sint (spec_Shards (store_Spec kv))" and "Reconcile K c = (x, c')"
  shows "api_store c' = Some kv \<or> (\<exists>st \<in> allowed kv. api_store c' = Some (kv\<lparr>store_Status := st\<rparr>))"
proof -
  obtain g c1 where g: "get_store K c = (g, c1)" by fastforce
  obtain r where r: "g = Return r" "api_store c1 = Some kv" "\<And>k. r = Inr k \<Longrightarrow> k = kv"
    using get_store_result [OF assms(1) g] assms(2) by auto
  show ?thesis
  proof (cases r)
    case (Inl e)
    then show ?thesis using assms(4) g r by (auto simp: Reconcile_rest bind_act_def ret_def)
  next
    case (Inr k)
    then have "reconcile_rest K kv c1 = (x, c')" using assms(4) g r by (simp add: Reconcile_rest bind_act_def)
    then have "status_within (allowed kv) c1 c'" by (rule within_relD [OF reconcile_rest_allowed [OF assms(1,3)]])
    then show ?thesis using r(2) by (auto simp: status_within_def)
  qed
qed

text \<open>C6: whatever API calls fail and whatever the shards answer, one reconciliation leaves the spec and the
  metadata of the resource alone and moves its phase and shard counts by one transition of the scaling
  machine, or not at all.\<close>

theorem reconcile_follows_phases:
  assumes "kube_ok K" and "api_store c = Some kv" and "1 \<le> sint (spec_Shards (store_Spec kv))" and "Reconcile K c = (x, c')"
  shows "\<exists>st. api_store c' = Some (kv\<lparr>store_Status := st\<rparr>) \<and>
    scale_step (sint (spec_Shards (store_Spec kv))) (scale_view (store_Status kv)) (scale_view st)"
proof -
  from reconcile_step [OF assms] show ?thesis
  proof
    assume "api_store c' = Some kv"
    then show ?thesis by (intro exI [of _ "store_Status kv"]) (simp add: step_stay)
  next
    assume "\<exists>st \<in> allowed kv. api_store c' = Some (kv\<lparr>store_Status := st\<rparr>)"
    then show ?thesis by (auto simp: allowed_def)
  qed
qed

theorem reconcile_follows_phases_witness:
  "case Reconcile demo_kvctl_lib (demo_system (\<lambda>n. if n = 3 then Some KeyNotFound else None)
      (Some (demo_resource [] 2 zero_status)) []) of
     (x, c') \<Rightarrow> \<exists>st. api_store c' = Some (demo_resource [] 2 zero_status\<lparr>store_Status := st\<rparr>) \<and>
       scale_step 2 (PhaseNormal, 0, 0) (scale_view st)"
  using reconcile_follows_phases [of demo_kvctl_lib "demo_system (\<lambda>n. if n = 3 then Some KeyNotFound else None)
      (Some (demo_resource [] 2 zero_status)) []" "demo_resource [] 2 zero_status"]
  by (simp add: scale_view_def zero_status_def split: prod.splits)

section \<open>Runs of the operator\<close>

text \<open>What can happen to the stored resource: reconciliations, edits of the spec and the metadata that the webhook admits,
  creation and deletion, and everything that leaves it alone.\<close>

inductive ops_step :: "('b, 'r, 'z) kvctl_lib_scheme \<Rightarrow> 'r system \<Rightarrow> 'r system \<Rightarrow> bool" for K where
  op_reconcile: "Reconcile K c = (x, c') \<Longrightarrow> ops_step K c c'"
| op_edit: "api_store c = Some old \<Longrightarrow> new = old\<lparr>store_Spec := spec, store_Meta := meta\<rparr> \<Longrightarrow> 1 \<le> sint (spec_Shards spec) \<Longrightarrow>
     ValidateUpdate (KVStoreObject old) (KVStoreObject new) = None \<Longrightarrow> ops_step K c (c\<lparr>api_store := Some new\<rparr>)"
| op_create: "api_store c = None \<Longrightarrow> ValidateCreate (KVStoreObject kv) = None \<Longrightarrow> store_Status kv = zero_status \<Longrightarrow>
     1 \<le> sint (spec_Shards (store_Spec kv)) \<Longrightarrow> ops_step K c (c\<lparr>api_store := Some kv\<rparr>)"
| op_delete: "api_store c = Some kv \<Longrightarrow> ValidateDelete (KVStoreObject kv) = None \<Longrightarrow> ops_step K c (c\<lparr>api_store := None\<rparr>)"
| op_environment: "api_store c' = api_store c \<Longrightarrow> ops_step K c c'"

definition ops_reachable :: "('b, 'r, 'z) kvctl_lib_scheme \<Rightarrow> 'r system \<Rightarrow> bool" where
  "ops_reachable K c \<longleftrightarrow> (\<exists>c0. api_store c0 = None \<and> (ops_step K)\<^sup>*\<^sup>* c0 c)"

definition scaling_phases :: "RedistributionPhase set" where
  "scaling_phases = {PhasePreparingScale, PhaseStoppingWrites, PhaseRedistributingKeys, PhaseFinalizingScale, PhaseResumingWrites}"

definition scaling_ok :: "KVStoreResource \<Rightarrow> bool" where
  "scaling_ok kv \<longleftrightarrow>
     1 \<le> sint (spec_Shards (store_Spec kv)) \<and>
     (kv_phase kv = PhaseNormal \<or> kv_phase kv \<in> scaling_phases \<and> kv_target kv = sint (spec_Shards (store_Spec kv))) \<and>
     (kv_phase kv = PhaseResumingWrites \<longrightarrow> kv_current kv = kv_target kv) \<and>
     (kv_phase kv \<in> {PhaseStoppingWrites, PhaseRedistributingKeys, PhaseFinalizingScale} \<longrightarrow> kv_current kv \<noteq> 0)"

lemma scale_step_ok:
  assumes "scaling_ok kv" and "scale_step (sint (spec_Shards (store_Spec kv))) (scale_view (store_Status kv)) (scale_view st)"
  shows "scaling_ok (kv\<lparr>store_Status := st\<rparr>)"
  using assms(2,1)
  by (cases rule: scale_step.cases) (auto simp: scaling_ok_def scaling_phases_def scale_view_def)

lemma ops_step_ok:
  assumes kube: "kube_ok K" and "ops_step K c c'" and "\<And>kv. api_store c = Some kv \<Longrightarrow> scaling_ok kv" and "api_store c' = Some kv'"
  shows "scaling_ok kv'"
  using assms(2-)
proof (induction rule: ops_step.induct)
  case (op_reconcile c x c')
  show ?case
  proof (cases "api_store c")
    case None
    have "api_store c' = None"
      using None op_reconcile(1)
      by (auto simp: Reconcile_def kube_calls [OF kube] api_call_alt bind_act_def ret_def Let_def split: option.splits)
    then show ?thesis using op_reconcile(3) by simp
  next
    case (Some kv)
    then have ok: "scaling_ok kv" using op_reconcile(2) by blast
    then have sh: "1 \<le> sint (spec_Shards (store_Spec kv))" by (simp add: scaling_ok_def)
    have "scaling_ok (kv\<lparr>store_Status := st\<rparr>)" if "st \<in> allowed kv" for st
      using scale_step_ok [OF ok] that by (simp add: allowed_def)
    then show ?thesis using reconcile_step [OF kube Some sh op_reconcile(1)] op_reconcile(3) ok by auto
  qed
next
  case (op_edit c old new spec meta)
  then show ?case by (auto simp: ValidateUpdate_def scaling_ok_def scaling_phases_def split: if_splits)
next
  case (op_create c kv)
  then show ?case by (auto simp: scaling_ok_def zero_status_def scaling_phases_def)
qed auto

lemma reachable_scaling_ok: "kube_ok K \<Longrightarrow> ops_reachable K c \<Longrightarrow> api_store c = Some kv \<Longrightarrow> scaling_ok kv"
proof -
  have "kube_ok K \<Longrightarrow> (ops_step K)\<^sup>*\<^sup>* c0 c \<Longrightarrow> api_store c0 = None \<Longrightarrow> \<forall>kv. api_store c = Some kv \<longrightarrow> scaling_ok kv" for c0
    by (rotate_tac 1, induction rule: rtranclp_induct) (auto dest: ops_step_ok)
  then show "kube_ok K \<Longrightarrow> ops_reachable K c \<Longrightarrow> api_store c = Some kv \<Longrightarrow> ?thesis" by (auto simp: ops_reachable_def)
qed

text \<open>C7: in every reachable state of the operator, with the webhook guarding edits, a resource that is
  scaling is in one of the five scaling phases, its target is the number of shards its spec asks for,
  and while writes resume the current count is already the target.\<close>

theorem scaling_target_is_spec:
  assumes "kube_ok K" and "ops_reachable K c" and "api_store c = Some kv" and "kv_phase kv \<noteq> PhaseNormal"
  shows "kv_phase kv \<in> {PhasePreparingScale, PhaseStoppingWrites, PhaseRedistributingKeys, PhaseFinalizingScale, PhaseResumingWrites} \<and>
    kv_target kv = sint (spec_Shards (store_Spec kv)) \<and>
    (kv_phase kv = PhaseResumingWrites \<longrightarrow> kv_current kv = kv_target kv)"
  using reachable_scaling_ok [OF assms(1-3)] assms(4) by (auto simp: scaling_ok_def scaling_phases_def)

lemma demo_begin:
  "\<exists>x c'. Reconcile demo_kvctl_lib (demo_system (\<lambda>n. if n = 3 then Some KeyNotFound else None)
       (Some (demo_resource [] 2 zero_status)) []) = (x, c') \<and>
     api_store c' = Some (begin_scale (demo_resource [] 2 zero_status) 0 0)"
  by (simp add: Reconcile_def kube_calls api_call_alt bind_act_def bind_ok_def list_owned_def ret_def
      zero_status_def read_now_def Let_def scale_up_def UpdateConfigMap_def begin_scale_def with_counts_def enter_phase_def split: prod.splits)

lemma demo_scaling:
  "\<exists>c. ops_reachable demo_kvctl_lib c \<and> api_store c = Some (begin_scale (demo_resource [] 2 zero_status) 0 0)"
proof -
  let ?kv = "demo_resource [] 2 zero_status"
  let ?faults = "\<lambda>n. if n = 3 then Some KeyNotFound else None"
  let ?c0 = "demo_system ?faults None []"
  let ?c1 = "demo_system ?faults (Some ?kv) []"
  have c1: "?c1 = ?c0\<lparr>api_store := Some ?kv\<rparr>" by (simp add: demo_system_def)
  have create: "ops_step demo_kvctl_lib ?c0 ?c1"
    unfolding c1 by (rule op_create) (simp_all add: ValidateCreate_def)
  obtain x c2 where c2: "Reconcile demo_kvctl_lib ?c1 = (x, c2)" "api_store c2 = Some (begin_scale ?kv 0 0)"
    using demo_begin by blast
  have "(ops_step demo_kvctl_lib)\<^sup>*\<^sup>* ?c0 c2"
    using create op_reconcile [OF c2(1)] by (rule converse_rtranclp_into_rtranclp [OF _ r_into_rtranclp])
  moreover have "api_store ?c0 = None" by simp
  ultimately show ?thesis using c2(2) unfolding ops_reachable_def by blast
qed

theorem scaling_target_is_spec_witness:
  "\<exists>c kv. ops_reachable demo_kvctl_lib c \<and> api_store c = Some kv \<and> kv_phase kv = PhasePreparingScale \<and>
     kv_target kv = 2"
proof -
  let ?kv = "begin_scale (demo_resource [] 2 zero_status) 0 0"
  obtain c where c: "ops_reachable demo_kvctl_lib c" "api_store c = Some ?kv" using demo_scaling by blast
  have ph: "kv_phase ?kv = PhasePreparingScale" by (simp add: begin_scale_def)
  then have "kv_target ?kv = sint (spec_Shards (store_Spec ?kv))"
    using scaling_target_is_spec [OF demo_kvctl_lib_simps(2) c] by simp
  then show ?thesis using c ph by (intro exI [of _ c] exI [of _ ?kv]) (simp add: begin_scale_def)
qed

end
