(* ===== verification/Kvctl_Correct.thy ===== *)
theory Kvctl_Correct
  imports Kvctl_Objects Kvctl_Phases
begin

text \<open>
  What a reconciliation achieves.  First the parts when no API call fails: the configuration map, the
  objects of new shards, the removal of surplus shards.  Then \<open>Reconcile\<close> on the branches that use
  them, and what goes wrong when single API calls fail.
\<close>

section \<open>Names\<close>

lemma shard_name_inject [simp]: "shard_name name i = shard_name name j \<longleftrightarrow> i = j"
  by (simp add: shard_name_def)

lemma unique_by_shard:
  assumes "distinct is" and "\<And>i. meta_Name (meta (mk i)) = shard_name name i @ suffix"
  shows "unique_objects meta (map mk is)"
  using assms by (auto simp: unique_objects_def distinct_map inj_on_def object_key_def o_def)

definition owned_set :: "('b, 'r, 'z) kvctl_lib_scheme \<Rightarrow> KVStoreResource \<Rightarrow> int \<Rightarrow> StatefulSet" where
  "owned_set K kv i = (shard_set kv i)\<lparr>ss_Meta := controlled_by K kv (ss_Meta (shard_set kv i))\<rparr>"
definition owned_service :: "('b, 'r, 'z) kvctl_lib_scheme \<Rightarrow> KVStoreResource \<Rightarrow> int \<Rightarrow> Service" where
  "owned_service K kv i = (shard_service kv i)\<lparr>svc_Meta := controlled_by K kv (svc_Meta (shard_service kv i))\<rparr>"
definition owned_ingress :: "('b, 'r, 'z) kvctl_lib_scheme \<Rightarrow> KVStoreResource \<Rightarrow> int \<Rightarrow> Ingress" where
  "owned_ingress K kv i = (shard_ingress kv i)\<lparr>ing_Meta := controlled_by K kv (ing_Meta (shard_ingress kv i))\<rparr>"

lemma owned_names [simp]:
  "meta_Name (ss_Meta (owned_set K kv i)) = shard_name (kv_name kv) i @ ''-replica''"
  "meta_Name (svc_Meta (owned_service K kv i)) = shard_name (kv_name kv) i"
  "meta_Name (ing_Meta (owned_ingress K kv i)) = shard_name (kv_name kv) i @ ''-ingress''"
  "meta_Namespace (ss_Meta (owned_set K kv i)) = kv_ns kv"
  "meta_Namespace (svc_Meta (owned_service K kv i)) = kv_ns kv"
  "meta_Namespace (ing_Meta (owned_ingress K kv i)) = kv_ns kv"
  by (simp_all add: owned_set_def owned_service_def owned_ingress_def controlled_by_def shard_set_def
      shard_service_def shard_ingress_def)

definition names_free :: "('o \<Rightarrow> ObjectMeta) \<Rightarrow> 'o list \<Rightarrow> 'o list \<Rightarrow> bool" where
  "names_free meta xs objs \<longleftrightarrow> (\<forall>x \<in> set xs. \<forall>y \<in> set objs. object_key (meta x) \<noteq> object_key (meta y))"

lemma fresh_objects:
  "names_free ss_Meta (map (owned_set K kv) (new_shards kv)) xs \<Longrightarrow> fresh_for ss_Meta (map (owned_set K kv) (new_shards kv)) xs"
  "names_free svc_Meta (map (owned_service K kv) (new_shards kv)) ys \<Longrightarrow> fresh_for svc_Meta (map (owned_service K kv) (new_shards kv)) ys"
  "names_free ing_Meta (map (owned_ingress K kv) (new_shards kv)) zs \<Longrightarrow> fresh_for ing_Meta (map (owned_ingress K kv) (new_shards kv)) zs"
  using unique_by_shard [of "new_shards kv" ss_Meta "owned_set K kv" "kv_name kv" "''-replica''"]
    unique_by_shard [of "new_shards kv" svc_Meta "owned_service K kv" "kv_name kv" "[]"]
    unique_by_shard [of "new_shards kv" ing_Meta "owned_ingress K kv" "kv_name kv" "''-ingress''"]
  by (simp_all add: fresh_for_def names_free_def new_shards_def)

section \<open>The parts without faults\<close>

text \<open>From now on every API call succeeds.\<close>

definition operator_ready :: "('b, 'r, 'z) kvctl_lib_scheme \<Rightarrow> 'r system \<Rightarrow> bool" where
  "operator_ready K c \<longleftrightarrow> no_faults c \<and> kube_ok K \<and> reference_ok K"

lemma ready_kube: "operator_ready K c \<Longrightarrow> kube_ok K" and ready_reference: "operator_ready K c \<Longrightarrow> reference_ok K"
  and ready_calm: "operator_ready K c \<Longrightarrow> no_faults c"
  by (simp_all add: operator_ready_def)

lemma reference_run: "reference_ok K \<Longrightarrow> meta_Controller m = None \<Longrightarrow> SetControllerReference K kv m = Inr (controlled_by K kv m)"
  by (simp add: reference_ok_def)

lemma objects_uncontrolled [simp]:
  "meta_Controller (ss_Meta (shard_set kv i)) = None" "meta_Controller (svc_Meta (shard_service kv i)) = None"
  "meta_Controller (ing_Meta (shard_ingress kv i)) = None"
  by (simp_all add: shard_set_def shard_service_def shard_ingress_def)

text \<open>The text of the configuration file that pods mount.\<close>

definition config_text :: "KVStoreResource \<Rightarrow> ConfigMap list \<Rightarrow> string option" where
  "config_text kv cms =
     (case find (\<lambda>x. meta_Name (cm_Meta x) = config_name kv \<and> meta_Namespace (cm_Meta x) = kv_ns kv) cms of
        None \<Rightarrow> None
      | Some x \<Rightarrow> map_of (cm_Data x) ''config.yaml'')"

lemma find_replace:
  "find P xs = Some x \<Longrightarrow> (\<And>y. Q y \<longleftrightarrow> P y) \<Longrightarrow> P x' \<Longrightarrow> find P (map (\<lambda>y. if Q y then x' else y) xs) = Some x'"
  by (induction xs) (auto split: if_splits)

lemma find_append_None: "find P xs = None \<Longrightarrow> find P (xs @ ys) = find P ys"
  by (induction xs) (auto split: if_splits)

lemma UpdateConfigMap_run:
  assumes "operator_ready K c" and "yaml_Marshal K (build_config kv) = Inr y"
  shows "\<exists>cms. UpdateConfigMap K kv c = (Return (Inr ()), put_configs cms (ticks 2 c)) \<and> config_text kv cms = Some y"
proof -
  let ?P = "\<lambda>x. meta_Name (cm_Meta x) = config_name kv \<and> meta_Namespace (cm_Meta x) = kv_ns kv"
  let ?cm = "\<lparr>cm_Meta = controlled_by K kv \<lparr>meta_Name = config_name kv, meta_Namespace = kv_ns kv,
    meta_Labels = [(''app'', kv_name kv)], meta_Annotations = [], meta_Controller = None\<rparr>, cm_Data = [(''config.yaml'', y)]\<rparr>"
  have calm: "no_faults c" "no_faults (ticks 1 c)" and kube: "kube_ok K" and ref: "reference_ok K"
    using assms(1) by (simp_all add: operator_ready_def)
  have get: "get_config K (kv_ns kv) (config_name kv) c =
    (Return (case find ?P (api_configs c) of None \<Rightarrow> Inl (NotFoundErr (config_name kv)) | Some x \<Rightarrow> Inr x), ticks 1 c)"
    using calm by (simp add: kube_calls [OF kube] api_call_run split: option.splits)
  show ?thesis
  proof (cases "find ?P (api_configs c)")
    case None
    then have "\<not> (\<exists>x \<in> set (api_configs c). same_object (cm_Meta x) (cm_Meta ?cm))"
      by (auto simp: find_None_iff same_object_def controlled_by_def)
    then have fresh: "fresh_for cm_Meta [?cm] (api_configs c)"
      by (auto simp: fresh_for_def unique_objects_def same_object_key)
    have "UpdateConfigMap K kv c = (Return (Inr ()), put_configs (api_configs c @ [?cm]) (ticks 2 c))"
      using None get assms(2) configs.create_run [of "ticks 1 c" ?cm] fresh calm
      by (simp add: UpdateConfigMap_def bind_run kube_not_found [OF kube] reference_run [OF ref] kube_calls [OF kube] numeral_2_eq_2)
    moreover have "config_text kv (api_configs c @ [?cm]) = Some y"
      using None by (simp add: config_text_def find_append_None controlled_by_def)
    ultimately show ?thesis by blast
  next
    case (Some x)
    let ?x = "x\<lparr>cm_Data := [(''config.yaml'', y)]\<rparr>"
    let ?cms = "map (\<lambda>z. if same_object (cm_Meta z) (cm_Meta ?x) then ?x else z) (api_configs c)"
    have x: "x \<in> set (api_configs c)" "?P x" using Some by (auto simp: find_Some_iff in_set_conv_nth)
    have "UpdateConfigMap K kv c = (Return (Inr ()), put_configs ?cms (ticks 2 c))"
      using Some get assms(2) calm x
      by (auto simp: UpdateConfigMap_def bind_run kube_calls [OF kube] api_call_run update_in_def store_result_def same_object_def
          numeral_2_eq_2)
    moreover have "find ?P ?cms = Some ?x"
      by (rule find_replace [OF Some]) (use x in \<open>auto simp: same_object_def\<close>)
    ultimately show ?thesis by (auto simp: config_text_def)
  qed
qed

lemma SpinUp_run:
  assumes "operator_ready K c"
  shows "names_free ss_Meta (map (owned_set K kv) (new_shards kv)) (api_sets c) \<Longrightarrow> SpinUpShards K kv c =
    (Return (Inr ()), put_sets (api_sets c @ map (owned_set K kv) (new_shards kv)) (ticks (length (new_shards kv)) c))"
    and "names_free svc_Meta (map (owned_service K kv) (new_shards kv)) (api_services c) \<Longrightarrow> SpinUpShardServices K kv c =
    (Return (Inr ()), put_services (api_services c @ map (owned_service K kv) (new_shards kv)) (ticks (length (new_shards kv)) c))"
    and "names_free ing_Meta (map (owned_ingress K kv) (new_shards kv)) (api_ingresses c) \<Longrightarrow> SpinUpShardIngresses K kv c =
    (Return (Inr ()), put_ingresses (api_ingresses c @ map (owned_ingress K kv) (new_shards kv)) (ticks (length (new_shards kv)) c))"
proof -
  have calm: "no_faults c" and kube: "kube_ok K" and ref: "reference_ok K" using assms by (simp_all add: operator_ready_def)
  show "names_free ss_Meta (map (owned_set K kv) (new_shards kv)) (api_sets c) \<Longrightarrow> SpinUpShards K kv c =
    (Return (Inr ()), put_sets (api_sets c @ map (owned_set K kv) (new_shards kv)) (ticks (length (new_shards kv)) c))"
    unfolding SpinUpShards_def
    by (rule sets.create_all [OF calm])
      (simp_all add: fresh_objects spin_up_set_def reference_run [OF ref] kube_calls [OF kube] owned_set_def)
  show "names_free svc_Meta (map (owned_service K kv) (new_shards kv)) (api_services c) \<Longrightarrow> SpinUpShardServices K kv c =
    (Return (Inr ()), put_services (api_services c @ map (owned_service K kv) (new_shards kv)) (ticks (length (new_shards kv)) c))"
    unfolding SpinUpShardServices_def
    by (rule services.create_all [OF calm])
      (simp_all add: fresh_objects spin_up_service_def reference_run [OF ref] kube_calls [OF kube] owned_service_def)
  show "names_free ing_Meta (map (owned_ingress K kv) (new_shards kv)) (api_ingresses c) \<Longrightarrow> SpinUpShardIngresses K kv c =
    (Return (Inr ()), put_ingresses (api_ingresses c @ map (owned_ingress K kv) (new_shards kv)) (ticks (length (new_shards kv)) c))"
    unfolding SpinUpShardIngresses_def
    by (rule ingresses.create_all [OF calm])
      (simp_all add: fresh_objects spin_up_ingress_def reference_run [OF ref] kube_calls [OF kube] owned_ingress_def)
qed

section \<open>Scaling up\<close>

abbreviation owned_sets :: "('b, 'r, 'z) kvctl_lib_scheme \<Rightarrow> KVStoreResource \<Rightarrow> 'r system \<Rightarrow> StatefulSet list" where
  "owned_sets K kv c \<equiv> list_owned ss_Meta (index_StatefulSet K) (kv_ns kv) (kv_name kv) (api_sets c)"

text \<open>No object of another origin has the name of an object of a new shard.\<close>

definition room_for :: "('b, 'r, 'z) kvctl_lib_scheme \<Rightarrow> KVStoreResource \<Rightarrow> 'r system \<Rightarrow> bool" where
  "room_for K kv c \<longleftrightarrow>
     names_free ss_Meta (map (owned_set K kv) (new_shards kv)) (api_sets c) \<and>
     names_free svc_Meta (map (owned_service K kv) (new_shards kv)) (api_services c) \<and>
     names_free ing_Meta (map (owned_ingress K kv) (new_shards kv)) (api_ingresses c)"

text \<open>The objects of the shards \<open>is\<close> were added, and the configuration text is \<open>y\<close>.\<close>

definition shards_added :: "('b, 'r, 'z) kvctl_lib_scheme \<Rightarrow> KVStoreResource \<Rightarrow> int list \<Rightarrow> string \<Rightarrow> 'r system \<Rightarrow> 'r system \<Rightarrow> bool" where
  "shards_added K kv is y c c' \<longleftrightarrow>
     api_sets c' = api_sets c @ map (owned_set K kv) is \<and>
     api_services c' = api_services c @ map (owned_service K kv) is \<and>
     api_ingresses c' = api_ingresses c @ map (owned_ingress K kv) is \<and>
     config_text kv (api_configs c') = Some y \<and>
     shard_world c' = shard_world c"

lemma operator_ready_simps [simp]:
  "operator_ready K c \<Longrightarrow> operator_ready K (ticks n c)"
  "operator_ready K (put_sets xs c) = operator_ready K c" "operator_ready K (put_services ys c) = operator_ready K c"
  "operator_ready K (put_ingresses zs c) = operator_ready K c" "operator_ready K (put_configs cs c) = operator_ready K c"
  "operator_ready K (put_store k c) = operator_ready K c" "operator_ready K c \<Longrightarrow> no_faults c"
  by (simp_all add: operator_ready_def)

lemma scale_up_creates:
  assumes "operator_ready K c" and "yaml_Marshal K (build_config kv) = Inr y" and "room_for K kv c"
  shows "\<exists>c'. bind_ok (UpdateConfigMap K kv) (\<lambda>_. bind_ok (SpinUpShardIngresses K kv) (\<lambda>_.
      bind_ok (SpinUpShardServices K kv) (\<lambda>_. bind_ok (SpinUpShards K kv) (\<lambda>_. ret (Inr (RequeueAfter 1)))))) c =
      (Return (Inr (RequeueAfter 1)), c') \<and> shards_added K kv (new_shards kv) y c c' \<and>
      api_store c' = api_store c \<and> operator_ready K c'"
proof -
  let ?n = "length (new_shards kv)"
  obtain cms where cms: "UpdateConfigMap K kv c = (Return (Inr ()), put_configs cms (ticks 2 c))" "config_text kv cms = Some y"
    using UpdateConfigMap_run [OF assms(1,2)] by blast
  let ?c1 = "put_configs cms (ticks 2 c)"
  let ?c2 = "put_ingresses (api_ingresses c @ map (owned_ingress K kv) (new_shards kv)) (ticks ?n ?c1)"
  let ?c3 = "put_services (api_services c @ map (owned_service K kv) (new_shards kv)) (ticks ?n ?c2)"
  let ?c4 = "put_sets (api_sets c @ map (owned_set K kv) (new_shards kv)) (ticks ?n ?c3)"
  have "SpinUpShardIngresses K kv ?c1 = (Return (Inr ()), ?c2)"
    using SpinUp_run(3) [of K ?c1 kv] assms by (simp add: room_for_def)
  moreover have "SpinUpShardServices K kv ?c2 = (Return (Inr ()), ?c3)"
    using SpinUp_run(2) [of K ?c2 kv] assms by (simp add: room_for_def)
  moreover have "SpinUpShards K kv ?c3 = (Return (Inr ()), ?c4)"
    using SpinUp_run(1) [of K ?c3 kv] assms by (simp add: room_for_def)
  ultimately show ?thesis
    using cms assms(1) by (intro exI [of _ ?c4]) (simp add: bind_ok_run ret_def shards_added_def)
qed

lemma begin_scale_simps [simp]:
  "kv_name (begin_scale kv n t) = kv_name kv" "kv_ns (begin_scale kv n t) = kv_ns kv"
  "kv_phase (begin_scale kv n t) = PhasePreparingScale"
  "kv_current (begin_scale kv n t) = n" "kv_target (begin_scale kv n t) = sint (spec_Shards (store_Spec kv))"
  "store_Spec (begin_scale kv n t) = store_Spec kv" "store_Meta (begin_scale kv n t) = store_Meta kv"
  "kv\<lparr>store_Status := store_Status (begin_scale kv n t)\<rparr> = begin_scale kv n t"
  by (simp_all add: begin_scale_def with_counts_def enter_phase_def)

lemma begin_scale_objects [simp]:
  "owned_set K (begin_scale kv n t) = owned_set K kv" "owned_service K (begin_scale kv n t) = owned_service K kv"
  "owned_ingress K (begin_scale kv n t) = owned_ingress K kv"
  "new_shards (begin_scale kv n t) = [n..sint (spec_Shards (store_Spec kv)) - 1]"
  "config_text (begin_scale kv n t) = config_text kv"
  by (simp_all add: fun_eq_iff owned_set_def owned_service_def owned_ingress_def controlled_by_def shard_set_def
      shard_service_def shard_ingress_def shard_labels_def new_shards_def config_text_def config_name_def)

lemma Reconcile_scale_up:
  assumes ready: "operator_ready K c" and stored: "api_store c = Some kv" and rest: "kv_phase kv = PhaseNormal"
    and reps: "\<forall>s \<in> set (owned_sets K kv c). ss_Replicas s = spec_Replicas (store_Spec kv)"
    and n: "n = int (length (owned_sets K kv c))" and few: "n < sint (spec_Shards (store_Spec kv))"
  shows "Reconcile K c = scale_up K (begin_scale kv n (now c)) (ticks 2 c)"
  using assms
  by (simp add: Reconcile_def bind_run [OF get_store_run [OF ready_kube [OF assms(1)]]] bind_ok_run [OF list_sets_run [OF ready_kube [OF assms(1)]]] bind_ok_run [OF fix_replicas_run]
      bind_act_def [of read_now] read_now_def Let_def numeral_2_eq_2)

lemma scale_up_run:
  assumes "operator_ready K c" and "api_store c = Some kv" and "kv_phase kv = PhaseNormal"
    and "\<forall>s \<in> set (owned_sets K kv c). ss_Replicas s = spec_Replicas (store_Spec kv)"
    and "n = int (length (owned_sets K kv c))" and "n < sint (spec_Shards (store_Spec kv))"
    and "kv' = begin_scale kv n (now c)" and "room_for K kv' c" and "yaml_Marshal K (build_config kv') = Inr y"
  shows "\<exists>c'. Reconcile K c = (Return (Inr (RequeueAfter 1)), c') \<and> api_store c' = Some kv' \<and>
    shards_added K kv [n..sint (spec_Shards (store_Spec kv)) - 1] y c c'"
proof -
  let ?c = "put_store (Some kv') (ticks 3 c)"
  have status: "status_update K kv' (ticks 2 c) = (Return (Inr ()), ?c)"
    using status_update_run [OF ready_kube [OF assms(1)], of "ticks 2 c" kv kv'] assms(1,2,7) by simp
  have "room_for K kv' ?c" using assms(8) by (simp add: room_for_def)
  then obtain c' where c': "bind_ok (UpdateConfigMap K kv') (\<lambda>_. bind_ok (SpinUpShardIngresses K kv') (\<lambda>_.
      bind_ok (SpinUpShardServices K kv') (\<lambda>_. bind_ok (SpinUpShards K kv') (\<lambda>_. ret (Inr (RequeueAfter 1)))))) ?c =
      (Return (Inr (RequeueAfter 1)), c')" "shards_added K kv' (new_shards kv') y ?c c'" "api_store c' = Some kv'"
    using scale_up_creates [of K ?c kv' y] assms(1,9) by auto
  have "Reconcile K c = (Return (Inr (RequeueAfter 1)), c')"
    unfolding Reconcile_scale_up [OF assms(1-6)] assms(7) [symmetric] scale_up_def
    using status c'(1) by (simp add: bind_run)
  moreover have "shards_added K kv [n..sint (spec_Shards (store_Spec kv)) - 1] y c c'"
    using c'(2) assms(7) by (simp add: shards_added_def)
  ultimately show ?thesis using c'(3) by blast
qed

text \<open>C13: without API faults, a reconciliation of a resource at rest that has too few shards creates a
  StatefulSet, a Service and an Ingress for exactly the missing shards, writes the configuration with the
  target as new shards, and enters the preparing phase.\<close>

theorem scale_up_creates_missing:
  assumes "operator_ready K c" and "api_store c = Some kv" and "kv_phase kv = PhaseNormal"
    and "\<forall>s \<in> set (owned_sets K kv c). ss_Replicas s = spec_Replicas (store_Spec kv)"
    and "n = int (length (owned_sets K kv c))" and "n < sint (spec_Shards (store_Spec kv))"
    and "kv' = begin_scale kv n (now c)" and "room_for K kv' c" and "yaml_Marshal K (build_config kv') = Inr y"
  shows "\<exists>c'. Reconcile K c = (Return (Inr (RequeueAfter 1)), c') \<and> api_store c' = Some kv' \<and>
    shards_added K kv [n..sint (spec_Shards (store_Spec kv)) - 1] y c c'"
  by (rule scale_up_run [OF assms])

lemma demo_ready [simp]: "operator_ready demo_kvctl_lib (demo_system (\<lambda>_. None) k sets)"
  by (simp add: operator_ready_def no_faults_def)

theorem scale_up_creates_missing_witness:
  "\<exists>c'. Reconcile demo_kvctl_lib (demo_system (\<lambda>_. None) (Some (demo_resource [] 2 zero_status)) []) =
       (Return (Inr (RequeueAfter 1)), c') \<and>
     api_sets c' = [owned_set demo_kvctl_lib (demo_resource [] 2 zero_status) 0, owned_set demo_kvctl_lib (demo_resource [] 2 zero_status) 1] \<and>
     length (api_services c') = 2 \<and> length (api_ingresses c') = 2"
proof -
  let ?kv = "demo_resource [] 2 zero_status"
  let ?c = "demo_system (\<lambda>_. None) (Some ?kv) []"
  have "room_for demo_kvctl_lib (begin_scale ?kv 0 (now ?c)) ?c" by (simp add: room_for_def names_free_def)
  then show ?thesis
    using scale_up_creates_missing [of demo_kvctl_lib ?c ?kv 0 "begin_scale ?kv 0 (now ?c)"]
    by (simp add: zero_status_def list_owned_def shards_added_def upto.simps) force
qed

section \<open>Scaling down\<close>

text \<open>The objects that the test of \<open>FinalizeScale\<close> on owner and label selects.\<close>

definition in_surplus_group :: "('b, 'r, 'z) kvctl_lib_scheme \<Rightarrow> KVStoreResource \<Rightarrow> ObjectMeta \<Rightarrow> bool" where
  "in_surplus_group K kv m \<longleftrightarrow>
     meta_Namespace m = kv_ns kv \<and> kv_name kv \<in> set (owner_index K m) \<and>
     (\<exists>i. 0 \<le> i \<and> kv_target kv \<le> i \<and> i < kv_current kv \<and> group_of m = shard_name (kv_name kv) i)"

lemma set_surplus_groups:
  "set (surplus_groups kv) = shard_name (kv_name kv) ` {i. 0 \<le> i \<and> kv_target kv \<le> i \<and> i < kv_current kv}"
  by (auto simp: surplus_groups_def)

definition well_stored :: "'r system \<Rightarrow> bool" where
  "well_stored c \<longleftrightarrow>
     unique_objects ss_Meta (api_sets c) \<and> unique_objects svc_Meta (api_services c) \<and> unique_objects ing_Meta (api_ingresses c)"

lemma distinct_list_owned: "unique_objects meta xs \<Longrightarrow> distinct (list_owned meta' index ns name xs)"
  by (simp add: unique_objects_def list_owned_def distinct_map)

context object_kind
begin

lemma delete_surplus:
  assumes "no_faults c" and "unique_objects meta (objs c)" and index: "\<And>x. index x = owner_index K (meta x)"
    and delete: "\<And>x c. delete x c = api_call (\<lambda>c. store_result put c (delete_in meta x (objs c))) c"
  shows "\<exists>n. delete_groups meta delete (surplus_groups kv) (list_owned meta index (kv_ns kv) (kv_name kv) (objs c)) c =
    (Return (Inr ()), put (filter (\<lambda>y. \<not> in_surplus_group K kv (meta y)) (objs c)) (ticks n c))"
proof -
  let ?xs = "list_owned meta index (kv_ns kv) (kv_name kv) (objs c)"
  have "filter (\<lambda>y. \<not> (y \<in> set ?xs \<and> group_of (meta y) \<in> set (surplus_groups kv))) (objs c) =
    filter (\<lambda>y. \<not> in_surplus_group K kv (meta y)) (objs c)"
    by (rule filter_cong) (auto simp: list_owned_def in_surplus_group_def set_surplus_groups index)
  moreover have "set ?xs \<subseteq> set (objs c)" by (auto simp: list_owned_def)
  ultimately show ?thesis
    using delete_all [OF assms(1,2) distinct_list_owned [OF assms(2)] _ delete, of meta index "kv_ns kv" "kv_name kv" "surplus_groups kv"]
    by (intro exI) simp
qed

end

lemma delete_groups_run:
  assumes "kube_ok K" and "no_faults c"
  shows "unique_objects ss_Meta (api_sets c) \<Longrightarrow> \<exists>n. delete_groups ss_Meta (delete_set K) (surplus_groups kv)
      (list_owned ss_Meta (index_StatefulSet K) (kv_ns kv) (kv_name kv) (api_sets c)) c =
      (Return (Inr ()), put_sets (filter (\<lambda>y. \<not> in_surplus_group K kv (ss_Meta y)) (api_sets c)) (ticks n c))"
    and "unique_objects svc_Meta (api_services c) \<Longrightarrow> \<exists>n. delete_groups svc_Meta (delete_service K) (surplus_groups kv)
      (list_owned svc_Meta (index_Service K) (kv_ns kv) (kv_name kv) (api_services c)) c =
      (Return (Inr ()), put_services (filter (\<lambda>y. \<not> in_surplus_group K kv (svc_Meta y)) (api_services c)) (ticks n c))"
    and "unique_objects ing_Meta (api_ingresses c) \<Longrightarrow> \<exists>n. delete_groups ing_Meta (delete_ingress K) (surplus_groups kv)
      (list_owned ing_Meta (index_Ingress K) (kv_ns kv) (kv_name kv) (api_ingresses c)) c =
      (Return (Inr ()), put_ingresses (filter (\<lambda>y. \<not> in_surplus_group K kv (ing_Meta y)) (api_ingresses c)) (ticks n c))"
  by (rule sets.delete_surplus services.delete_surplus ingresses.delete_surplus, rule assms(2), assumption,
      simp add: index_StatefulSet_def index_Service_def index_Ingress_def, simp add: kube_calls [OF assms(1)])+

definition resuming :: "KVStoreResource \<Rightarrow> nat \<Rightarrow> KVStoreResource" where
  "resuming kv t = with_counts (kv_target kv) (kv_target kv) (enter_phase PhaseResumingWrites ''Starting to resume writes'' t kv)"

lemma resuming_simps [simp]:
  "kv_name (resuming kv t) = kv_name kv" "kv_ns (resuming kv t) = kv_ns kv" "kv_phase (resuming kv t) = PhaseResumingWrites"
  "kv_current (resuming kv t) = kv_target kv" "kv_target (resuming kv t) = kv_target kv"
  "store_Spec (resuming kv t) = store_Spec kv" "config_text (resuming kv t) = config_text kv"
  "kv\<lparr>store_Status := store_Status (resuming kv t)\<rparr> = resuming kv t"
  by (simp_all add: resuming_def with_counts_def enter_phase_def config_text_def config_name_def fun_eq_iff)

lemma resume_phase_run:
  assumes "operator_ready K c" and "api_store c = Some kv" and "yaml_Marshal K (build_config (resuming kv (now c))) = Inr y"
  shows "\<exists>cms. resume_phase K kv c = (Return (Inr ()), put_store (Some (resuming kv (now c))) (put_configs cms (ticks 3 c))) \<and>
    config_text kv cms = Some y"
proof -
  obtain cms where cms: "UpdateConfigMap K (resuming kv (now c)) c = (Return (Inr ()), put_configs cms (ticks 2 c))"
    "config_text kv cms = Some y"
    using UpdateConfigMap_run [OF assms(1,3)] by auto
  have "status_update K (resuming kv (now c)) (put_configs cms (ticks 2 c)) =
    (Return (Inr ()), put_store (Some (resuming kv (now c))) (put_configs cms (ticks 3 c)))"
    using status_update_run [OF ready_kube [OF assms(1)], of "put_configs cms (ticks 2 c)" kv] assms(1,2)
    by (simp add: configs.ticks_put)
  then show ?thesis
    using cms
    by (intro exI [of _ cms]) (simp add: resume_phase_def bind_act_def [of read_now] read_now_def Let_def resuming_def [symmetric] bind_ok_run)
qed

lemma FinalizeScale_down:
  assumes "operator_ready K c" and "api_store c = Some kv" and "kv_target kv \<le> kv_current kv" and "well_stored c"
    and "yaml_Marshal K (build_config (resuming kv (now c))) = Inr y"
  shows "\<exists>c'. FinalizeScale K kv c = (Return (Inr ()), c') \<and> api_store c' = Some (resuming kv (now c)) \<and>
    api_sets c' = filter (\<lambda>x. \<not> in_surplus_group K kv (ss_Meta x)) (api_sets c) \<and>
    api_services c' = filter (\<lambda>x. \<not> in_surplus_group K kv (svc_Meta x)) (api_services c) \<and>
    api_ingresses c' = filter (\<lambda>x. \<not> in_surplus_group K kv (ing_Meta x)) (api_ingresses c) \<and>
    config_text kv (api_configs c') = Some y"
proof -
  have calm: "no_faults c" and kube: "kube_ok K" using assms(1) by (simp_all add: operator_ready_def)
  let ?sets = "filter (\<lambda>x. \<not> in_surplus_group K kv (ss_Meta x)) (api_sets c)"
  let ?services = "filter (\<lambda>x. \<not> in_surplus_group K kv (svc_Meta x)) (api_services c)"
  let ?ingresses = "filter (\<lambda>x. \<not> in_surplus_group K kv (ing_Meta x)) (api_ingresses c)"
  obtain k where k: "delete_groups ss_Meta (delete_set K) (surplus_groups kv) (owned_sets K kv c) (ticks 1 c) =
    (Return (Inr ()), put_sets ?sets (ticks k (ticks 1 c)))"
    using delete_groups_run(1) [OF kube, of "ticks 1 c" kv] assms(4) calm by (auto simp: well_stored_def)
  let ?c1 = "put_sets ?sets (ticks k (ticks 1 c))"
  obtain l where l: "delete_groups ing_Meta (delete_ingress K) (surplus_groups kv)
      (list_owned ing_Meta (index_Ingress K) (kv_ns kv) (kv_name kv) (api_ingresses c)) (ticks 1 ?c1) =
    (Return (Inr ()), put_ingresses ?ingresses (ticks l (ticks 1 ?c1)))"
    using delete_groups_run(3) [OF kube, of "ticks 1 ?c1" kv] assms(4) calm by (auto simp: well_stored_def)
  let ?c2 = "put_ingresses ?ingresses (ticks l (ticks 1 ?c1))"
  obtain m where m: "delete_groups svc_Meta (delete_service K) (surplus_groups kv)
      (list_owned svc_Meta (index_Service K) (kv_ns kv) (kv_name kv) (api_services c)) (ticks 1 ?c2) =
    (Return (Inr ()), put_services ?services (ticks m (ticks 1 ?c2)))"
    using delete_groups_run(2) [OF kube, of "ticks 1 ?c2" kv] assms(4) calm by (auto simp: well_stored_def)
  let ?c3 = "put_services ?services (ticks m (ticks 1 ?c2))"
  obtain cms where cms: "resume_phase K kv ?c3 = (Return (Inr ()), put_store (Some (resuming kv (now c))) (put_configs cms (ticks 3 ?c3)))"
    "config_text kv cms = Some y"
    using resume_phase_run [of K ?c3 kv y] assms(1,2,5) by auto
  have lists: "GetShards K kv c = (Return (owned_sets K kv c), ticks 1 c)"
    "GetIngresses K kv ?c1 = (Return (list_owned ing_Meta (index_Ingress K) (kv_ns kv) (kv_name kv) (api_ingresses c)), ticks 1 ?c1)"
    "GetServices K kv ?c2 = (Return (list_owned svc_Meta (index_Service K) (kv_ns kv) (kv_name kv) (api_services c)), ticks 1 ?c2)"
    using lists_run(1) [OF kube, of c kv] lists_run(3) [OF kube, of ?c1 kv] lists_run(2) [OF kube, of ?c2 kv] calm by simp_all
  have "FinalizeScale K kv c = (Return (Inr ()), put_store (Some (resuming kv (now c))) (put_configs cms (ticks 3 ?c3)))"
    using assms(3)
    by (simp add: FinalizeScale_def Let_def bind_run [where c = c] bind_run [where c = ?c1] bind_run [where c = ?c2]
        bind_ok_run lists k l m cms(1) del: ticks_simps One_nat_def)
  then show ?thesis using cms(2) by (intro exI conjI) (assumption | simp)+
qed

lemma FinalizeScale_run:
  assumes "operator_ready K c" and "api_store c = Some kv" and "well_stored c"
    and "yaml_Marshal K (build_config (resuming kv (now c))) = Inr y"
  shows "\<exists>c'. FinalizeScale K kv c = (Return (Inr ()), c') \<and> api_store c' = Some (resuming kv (now c)) \<and>
    api_sets c' = filter (\<lambda>x. \<not> in_surplus_group K kv (ss_Meta x)) (api_sets c) \<and>
    api_services c' = filter (\<lambda>x. \<not> in_surplus_group K kv (svc_Meta x)) (api_services c) \<and>
    api_ingresses c' = filter (\<lambda>x. \<not> in_surplus_group K kv (ing_Meta x)) (api_ingresses c) \<and>
    config_text kv (api_configs c') = Some y"
proof (cases "kv_target kv \<le> kv_current kv")
  case True
  then show ?thesis by (rule FinalizeScale_down [OF assms(1,2) _ assms(3,4)])
next
  case False
  then have "\<not> in_surplus_group K kv m" for m by (auto simp: in_surplus_group_def)
  moreover obtain cms where "resume_phase K kv c =
      (Return (Inr ()), put_store (Some (resuming kv (now c))) (put_configs cms (ticks 3 c)))" "config_text kv cms = Some y"
    using resume_phase_run [OF assms(1,2,4)] by blast
  ultimately show ?thesis
    using False by (intro exI [of _ "put_store (Some (resuming kv (now c))) (put_configs cms (ticks 3 c))"]) (simp add: FinalizeScale_def)
qed

lemma Reconcile_in_phase:
  assumes "operator_ready K c" and "api_store c = Some kv" and "kv_phase kv \<noteq> PhaseNormal"
    and "\<forall>s \<in> set (owned_sets K kv c). ss_Replicas s = spec_Replicas (store_Spec kv)"
  shows "Reconcile K c = phase_switch K kv (ticks 2 c)"
  using assms
  by (simp add: Reconcile_def bind_run [OF get_store_run [OF ready_kube [OF assms(1)]]] bind_ok_run [OF list_sets_run [OF ready_kube [OF assms(1)]]] bind_ok_run [OF fix_replicas_run]
      numeral_2_eq_2)

lemma Reconcile_finalize:
  assumes "operator_ready K c" and "api_store c = Some kv" and "kv_phase kv = PhaseFinalizingScale"
    and "\<forall>s \<in> set (owned_sets K kv c). ss_Replicas s = spec_Replicas (store_Spec kv)" and "well_stored c"
    and "kv' = resuming kv (now c)" and "yaml_Marshal K (build_config kv') = Inr y"
  shows "\<exists>c'. Reconcile K c = (Return (Inr (RequeueAfter 1)), c') \<and> api_store c' = Some kv' \<and>
    api_sets c' = filter (\<lambda>x. \<not> in_surplus_group K kv (ss_Meta x)) (api_sets c) \<and>
    api_services c' = filter (\<lambda>x. \<not> in_surplus_group K kv (svc_Meta x)) (api_services c) \<and>
    api_ingresses c' = filter (\<lambda>x. \<not> in_surplus_group K kv (ing_Meta x)) (api_ingresses c) \<and>
    config_text kv (api_configs c') = Some y \<and>
    build_config kv' = \<lparr>config_Shards = map (config_shard kv) [0..kv_target kv - 1], config_NewShards = []\<rparr>"
proof -
  have c2: "operator_ready K (ticks 2 c)" "api_store (ticks 2 c) = Some kv" "well_stored (ticks 2 c)"
    "yaml_Marshal K (build_config (resuming kv (now (ticks 2 c)))) = Inr y"
    using assms by (simp_all add: well_stored_def)
  have "Reconcile K c = bind_ok (FinalizeScale K kv) (\<lambda>_. ret (Inr (RequeueAfter 1))) (ticks 2 c)"
    using Reconcile_in_phase [OF assms(1,2)] assms(3,4) by (simp add: phase_switch_def)
  moreover have "config_shard kv' = config_shard kv"
    using assms(6) by (simp add: config_shard_def fun_eq_iff)
  ultimately show ?thesis
    using FinalizeScale_run [OF c2] assms(6) by (auto simp: bind_ok_run ret_def build_config_def Let_def)
qed

section \<open>Groups of the operator's own objects\<close>

lemma map_of_copy_map: "map_of (copy_map dst src) = map_of dst ++ map_of (rev src)"
proof (induction src arbitrary: dst)
  case (Cons x src)
  then show ?case by (cases x) (simp add: copy_map_def update_conv' map_add_def fun_eq_iff split: option.splits)
qed (simp add: copy_map_def)

lemma own_objects:
  "meta_Labels (ss_Meta (owned_set K kv i)) = copy_map (shard_labels kv i) (meta_Labels (store_Meta kv))"
  "meta_Labels (svc_Meta (owned_service K kv i)) = copy_map (shard_labels kv i) (meta_Labels (store_Meta kv))"
  "meta_Labels (ing_Meta (owned_ingress K kv i)) = copy_map (shard_labels kv i) (meta_Labels (store_Meta kv))"
  "owner_index K (ss_Meta (owned_set K kv i)) = [kv_name kv]" "owner_index K (svc_Meta (owned_service K kv i)) = [kv_name kv]"
  "owner_index K (ing_Meta (owned_ingress K kv i)) = [kv_name kv]"
  by (simp_all add: owned_set_def owned_service_def owned_ingress_def controlled_by_def shard_set_def shard_service_def
      shard_ingress_def owner_index_def)

text \<open>The label \<open>group\<close> of an object of shard \<open>i\<close>, unless the labels of the resource replace it.\<close>

lemma group_of_own:
  assumes "meta_Labels m = copy_map (shard_labels kv i) (meta_Labels (store_Meta kv))"
  shows "group_of m = (case map_of (rev (meta_Labels (store_Meta kv))) ''group'' of
    None \<Rightarrow> shard_name (kv_name kv) i | Some g \<Rightarrow> g)"
  by (simp add: group_of_def assms map_of_copy_map shard_labels_def map_add_def split: option.splits)

lemma surplus_own:
  assumes "meta_Labels m = copy_map (shard_labels kv i) (meta_Labels (store_Meta kv))" and "owner_index K m = [kv_name kv]"
    and "meta_Namespace m = kv_ns kv" and "map_of (rev (meta_Labels (store_Meta kv))) ''group'' = None" and "0 \<le> i"
  shows "in_surplus_group K kv m \<longleftrightarrow> kv_target kv \<le> i \<and> i < kv_current kv"
  using assms by (auto simp: in_surplus_group_def group_of_own [OF assms(1)])

text \<open>An object of a shard beyond the target, by its name; \<open>suffix\<close> tells the kinds apart.\<close>

definition beyond_target :: "KVStoreResource \<Rightarrow> string \<Rightarrow> ObjectMeta \<Rightarrow> bool" where
  "beyond_target kv suffix m \<longleftrightarrow>
     meta_Namespace m = kv_ns kv \<and>
     (\<exists>i. 0 \<le> i \<and> kv_target kv \<le> i \<and> i < kv_current kv \<and> meta_Name m = shard_name (kv_name kv) i @ suffix)"

text \<open>Every object the resource owns, and every object with the name of one of its shards' objects, was made by
  the operator for some shard, when the resource had no label \<open>group\<close> of its own.\<close>

definition operator_made ::
  "('b, 'r, 'z) kvctl_lib_scheme \<Rightarrow> KVStoreResource \<Rightarrow> string \<Rightarrow> (KVStoreResource \<Rightarrow> int \<Rightarrow> ObjectMeta) \<Rightarrow> ObjectMeta \<Rightarrow> bool" where
  "operator_made K kv suffix mk m \<longleftrightarrow>
     meta_Namespace m = kv_ns kv \<and>
     (kv_name kv \<in> set (owner_index K m) \<or> (\<exists>i. 0 \<le> i \<and> meta_Name m = shard_name (kv_name kv) i @ suffix)) \<longrightarrow>
     (\<exists>kv0 i. 0 \<le> i \<and> kv_name kv0 = kv_name kv \<and> kv_ns kv0 = kv_ns kv \<and>
        map_of (rev (meta_Labels (store_Meta kv0))) ''group'' = None \<and> m = mk kv0 i)"

definition all_operator_made :: "('b, 'r, 'z) kvctl_lib_scheme \<Rightarrow> KVStoreResource \<Rightarrow> 'r system \<Rightarrow> bool" where
  "all_operator_made K kv c \<longleftrightarrow>
     (\<forall>x \<in> set (api_sets c). operator_made K kv ''-replica'' (\<lambda>kv i. ss_Meta (owned_set K kv i)) (ss_Meta x)) \<and>
     (\<forall>x \<in> set (api_services c). operator_made K kv [] (\<lambda>kv i. svc_Meta (owned_service K kv i)) (svc_Meta x)) \<and>
     (\<forall>x \<in> set (api_ingresses c). operator_made K kv ''-ingress'' (\<lambda>kv i. ing_Meta (owned_ingress K kv i)) (ing_Meta x))"

lemma selected_by_name:
  assumes "operator_made K kv suffix mk m"
    and "\<And>kv i. meta_Labels (mk kv i) = copy_map (shard_labels kv i) (meta_Labels (store_Meta kv))"
    and "\<And>kv i. owner_index K (mk kv i) = [kv_name kv]"
    and "\<And>kv i. meta_Name (mk kv i) = shard_name (kv_name kv) i @ suffix"
  shows "in_surplus_group K kv m \<longleftrightarrow> beyond_target kv suffix m"
proof (cases "in_surplus_group K kv m \<or> beyond_target kv suffix m")
  case True
  then obtain kv0 i where m: "kv_name kv0 = kv_name kv" "map_of (rev (meta_Labels (store_Meta kv0))) ''group'' = None" "m = mk kv0 i"
    using assms(1) unfolding operator_made_def in_surplus_group_def beyond_target_def by blast
  have "group_of m = shard_name (kv_name kv) i"
    using group_of_own [OF assms(2), of kv0 i] m by simp
  moreover have "kv_name kv \<in> set (owner_index K m)" "meta_Name m = shard_name (kv_name kv) i @ suffix"
    using m assms(3,4) by simp_all
  ultimately show ?thesis by (simp add: in_surplus_group_def beyond_target_def)
qed simp

lemma selected_objects:
  assumes "all_operator_made K kv c"
  shows "filter (\<lambda>x. \<not> in_surplus_group K kv (ss_Meta x)) (api_sets c) = filter (\<lambda>x. \<not> beyond_target kv ''-replica'' (ss_Meta x)) (api_sets c)"
    and "filter (\<lambda>x. \<not> in_surplus_group K kv (svc_Meta x)) (api_services c) = filter (\<lambda>x. \<not> beyond_target kv [] (svc_Meta x)) (api_services c)"
    and "filter (\<lambda>x. \<not> in_surplus_group K kv (ing_Meta x)) (api_ingresses c) = filter (\<lambda>x. \<not> beyond_target kv ''-ingress'' (ing_Meta x)) (api_ingresses c)"
  using assms unfolding all_operator_made_def
  by (auto intro!: filter_cong simp: selected_by_name own_objects)

text \<open>C14: without API faults, and when the objects of the resource were made by the operator while the resource
  had no label \<open>group\<close>, finalizing deletes the StatefulSets, Services and Ingresses named after the shards
  from the target up to the current count and leaves every other object, writes the configuration of the
  target without new shards, and enters the phase that resumes writes with the target as the count.\<close>

theorem finalize_removes_surplus:
  assumes "operator_ready K c" and "api_store c = Some kv" and "kv_phase kv = PhaseFinalizingScale"
    and "\<forall>s \<in> set (owned_sets K kv c). ss_Replicas s = spec_Replicas (store_Spec kv)" and "well_stored c"
    and "all_operator_made K kv c"
    and "kv' = resuming kv (now c)" and "yaml_Marshal K (build_config kv') = Inr y"
  shows "\<exists>c'. Reconcile K c = (Return (Inr (RequeueAfter 1)), c') \<and> api_store c' = Some kv' \<and>
    api_sets c' = filter (\<lambda>x. \<not> beyond_target kv ''-replica'' (ss_Meta x)) (api_sets c) \<and>
    api_services c' = filter (\<lambda>x. \<not> beyond_target kv [] (svc_Meta x)) (api_services c) \<and>
    api_ingresses c' = filter (\<lambda>x. \<not> beyond_target kv ''-ingress'' (ing_Meta x)) (api_ingresses c) \<and>
    config_text kv (api_configs c') = Some y \<and>
    build_config kv' = \<lparr>config_Shards = map (config_shard kv) [0..kv_target kv - 1], config_NewShards = []\<rparr>"
  using Reconcile_finalize [OF assms(1-5,7,8)] unfolding selected_objects [OF assms(6)] .

theorem finalize_removes_surplus_witness:
  "let kv = demo_resource [] 1 (demo_status PhaseFinalizingScale 2 1) in
   \<exists>c'. Reconcile demo_kvctl_lib (demo_system (\<lambda>_. None) (Some kv) [owned_set demo_kvctl_lib kv 0, owned_set demo_kvctl_lib kv 1]) =
       (Return (Inr (RequeueAfter 1)), c') \<and>
     api_sets c' = [owned_set demo_kvctl_lib kv 0] \<and> config_text kv (api_configs c') = Some ''s-shard-0/''"
proof -
  let ?kv = "demo_resource [] 1 (demo_status PhaseFinalizingScale 2 1)"
  let ?c = "demo_system (\<lambda>_. None) (Some ?kv) [owned_set demo_kvctl_lib ?kv 0, owned_set demo_kvctl_lib ?kv 1]"
  have "beyond_target ?kv ''-replica'' (ss_Meta (owned_set demo_kvctl_lib ?kv i)) \<longleftrightarrow> 1 \<le> i \<and> i < 2" if "0 \<le> i" for i
    using that by (auto simp: beyond_target_def)
  moreover have "operator_made demo_kvctl_lib ?kv ''-replica'' (\<lambda>kv i. ss_Meta (owned_set demo_kvctl_lib kv i)) (ss_Meta (owned_set demo_kvctl_lib ?kv i))"
    if "0 \<le> i" for i
    unfolding operator_made_def using that by (intro impI exI [of _ ?kv] exI [of _ i]) simp
  then have "all_operator_made demo_kvctl_lib ?kv ?c" by (simp add: all_operator_made_def)
  moreover have "well_stored ?c" by (simp add: well_stored_def unique_objects_def object_key_def)
  moreover have "ss_Replicas (owned_set demo_kvctl_lib ?kv i) = 1" for i by (simp add: owned_set_def shard_set_def)
  moreover have "demo_yaml (build_config (resuming ?kv 0)) = ''s-shard-0/''"
    by (simp add: demo_yaml_def build_config_def upto.simps config_shard_def shard_name_def render_simps)
  ultimately show ?thesis
    using finalize_removes_surplus [of demo_kvctl_lib ?c ?kv "resuming ?kv (now ?c)"]
    by (simp add: list_owned_def index_StatefulSet_def own_objects) force
qed

section \<open>At rest\<close>

lemma reconcile_rest_run:
  assumes "operator_ready K c" and "api_store c = Some kv" and "kv_phase kv = PhaseNormal"
    and "\<forall>s \<in> set (owned_sets K kv c). ss_Replicas s = spec_Replicas (store_Spec kv)"
    and "int (length (owned_sets K kv c)) = sint (spec_Shards (store_Spec kv))"
  shows "Reconcile K c = (Return (Inr Done), ticks 2 c)"
  using assms
  by (simp add: Reconcile_def bind_run [OF get_store_run [OF ready_kube [OF assms(1)]]] bind_ok_run [OF list_sets_run [OF ready_kube [OF assms(1)]]] bind_ok_run [OF fix_replicas_run]
      bind_act_def [of read_now] read_now_def Let_def phase_switch_def ret_def numeral_2_eq_2)

text \<open>A reconciliation of a resource at rest whose shards and replicas match its spec asks for no
  further reconciliation and changes nothing but the count of API calls.\<close>

theorem reconcile_at_rest:
  assumes "operator_ready K c" and "api_store c = Some kv" and "kv_phase kv = PhaseNormal"
    and "\<forall>s \<in> set (owned_sets K kv c). ss_Replicas s = spec_Replicas (store_Spec kv)"
    and "int (length (owned_sets K kv c)) = sint (spec_Shards (store_Spec kv))"
  shows "Reconcile K c = (Return (Inr Done), c\<lparr>api_clock := api_clock c + 2\<rparr>)"
  using reconcile_rest_run [OF assms] by (simp only: ticks_def)

theorem reconcile_at_rest_witness:
  "let c = demo_system (\<lambda>_. None) (Some (demo_resource [] 1 zero_status)) [owned_set demo_kvctl_lib (demo_resource [] 1 zero_status) 0] in
   Reconcile demo_kvctl_lib c = (Return (Inr Done), c\<lparr>api_clock := 2\<rparr>)"
  using reconcile_at_rest [of demo_kvctl_lib "demo_system (\<lambda>_. None) (Some (demo_resource [] 1 zero_status))
      [owned_set demo_kvctl_lib (demo_resource [] 1 zero_status) 0]" "demo_resource [] 1 zero_status"]
  by (simp add: list_owned_def index_StatefulSet_def own_objects zero_status_def)
    (simp add: owned_set_def shard_set_def)

text \<open>The shards whose replica count differs from the spec.\<close>

definition wrong_replicas :: "('b, 'r, 'z) kvctl_lib_scheme \<Rightarrow> KVStoreResource \<Rightarrow> 'r system \<Rightarrow> StatefulSet list" where
  "wrong_replicas K kv c = filter (\<lambda>s. ss_Replicas s \<noteq> spec_Replicas (store_Spec kv)) (owned_sets K kv c)"

definition with_replicas :: "KVStoreResource \<Rightarrow> StatefulSet \<Rightarrow> StatefulSet" where
  "with_replicas kv s =
     s\<lparr>ss_Replicas := spec_Replicas (store_Spec kv),
       ss_TemplateAnnotations := Some (AList.update ''replicas'' (itoa (sint (spec_Replicas (store_Spec kv))))
         (case ss_TemplateAnnotations s of None \<Rightarrow> [] | Some as \<Rightarrow> as))\<rparr>"

lemma fix_replicas_first:
  assumes "filter (\<lambda>s. ss_Replicas s \<noteq> spec_Replicas (store_Spec kv)) shards = s # ss"
  shows "fix_replicas K kv shards = bind_ok (update_set K (with_replicas kv s)) (\<lambda>_. ret (Inr (Some (RequeueAfter 1))))"
  using assms by (induction shards) (auto simp: with_replicas_def Let_def split: if_splits)

lemma replace_unique:
  assumes "unique_objects meta xs" and "s \<in> set xs" and "meta t = meta s"
  shows "map (\<lambda>x. if same_object (meta x) (meta t) then t else x) xs = map (\<lambda>x. if x = s then t else x) xs"
  using unique_objects_eq [OF assms(1) _ assms(2)] assms(3) by (auto simp: same_object_key)

lemma filter_replace: "\<not> P t \<Longrightarrow> filter P (map (\<lambda>x. if x = s then t else x) xs) = filter (\<lambda>x. P x \<and> x \<noteq> s) xs"
  by (induction xs) auto

text \<open>C34: a change of the replica count is carried out one shard per reconciliation: without API faults
  the StatefulSet of the first shard with another count gets the count of the spec, also in the annotation of
  its pods, and the next reconciliation is asked for.  Nothing else changes, in the resource, the other objects
  or the shard processes, but the count of API calls; the number of shards left to change goes down by one.\<close>

theorem replica_change_progresses:
  assumes "operator_ready K c" and "api_store c = Some kv" and "unique_objects ss_Meta (api_sets c)"
    and "wrong_replicas K kv c = s # ss"
  shows "let c' = c\<lparr>api_sets := map (\<lambda>x. if x = s then with_replicas kv s else x) (api_sets c), api_clock := api_clock c + 3\<rparr> in
    Reconcile K c = (Return (Inr (RequeueAfter 1)), c') \<and> length (wrong_replicas K kv c') = length ss"
proof -
  let ?t = "with_replicas kv s"
  let ?f = "\<lambda>x. if x = s then ?t else x"
  let ?c = "put_sets (map ?f (api_sets c)) (ticks 3 c)"
  have s: "s \<in> set (api_sets c)" "ss_Replicas s \<noteq> spec_Replicas (store_Spec kv)"
    using assms(4) by (auto simp: wrong_replicas_def list_owned_def filter_eq_Cons_iff)
  have t: "ss_Meta ?t = ss_Meta s" "ss_Replicas ?t = spec_Replicas (store_Spec kv)" by (simp_all add: with_replicas_def)
  have "\<exists>x \<in> set (api_sets c). same_object (ss_Meta x) (ss_Meta ?t)" using s(1) t(1) by (auto simp: same_object_def)
  then have "update_set K ?t (ticks 2 c) = (Return (Inr ()), ?c)"
    using assms(1) replace_unique [OF assms(3) s(1) t(1)]
    by (simp add: kube_calls [OF ready_kube [OF assms(1)]] api_call_run update_in_def store_result_def del: map_eq_conv)
  then have "fix_replicas K kv (owned_sets K kv c) (ticks 2 c) = (Return (Inr (Some (RequeueAfter 1))), ?c)"
    unfolding fix_replicas_first [OF assms(4) [unfolded wrong_replicas_def]] by (simp add: bind_ok_run ret_def)
  then have run: "Reconcile K c = (Return (Inr (RequeueAfter 1)), ?c)"
    using assms(1,2)
    by (simp add: Reconcile_def bind_run [OF get_store_run [OF ready_kube [OF assms(1)]]] bind_ok_run [OF list_sets_run [OF ready_kube [OF assms(1)]]] bind_ok_run ret_def numeral_2_eq_2)
  have "wrong_replicas K kv ?c = filter (\<lambda>x. x \<noteq> s) (wrong_replicas K kv c)"
    unfolding wrong_replicas_def list_owned_def filter_filter [symmetric] using t(2)
    by (simp only: put_simps filter_filter) (simp add: filter_replace)
  moreover have "distinct (s # ss)"
    using assms(3,4) distinct_list_owned [OF assms(3)] by (metis distinct_filter wrong_replicas_def)
  ultimately have "length (wrong_replicas K kv ?c) = length ss"
    using assms(4) filter_id_conv [of "\<lambda>x. x \<noteq> s" ss] by auto
  moreover have "?c = c\<lparr>api_sets := map ?f (api_sets c), api_clock := api_clock c + 3\<rparr>" by (simp add: put_sets_def ticks_def)
  ultimately show ?thesis using run by (simp only: Let_def simp_thms)
qed

theorem replica_change_progresses_witness:
  "let kv = demo_resource [] 2 zero_status; s = (owned_set demo_kvctl_lib kv 0)\<lparr>ss_Replicas := 3\<rparr>; t = owned_set demo_kvctl_lib kv 1 in
   Reconcile demo_kvctl_lib (demo_system (\<lambda>_. None) (Some kv) [t, s]) =
     (Return (Inr (RequeueAfter 1)), (demo_system (\<lambda>_. None) (Some kv) [t, with_replicas kv s])\<lparr>api_clock := 3\<rparr>)"
proof -
  let ?kv = "demo_resource [] 2 zero_status"
  let ?s = "(owned_set demo_kvctl_lib ?kv 0)\<lparr>ss_Replicas := 3\<rparr>"
  let ?c = "demo_system (\<lambda>_. None) (Some ?kv) [owned_set demo_kvctl_lib ?kv 1, ?s]"
  have own: "owner_index demo_kvctl_lib (ss_Meta (owned_set demo_kvctl_lib ?kv i)) = [''s'']" for i by (simp add: own_objects)
  have reps: "ss_Replicas (owned_set demo_kvctl_lib ?kv i) = 1" for i by (simp add: owned_set_def shard_set_def)
  have "ss_Replicas (owned_set demo_kvctl_lib ?kv 1) \<noteq> ss_Replicas ?s" by (simp add: reps)
  then have "owned_set demo_kvctl_lib ?kv 1 \<noteq> ?s" by metis
  moreover have "wrong_replicas demo_kvctl_lib ?kv ?c = ?s # []"
    by (simp add: wrong_replicas_def list_owned_def index_StatefulSet_def own reps)
  moreover have "unique_objects ss_Meta (api_sets ?c)" by (simp add: unique_objects_def object_key_def)
  moreover have "?c\<lparr>api_sets := xs, api_clock := n\<rparr> = (demo_system (\<lambda>_. None) (Some ?kv) xs)\<lparr>api_clock := n\<rparr>" "api_clock ?c = 0" for xs n
    by (simp_all add: demo_system_def)
  ultimately show ?thesis
    using replica_change_progresses [of demo_kvctl_lib ?c ?kv ?s "[]"] by (simp add: Let_def)
qed

end
