(* ===== verification/Kvctl_Faults.thy ===== *)
theory Kvctl_Faults
  imports Kvctl_Correct
begin

text \<open>
  Where the reconciler does not recover.  The first part runs it under a single failing API call; the
  theorems show states in which a scaling operation is skipped, half done or never finished although
  every later call succeeds.
  Beside them, the first deployment of a resource completes when no call fails.
\<close>

section \<open>One failing call\<close>

text \<open>The call after the next \<open>k\<close> calls fails with \<open>e\<close>, and no other.\<close>

definition one_fault :: "nat \<Rightarrow> err \<Rightarrow> 'r system \<Rightarrow> bool" where
  "one_fault k e c \<longleftrightarrow> (\<forall>n \<ge> api_clock c. api_fault c n = (if n = api_clock c + k then Some e else None))"

lemma one_fault_next: "one_fault (Suc k) e c \<Longrightarrow> one_fault k e (ticks 1 c)"
  by (simp add: one_fault_def ticks_def)

lemma one_fault_over: "one_fault 0 e c \<Longrightarrow> no_faults (ticks 1 c)"
  by (simp add: one_fault_def no_faults_def ticks_def)

lemma api_call_fault: "one_fault 0 e c \<Longrightarrow> api_call f c = (Return (Inl e), ticks 1 c)"
  by (simp add: api_call_alt one_fault_def ticks_def Let_def)

lemma api_call_before: "one_fault (Suc k) e c \<Longrightarrow> api_call f c = map_prod Return id (f (ticks 1 c))"
  by (simp add: api_call_alt one_fault_def ticks_def Let_def split: prod.splits)

lemma get_store_before:
  "kube_ok K \<Longrightarrow> one_fault (Suc k) e c \<Longrightarrow> api_store c = Some kv \<Longrightarrow> get_store K c = (Return (Inr kv), ticks 1 c)"
  by (simp add: kube_calls api_call_before)

lemma list_sets_before:
  "kube_ok K \<Longrightarrow> one_fault (Suc k) e c \<Longrightarrow>
   list_sets K ns name c = (Return (Inr (list_owned ss_Meta (index_StatefulSet K) ns name (api_sets c))), ticks 1 c)"
  by (simp add: kube_calls api_call_before [of k e c])

lemma two_calls_before: "one_fault 2 e c \<Longrightarrow> one_fault 1 e (ticks 1 c) \<and> one_fault 0 e (ticks 2 c) \<and> no_faults (ticks 3 c)"
  using one_fault_next [of 1 e c] one_fault_next [of 0 e "ticks 1 c"] one_fault_over [of e "ticks 2 c"]
  by (simp add: numeral_2_eq_2 numeral_3_eq_3)

lemma fault_call: "one_fault 2 e c \<Longrightarrow> api_call f (ticks 2 c) = (Return (Inl e), ticks 3 c)"
  using two_calls_before [of e c] api_call_fault [of e "ticks 2 c" f] by simp

text \<open>A reconciliation up to the point where it has listed the shards and found their replicas right.\<close>

lemma Reconcile_before:
  assumes kube: "kube_ok K" and "one_fault 2 e c" and "api_store c = Some kv"
    and "\<forall>s \<in> set (owned_sets K kv c). ss_Replicas s = spec_Replicas (store_Spec kv)"
  shows "Reconcile K c =
    (if kv_phase kv = PhaseNormal then
       let n = int (length (owned_sets K kv c)); kv' = begin_scale kv n (now c) in
       if n < sint (spec_Shards (store_Spec kv)) then scale_up K kv'
       else if n > sint (spec_Shards (store_Spec kv)) then
         bind_act (status_update K kv') (\<lambda>_. bind_ok (UpdateConfigMap K kv') (\<lambda>_. phase_switch K kv'))
       else phase_switch K kv
     else phase_switch K kv) (ticks 2 c)"
proof -
  have "get_store K c = (Return (Inr kv), ticks 1 c)"
    "list_sets K (kv_ns kv) (kv_name kv) (ticks 1 c) = (Return (Inr (owned_sets K kv c)), ticks 2 c)"
    using get_store_before [OF kube, of 1 e c kv] list_sets_before [OF kube, of 0 e "ticks 1 c"] assms(2,3) two_calls_before [OF assms(2)]
    by (simp_all add: numeral_2_eq_2)
  then show ?thesis
    using assms(4)
    by (simp add: Reconcile_def bind_run bind_ok_run bind_ok_run [OF fix_replicas_run] bind_act_def [of read_now] read_now_def Let_def)
qed

section \<open>A lost status update\<close>

lemma owned_sets_added:
  "api_sets c' = api_sets c @ map (owned_set K kv) is \<Longrightarrow> owned_sets K kv c' = owned_sets K kv c @ map (owned_set K kv) is"
  by (simp add: list_owned_def index_StatefulSet_def own_objects filter_map o_def)

text \<open>C37: the error of the status update that begins a scaling operation is ignored.  If that call alone
  fails, the new shards and the configuration that announces them are created, yet the stored resource
  stays at rest, and the next reconciliation finds as many shards as the spec asks for and does nothing:
  no key is ever redistributed.\<close>

theorem lost_status_update_strands_scaling:
  assumes "one_fault 2 e c" and "kube_ok K \<and> reference_ok K" and "api_store c = Some kv" and "kv_phase kv = PhaseNormal"
    and "\<forall>s \<in> set (owned_sets K kv c). ss_Replicas s = spec_Replicas (store_Spec kv)"
    and "n = int (length (owned_sets K kv c))" and "n < sint (spec_Shards (store_Spec kv))"
    and "kv' = begin_scale kv n (now c)" and "room_for K kv' c" and "yaml_Marshal K (build_config kv') = Inr y"
  shows "\<exists>c1. Reconcile K c = (Return (Inr (RequeueAfter 1)), c1) \<and> api_store c1 = Some kv \<and>
    shards_added K kv [n..sint (spec_Shards (store_Spec kv)) - 1] y c c1 \<and>
    Reconcile K c1 = (Return (Inr Done), ticks 2 c1)"
proof -
  let ?sh = "sint (spec_Shards (store_Spec kv))"
  have lost: "status_update K kv' (ticks 2 c) = (Return (Inl e), ticks 3 c)"
    using assms(2) by (simp add: kube_calls fault_call [OF assms(1)])
  have ready: "operator_ready K (ticks 3 c)"
    using two_calls_before [OF assms(1)] assms(2) by (simp add: operator_ready_def)
  have "room_for K kv' (ticks 3 c)" using assms(9) by (simp add: room_for_def)
  then obtain c1 where c1: "bind_ok (UpdateConfigMap K kv') (\<lambda>_. bind_ok (SpinUpShardIngresses K kv') (\<lambda>_.
      bind_ok (SpinUpShardServices K kv') (\<lambda>_. bind_ok (SpinUpShards K kv') (\<lambda>_. ret (Inr (RequeueAfter 1)))))) (ticks 3 c) =
      (Return (Inr (RequeueAfter 1)), c1)" "shards_added K kv' (new_shards kv') y (ticks 3 c) c1"
      "api_store c1 = Some kv" "operator_ready K c1"
    using scale_up_creates [OF ready assms(10)] assms(3) by auto
  have run: "Reconcile K c = (Return (Inr (RequeueAfter 1)), c1)"
    using Reconcile_before [OF conjunct1 [OF assms(2)] assms(1,3,5)] assms(4,6,7,8) lost c1(1) by (simp add: scale_up_def bind_run Let_def)
  have added: "shards_added K kv [n..?sh - 1] y c c1" using c1(2) assms(8) by (simp add: shards_added_def)
  have sets: "owned_sets K kv c1 = owned_sets K kv c @ map (owned_set K kv) [n..?sh - 1]"
    by (rule owned_sets_added) (use added in \<open>simp add: shards_added_def\<close>)
  have "ss_Replicas (owned_set K kv i) = spec_Replicas (store_Spec kv)" for i by (simp add: owned_set_def shard_set_def)
  then have "\<forall>s \<in> set (owned_sets K kv c1). ss_Replicas s = spec_Replicas (store_Spec kv)" using assms(5) sets by auto
  moreover have "int (length (owned_sets K kv c1)) = ?sh" using sets assms(6,7) by simp
  ultimately have "Reconcile K c1 = (Return (Inr Done), ticks 2 c1)" by (rule reconcile_rest_run [OF c1(4,3) assms(4)])
  then show ?thesis using run c1(3) added by blast
qed

lemma demo_one_fault [simp]: "one_fault k e (demo_system (\<lambda>n. if n = k then Some e else None) kv sets)"
  by (simp add: one_fault_def)

theorem lost_status_update_strands_scaling_witness:
  "let kv = demo_resource [] 2 zero_status;
       c = demo_system (\<lambda>n. if n = 2 then Some KeyNotFound else None) (Some kv) [owned_set demo_kvctl_lib kv 0] in
   \<exists>c1. Reconcile demo_kvctl_lib c = (Return (Inr (RequeueAfter 1)), c1) \<and> api_store c1 = Some kv \<and>
     api_sets c1 = [owned_set demo_kvctl_lib kv 0, owned_set demo_kvctl_lib kv 1] \<and>
     config_text kv (api_configs c1) = Some ''s-shard-0/s-shard-0s-shard-1'' \<and>
     Reconcile demo_kvctl_lib c1 = (Return (Inr Done), ticks 2 c1)"
proof -
  let ?kv = "demo_resource [] 2 zero_status"
  let ?c = "demo_system (\<lambda>n. if n = 2 then Some KeyNotFound else None) (Some ?kv) [owned_set demo_kvctl_lib ?kv 0]"
  let ?kv' = "begin_scale ?kv 1 (now ?c)"
  have "room_for demo_kvctl_lib ?kv' ?c" by (simp add: room_for_def names_free_def object_key_def)
  moreover have "ss_Replicas (owned_set demo_kvctl_lib ?kv i) = 1" for i by (simp add: owned_set_def shard_set_def)
  moreover have "demo_yaml (build_config ?kv') = ''s-shard-0/s-shard-0s-shard-1''"
    by (simp add: demo_yaml_def build_config_def upto.simps config_shard_def shard_name_def render_simps)
  ultimately show ?thesis
    using lost_status_update_strands_scaling [of KeyNotFound ?c demo_kvctl_lib ?kv 1 ?kv']
    by (simp add: list_owned_def index_StatefulSet_def own_objects zero_status_def shards_added_def upto.simps Let_def) blast
qed

section \<open>A failed list\<close>

definition next_phase :: "KVStoreResource \<Rightarrow> nat \<Rightarrow> KVStoreResource" where
  "next_phase kv t =
     (if kv_phase kv = PhaseStoppingWrites then enter_phase PhaseRedistributingKeys ''Starting to redistribute keys'' t kv
      else enter_phase PhaseFinalizingScale ''Starting to finalize scaling operation'' t kv)"

lemma next_phase_stored:
  "kv\<lparr>store_Status := store_Status (enter_phase ph msg t kv)\<rparr> = enter_phase ph msg t kv"
  "kv\<lparr>store_Status := store_Status (enter_phase ph msg t (with_counts i i kv))\<rparr> = enter_phase ph msg t (with_counts i i kv)"
  by (simp_all add: enter_phase_def with_counts_def)

text \<open>C38: \<open>GetShards\<close> answers with no shards when listing them fails.  If that one call fails while
  writes are being stopped or keys redistributed, the reconciliation moves on to the next phase without
  having called any shard.\<close>

theorem failed_list_skips_phase:
  assumes kube: "kube_ok K" and "one_fault 2 e c" and "api_store c = Some kv" and "kv_phase kv \<in> {PhaseStoppingWrites, PhaseRedistributingKeys}"
    and "\<forall>s \<in> set (owned_sets K kv c). ss_Replicas s = spec_Replicas (store_Spec kv)"
  shows "\<exists>c'. Reconcile K c = (Return (Inr (RequeueAfter 1)), c') \<and> api_store c' = Some (next_phase kv (now c)) \<and>
    shard_world c' = shard_world c"
proof -
  note before = two_calls_before [OF assms(2)]
  have none: "GetShards K kv (ticks 2 c) = (Return [], ticks 3 c)"
    by (simp add: GetShards_def kube_calls [OF kube] bind_run fault_call [OF assms(2)] or_empty_def ret_def)
  have tr: "transition K ph msg kv (ticks 3 c) = (Return (Inr ()), put_store (Some (enter_phase ph msg (now c) kv)) (ticks 4 c))" for ph msg
    using transition_run [OF kube, of "ticks 3 c" kv ph msg kv] before assms(3) by (simp add: next_phase_stored)
  have "Reconcile K c = phase_switch K kv (ticks 2 c)"
    using Reconcile_before [OF kube assms(2,3,5)] assms(4) by auto
  also have "\<dots> = (Return (Inr (RequeueAfter 1)), put_store (Some (next_phase kv (now c))) (ticks 4 c))"
    using assms(4) none tr
    by (auto simp: phase_switch_def StopWrites_def ctl_RedistributeKeys_def bind_run bind_ok_run ret_def next_phase_def)
  finally show ?thesis by simp
qed

theorem failed_list_skips_phase_witness:
  "let kv = demo_resource [] 2 (demo_status PhaseRedistributingKeys 1 2);
       c = demo_system (\<lambda>n. if n = 2 then Some KeyNotFound else None) (Some kv) [owned_set demo_kvctl_lib kv 0, owned_set demo_kvctl_lib kv 1] in
   \<exists>c'. Reconcile demo_kvctl_lib c = (Return (Inr (RequeueAfter 1)), c') \<and> shard_world c' = shard_world c \<and>
     map_option kv_phase (api_store c') = Some PhaseFinalizingScale"
proof -
  let ?kv = "demo_resource [] 2 (demo_status PhaseRedistributingKeys 1 2)"
  let ?c = "demo_system (\<lambda>n. if n = 2 then Some KeyNotFound else None) (Some ?kv) [owned_set demo_kvctl_lib ?kv 0, owned_set demo_kvctl_lib ?kv 1]"
  have "ss_Replicas (owned_set demo_kvctl_lib ?kv i) = 1" for i by (simp add: owned_set_def shard_set_def)
  then show ?thesis
    using failed_list_skips_phase [of demo_kvctl_lib KeyNotFound ?c ?kv]
    by (simp add: list_owned_def index_StatefulSet_def own_objects next_phase_def Let_def) force
qed

section \<open>Missing shards\<close>

lemma unready_set_iff: "unready_set xs \<longleftrightarrow> (\<exists>s \<in> set xs. ss_ReadyReplicas s \<noteq> ss_Replicas s)"
  by (induction xs) auto

lemma PrepareScale_run:
  assumes kube: "kube_ok K" and "no_faults c" and "api_store c = Some kv" and "\<forall>s \<in> set (owned_sets K kv c). ss_ReadyReplicas s = ss_Replicas s"
  shows "PrepareScale K kv c = (Return (Inr ()), put_store (Some
    (if kv_current kv = 0 then enter_phase PhaseNormal ''Ready'' (now c) (with_counts (kv_target kv) (kv_target kv) kv)
     else enter_phase PhaseStoppingWrites ''Starting to disable writes'' (now c) kv)) (ticks 2 c))"
proof -
  have "\<not> unready_set (owned_sets K kv c)" using assms(4) by (simp add: unready_set_iff)
  then show ?thesis
    using assms(2,3)
    by (simp add: PrepareScale_def bind_run [OF lists_run(1) [OF kube]] transition_run [OF kube] next_phase_stored numeral_2_eq_2)
qed

lemma Reconcile_prepare:
  assumes "operator_ready K c" and "api_store c = Some kv" and "kv_phase kv = PhasePreparingScale"
    and "\<forall>s \<in> set (owned_sets K kv c). ss_Replicas s = spec_Replicas (store_Spec kv) \<and> ss_ReadyReplicas s = ss_Replicas s"
  shows "Reconcile K c = (Return (Inr (RequeueAfter 1)), put_store (Some
    (if kv_current kv = 0 then enter_phase PhaseNormal ''Ready'' (now c) (with_counts (kv_target kv) (kv_target kv) kv)
     else enter_phase PhaseStoppingWrites ''Starting to disable writes'' (now c) kv)) (ticks 4 c))"
proof -
  have "Reconcile K c = phase_switch K kv (ticks 2 c)"
    using Reconcile_in_phase [OF assms(1,2)] assms(3,4) by simp
  then show ?thesis
    using PrepareScale_run [OF ready_kube [OF assms(1)], of "ticks 2 c" kv] assms by (simp add: phase_switch_def bind_ok_run ret_def)
qed

text \<open>C39: preparing waits for the shards that exist, not for those that should.  If creating shards failed
  and fewer than the target exist, a later reconciliation does not create the missing ones: once those that
  exist are ready it goes on to stop writes with the same shards.\<close>

theorem missing_shards_not_retried:
  assumes "operator_ready K c" and "api_store c = Some kv" and "kv_phase kv = PhasePreparingScale" and "kv_current kv \<noteq> 0"
    and "\<forall>s \<in> set (owned_sets K kv c). ss_Replicas s = spec_Replicas (store_Spec kv) \<and> ss_ReadyReplicas s = ss_Replicas s"
    and "int (length (owned_sets K kv c)) < kv_target kv"
  shows "\<exists>c' kv'. Reconcile K c = (Return (Inr (RequeueAfter 1)), c') \<and> api_store c' = Some kv' \<and>
    kv_phase kv' = PhaseStoppingWrites \<and> api_sets c' = api_sets c \<and> int (length (owned_sets K kv' c')) < kv_target kv'"
  using Reconcile_prepare [OF assms(1-3,5)] assms(4,6) by auto

definition ready_set :: "('b, 'r, 'z) kvctl_lib_scheme \<Rightarrow> KVStoreResource \<Rightarrow> int \<Rightarrow> StatefulSet" where
  "ready_set K kv i = (owned_set K kv i)\<lparr>ss_ReadyReplicas := spec_Replicas (store_Spec kv)\<rparr>"

lemma ready_set_simps [simp]:
  "ss_Meta (ready_set K kv i) = ss_Meta (owned_set K kv i)" "ss_Replicas (ready_set K kv i) = spec_Replicas (store_Spec kv)"
  "ss_ReadyReplicas (ready_set K kv i) = spec_Replicas (store_Spec kv)"
  by (simp_all add: ready_set_def owned_set_def shard_set_def)

theorem missing_shards_not_retried_witness:
  "let kv = demo_resource [] 3 (demo_status PhasePreparingScale 1 3);
       c = demo_system (\<lambda>_. None) (Some kv) [ready_set demo_kvctl_lib kv 0] in
   \<exists>c' kv'. Reconcile demo_kvctl_lib c = (Return (Inr (RequeueAfter 1)), c') \<and> api_store c' = Some kv' \<and>
     kv_phase kv' = PhaseStoppingWrites \<and> api_sets c' = [ready_set demo_kvctl_lib kv 0]"
  using missing_shards_not_retried [of demo_kvctl_lib "demo_system (\<lambda>_. None)
      (Some (demo_resource [] 3 (demo_status PhasePreparingScale 1 3)))
      [ready_set demo_kvctl_lib (demo_resource [] 3 (demo_status PhasePreparingScale 1 3)) 0]" "demo_resource [] 3 (demo_status PhasePreparingScale 1 3)"]
  by (auto simp: list_owned_def Let_def index_StatefulSet_def own_objects)

section \<open>The first deployment\<close>

text \<open>C33: a resource at rest without shards is deployed by two reconciliations: the first creates its
  shards, and once their replicas are ready the second puts the resource at rest with the count of the
  spec, without stopping writes or moving keys.\<close>

theorem first_deployment_completes:
  assumes "operator_ready K c" and "api_store c = Some kv" and "kv_phase kv = PhaseNormal" and "owned_sets K kv c = []"
    and "0 < sint (spec_Shards (store_Spec kv))" and "kv' = begin_scale kv 0 (now c)" and "room_for K kv' c"
    and "yaml_Marshal K (build_config kv') = Inr y"
  shows "\<exists>c1. Reconcile K c = (Return (Inr (RequeueAfter 1)), c1) \<and>
    length (owned_sets K kv c1) = nat (sint (spec_Shards (store_Spec kv))) \<and>
    (\<forall>c2. operator_ready K c2 \<and> api_store c2 = api_store c1 \<and>
       (\<forall>s \<in> set (owned_sets K kv c2). ss_Replicas s = spec_Replicas (store_Spec kv) \<and> ss_ReadyReplicas s = ss_Replicas s) \<longrightarrow>
       (\<exists>c3 kv3. Reconcile K c2 = (Return (Inr (RequeueAfter 1)), c3) \<and> api_store c3 = Some kv3 \<and>
         kv_phase kv3 = PhaseNormal \<and> kv_current kv3 = sint (spec_Shards (store_Spec kv)) \<and>
         shard_world c3 = shard_world c2))"
proof -
  let ?sh = "sint (spec_Shards (store_Spec kv))"
  obtain c1 where c1: "Reconcile K c = (Return (Inr (RequeueAfter 1)), c1)" "api_store c1 = Some kv'"
    "shards_added K kv [0..?sh - 1] y c c1"
    using scale_up_run [OF assms(1-3) _ _ assms(5,6,7,8)] assms(4) by auto
  have "owned_sets K kv c1 = owned_sets K kv c @ map (owned_set K kv) [0..?sh - 1]"
    by (rule owned_sets_added) (use c1(3) in \<open>simp add: shards_added_def\<close>)
  then have "length (owned_sets K kv c1) = nat ?sh" using assms(4) by simp
  moreover have "\<exists>c3 kv3. Reconcile K c2 = (Return (Inr (RequeueAfter 1)), c3) \<and> api_store c3 = Some kv3 \<and>
      kv_phase kv3 = PhaseNormal \<and> kv_current kv3 = ?sh \<and> shard_world c3 = shard_world c2"
    if "operator_ready K c2" "api_store c2 = api_store c1"
      "\<forall>s \<in> set (owned_sets K kv c2). ss_Replicas s = spec_Replicas (store_Spec kv) \<and> ss_ReadyReplicas s = ss_Replicas s" for c2
    using Reconcile_prepare [of K c2 kv'] that c1(2) assms(6) by simp
  ultimately show ?thesis using c1(1) by blast
qed

theorem first_deployment_completes_witness:
  "let kv = demo_resource [] 2 zero_status; c = demo_system (\<lambda>_. None) (Some kv) [] in
   \<exists>c1. Reconcile demo_kvctl_lib c = (Return (Inr (RequeueAfter 1)), c1) \<and> length (owned_sets demo_kvctl_lib kv c1) = 2"
proof -
  let ?kv = "demo_resource [] 2 zero_status"
  let ?c = "demo_system (\<lambda>_. None) (Some ?kv) []"
  have "room_for demo_kvctl_lib (begin_scale ?kv 0 (now ?c)) ?c" by (simp add: room_for_def names_free_def)
  then show ?thesis
    using first_deployment_completes [of demo_kvctl_lib ?c ?kv "begin_scale ?kv 0 (now ?c)"]
    by (simp add: zero_status_def list_owned_def Let_def) blast
qed

section \<open>A label of the resource named group\<close>

text \<open>C40: the labels of the resource replace those the reconciler sets.  If the resource has a label
  \<open>group\<close> that names none of its shards, finalizing a scale-down deletes none of the surplus shards'
  objects and still records the target as the current count.\<close>

theorem group_label_keeps_surplus:
  assumes "operator_ready K c" and "api_store c = Some kv" and "well_stored c"
    and "api_sets c = map (owned_set K kv) is" and "api_services c = map (owned_service K kv) is"
    and "api_ingresses c = map (owned_ingress K kv) is"
    and "map_of (rev (meta_Labels (store_Meta kv))) ''group'' = Some g" and "\<forall>i. g \<noteq> shard_name (kv_name kv) i"
    and "kv' = resuming kv (now c)" and "yaml_Marshal K (build_config kv') = Inr y"
  shows "\<exists>c'. FinalizeScale K kv c = (Return (Inr ()), c') \<and> api_store c' = Some kv' \<and> kv_current kv' = kv_target kv \<and>
    api_sets c' = api_sets c \<and> api_services c' = api_services c \<and> api_ingresses c' = api_ingresses c"
proof -
  have none: "\<not> in_surplus_group K kv m" if "meta_Labels m = copy_map (shard_labels kv i) (meta_Labels (store_Meta kv))" for m i
    using group_of_own [OF that] assms(7,8) by (simp add: in_surplus_group_def)
  have "filter (\<lambda>x. \<not> in_surplus_group K kv (ss_Meta x)) (api_sets c) = api_sets c"
    "filter (\<lambda>x. \<not> in_surplus_group K kv (svc_Meta x)) (api_services c) = api_services c"
    "filter (\<lambda>x. \<not> in_surplus_group K kv (ing_Meta x)) (api_ingresses c) = api_ingresses c"
    unfolding filter_id_conv assms(4-6) using none [OF own_objects(1) [of K kv]] none [OF own_objects(2) [of K kv]] none [OF own_objects(3) [of K kv]] by auto
  then show ?thesis using FinalizeScale_run [OF assms(1-3)] assms(9,10) by force
qed

theorem group_label_keeps_surplus_witness:
  "let kv = demo_resource [(''group'', ''g'')] 1 (demo_status PhaseFinalizingScale 2 1);
       c = (demo_system (\<lambda>_. None) (Some kv) [owned_set demo_kvctl_lib kv 0, owned_set demo_kvctl_lib kv 1])
         \<lparr>api_services := [owned_service demo_kvctl_lib kv 0, owned_service demo_kvctl_lib kv 1], api_ingresses := [owned_ingress demo_kvctl_lib kv 0, owned_ingress demo_kvctl_lib kv 1]\<rparr> in
   \<exists>c'. FinalizeScale demo_kvctl_lib kv c = (Return (Inr ()), c') \<and> length (api_sets c') = 2"
proof -
  let ?kv = "demo_resource [(''group'', ''g'')] 1 (demo_status PhaseFinalizingScale 2 1)"
  let ?c = "(demo_system (\<lambda>_. None) (Some ?kv) [owned_set demo_kvctl_lib ?kv 0, owned_set demo_kvctl_lib ?kv 1])
    \<lparr>api_services := [owned_service demo_kvctl_lib ?kv 0, owned_service demo_kvctl_lib ?kv 1], api_ingresses := [owned_ingress demo_kvctl_lib ?kv 0, owned_ingress demo_kvctl_lib ?kv 1]\<rparr>"
  have "well_stored ?c" by (simp add: well_stored_def unique_objects_def object_key_def)
  moreover have "operator_ready demo_kvctl_lib ?c" by (simp add: operator_ready_def no_faults_def)
  moreover have "\<forall>i. ''g'' \<noteq> shard_name ''s'' i" by (simp add: shard_name_def)
  ultimately show ?thesis
    using group_label_keeps_surplus [of demo_kvctl_lib ?c ?kv "[0, 1]" "''g''" "resuming ?kv (now ?c)"]
    by (auto simp: Let_def)
qed

end
