(* ===== verification/Shard_Correct.thy ===== *)
theory Shard_Correct
  imports Demo_World
begin

text \<open>
  What clients, replicas and the controller can rely on when they call shard processes.  The
  theorems: an acknowledged client write is read back through any process that routes the key to the
  same replica, whatever the network lost before; what a write through a follower and a pause of
  writes really do; reloading the configuration makes every key routable; dialling returns; a process
  joins its cluster, or spins.
\<close>

section \<open>Client writes\<close>

text \<open>The process to which the service routes a request for a key: the ring's member, the client for
  it, and the process its connection resolves to.\<close>

definition destination :: "('b, 'r, 'z) shard_lib_scheme \<Rightarrow> string \<Rightarrow> string \<Rightarrow> 'r world \<Rightarrow> string option" where
  "destination L s key w =
     (case processes w s of
        None \<Rightarrow> None
      | Some p \<Rightarrow>
          (case locate L (ch p) key of
             Return member \<Rightarrow>
               (case map_of (shardClients p) member of
                  None \<Rightarrow> None
                | Some target \<Rightarrow> route w (clock w) target)
           | _ \<Rightarrow> None))"

lemma via_shard_Inr:
  assumes "via_shard L key s handler w = (Return (Inr x), w')"
  shows "\<exists>host. destination L s key w = Some host \<and> processes w host \<noteq> None \<and>
    handler host (w\<lparr>clock := Suc (clock w)\<rparr>) = (Return (Inr x), w')"
proof -
  obtain p m where p: "processes w s = Some p" "locate L (ch p) key = Return m"
    and c: "client_call (shardClients p) m handler w = (Return (Inr x), w')"
    using assms by (auto simp: via_shard_def act_simps)
  from client_call_Inr [OF c] p show ?thesis by (auto simp: destination_def)
qed

lemma replica_Put_refused:
  assumes "all_procs (store_reachable L) w" and "\<not> InternalPutRequest_IsRedistribution req" and "processes w s = Some p"
  shows "replica_Put L req s (w\<lparr>clock := n\<rparr>) = (Return (Inl ErrWritesDisabled), w\<lparr>clock := n\<rparr>)"
  using kv_reach_flag [of L "kvStore p"] all_procsD [OF assms(1,3)] assms(2,3)
  by (simp add: replica_Put_def bind_act_def self_def ret_def store_reachable_def)

lemma forwarded_put_refused:
  assumes "all_procs (store_reachable L) w" and "\<not> InternalPutRequest_IsRedistribution req"
    and "forward_to_leader L s (replica_Put L req) w = (x, w')"
  shows "(\<forall>y. x \<noteq> Return (Inr y)) \<and> processes w' = processes w"
  using assms(3) replica_Put_refused [OF assms(1,2)]
  by (auto simp: forward_to_leader_def bind_act_def self_def lift_outcome_def ret_def client_call_def
      panic_def rpc_def Let_def status_result_def
      split: option.splits outcome.splits fate.splits if_splits)

text \<open>A client write acknowledged by the shard service was applied by the replica that served it.\<close>

lemma shard_Put_applied:
  assumes "raft_apply_ok L" and "entry_codec_ok L" and "all_procs (store_reachable L) w" and "all_procs store_shared w"
    and "shard_Put L \<lparr>InternalPutRequest_Key = key, InternalPutRequest_Value = v,
      InternalPutRequest_IsRedistribution = False\<rparr> h w = (Return (Inr x), w')"
  shows "\<exists>p k. processes w h = Some p \<and> w' = set_process h (p\<lparr>kvStore := k\<rparr>) w \<and>
    KVStore_Get key k = Inr v \<and> kv_shared k"
proof -
  from assms(5) obtain p k e w1 where p: "processes w h = Some p"
    and set: "KVStore_Set L key v (kvStore p) = Return (e, k)" and w1: "w1 = set_process h (p\<lparr>kvStore := k\<rparr>) w"
    and rest: "(case e of Some e \<Rightarrow> if is_raft_err NotLeader e
        then forward_to_leader L h (replica_Put L \<lparr>InternalPutRequest_Key = key, InternalPutRequest_Value = v,
          InternalPutRequest_IsRedistribution = False\<rparr>) else ret (Inl e)
      | None \<Rightarrow> ret (Inr PutResponse)) w1 = (Return (Inr x), w')"
    by (auto simp: shard_Put_def act_simps)
  have "all_procs (store_reachable L) w1"
    unfolding w1 using kv_reach.reach_set set by (intro store_step [OF assms(3) p]) blast
  then have "e = None"
    using rest by (auto simp: act_simps dest: forwarded_put_refused [rotated 2] split: option.splits if_splits)
  with set have "KVStore_Get key k = Inr v" "kv_shared k"
    using Set_Get [OF assms(1,2)] set_op.op_keeps_shared all_procsD [OF assms(4) p] by (auto simp: store_shared_def)
  moreover have "w' = set_process h (p\<lparr>kvStore := k\<rparr>) w" using rest w1 \<open>e = None\<close> by (simp add: act_simps)
  ultimately show ?thesis using p by blast
qed

lemma follower_Set:
  assumes "raft (kp_kv k) = Some r" and "raft_State L r \<noteq> Leader"
  shows "KVStore_Set L key v k = Return (Some (ErrNotLeader L), k)"
  using assms by (simp add: KVStore_Set_def)

text \<open>C26: in every reachable world, a client's write that reaches a replica which is not the leader
  is never acknowledged and changes no process: the leader it is forwarded to takes the writes to be
  disabled, always.\<close>

theorem follower_put_never_succeeds:
  assumes "reachable L w" and "processes w s = Some p"
    and "raft (kp_kv (kvStore p)) = Some r" and "raft_State L r \<noteq> Leader"
    and "\<not> InternalPutRequest_IsRedistribution req"
    and "shard_Put L req s w = (x, w')"
  shows "(\<forall>y. x \<noteq> Return (Inr y)) \<and> processes w' = processes w"
proof -
  have "set_process s (p\<lparr>kvStore := kvStore p\<rparr>) w = w"
    using assms(2) by (simp add: set_process_def map_upd_triv)
  then have "forward_to_leader L s (replica_Put L req) w = (x, w')"
    using assms(2,6) follower_Set [OF assms(3,4)]
    by (simp add: shard_Put_def bind_act_def on_store_def self_def become_def ret_def ErrNotLeader_def)
  then show ?thesis by (rule forwarded_put_refused [OF reachable_stores [OF assms(1)] assms(5)])
qed

definition demo_follower_process :: "demo_node process" where
  "demo_follower_process =
     (let p = demo_process ''s-0'' []; k = kvStore p in
      p\<lparr>kvStore := k\<lparr>kp_kv := (kp_kv k)\<lparr>raft := Some \<lparr>dn_role = Follower, dn_leader = [], dn_servers = []\<rparr>\<rparr>\<rparr>\<rparr>)"

definition demo_follower_world :: "demo_node world" where
  "demo_follower_world = set_process ''r-0.s-0'' demo_follower_process (demo_world [] [])"

lemma demo_follower_reachable: "reachable demo_shard_lib demo_follower_world"
proof -
  have "world_step demo_shard_lib (demo_world [] []) demo_follower_world"
    unfolding demo_follower_world_def demo_follower_process_def Let_def
    by (rule step_node) simp_all
  then show ?thesis
    using demo_reachable by (auto simp: reachable_def intro: rtranclp.rtrancl_into_rtrancl)
qed

theorem follower_put_never_succeeds_witness:
  "\<forall>y. fst (shard_Put demo_shard_lib \<lparr>InternalPutRequest_Key = ''k'', InternalPutRequest_Value = ''v'',
      InternalPutRequest_IsRedistribution = False\<rparr> ''r-0.s-0'' demo_follower_world) \<noteq> Return (Inr y)"
proof -
  have "processes demo_follower_world ''r-0.s-0'' = Some demo_follower_process"
    by (simp add: demo_follower_world_def)
  moreover have "raft (kp_kv (kvStore demo_follower_process)) = Some \<lparr>dn_role = Follower, dn_leader = [], dn_servers = []\<rparr>"
    by (simp add: demo_follower_process_def Let_def)
  moreover have "raft_State demo_shard_lib \<lparr>dn_role = Follower, dn_leader = [], dn_servers = []\<rparr> \<noteq> Leader" by simp
  ultimately show ?thesis
    using follower_put_never_succeeds [OF demo_follower_reachable, where s = "''r-0.s-0''"
      and req = "\<lparr>InternalPutRequest_Key = ''k'', InternalPutRequest_Value = ''v'', InternalPutRequest_IsRedistribution = False\<rparr>"
      and x = "fst (shard_Put demo_shard_lib \<lparr>InternalPutRequest_Key = ''k'', InternalPutRequest_Value = ''v'', InternalPutRequest_IsRedistribution = False\<rparr> ''r-0.s-0'' demo_follower_world)"
      and w' = "snd (shard_Put demo_shard_lib \<lparr>InternalPutRequest_Key = ''k'', InternalPutRequest_Value = ''v'', InternalPutRequest_IsRedistribution = False\<rparr> ''r-0.s-0'' demo_follower_world)"]
    by simp
qed

lemma put_get_value:
  assumes "raft_apply_ok L" and "entry_codec_ok L" and "reachable L w" and "all_procs store_shared w"
    and "kv_Put L \<lparr>PutRequest_Key = key, PutRequest_Value = v\<rparr> s w = (Return (Inr x), w1)"
    and "destination L s' key w1' = destination L s key w" and "processes w1' = processes w1"
    and "kv_Get L \<lparr>GetRequest_Key = key\<rparr> s' w1' = (Return (Inr g), w2)"
  shows "GetResponse_Value g = v"
proof -
  let ?w = "w\<lparr>clock := Suc (clock w)\<rparr>"
  have inv: "all_procs (store_reachable L) ?w" "all_procs store_shared ?w"
    using reachable_stores [OF assms(3)] assms(4) by simp_all
  from via_shard_Inr [OF assms(5) [unfolded kv_Put_def]] obtain h q where
    h: "destination L s key w = Some h" "processes w1 h = Some q" "KVStore_Get key (kvStore q) = Inr v"
    using shard_Put_applied [OF assms(1,2) inv] by fastforce
  from via_shard_Inr [OF assms(8) [unfolded kv_Get_def]] h assms(6,7) show ?thesis
    by (auto simp: shard_Get_def act_simps)
qed

text \<open>C2: in every reachable world where no state machine was replaced by a snapshot, an acknowledged
  client write is what a later read returns, through whichever processes the two requests come in, as
  long as the service resolves to the same replica for both.\<close>

theorem put_then_get:
  assumes "raft_apply_ok L" and "entry_codec_ok L" and "reachable L w" and "all_procs store_shared w"
    and "kv_Put L \<lparr>PutRequest_Key = key, PutRequest_Value = v\<rparr> s w = (Return (Inr x), w1)"
    and "destination L s' key w1 = destination L s key w"
    and "kv_Get L \<lparr>GetRequest_Key = key\<rparr> s' w1 = (Return (Inr g), w2)"
  shows "GetResponse_Value g = v"
  using put_get_value [OF assms(1-6) refl assms(7)] .

lemma demo_kv_Put:
  "kv_Put demo_shard_lib \<lparr>PutRequest_Key = key, PutRequest_Value = v\<rparr> ''r-0.s-0'' (demo_world m0 m1) =
     (Return (Inr PutResponse), (demo_world (AList.update key v m0) m1)\<lparr>clock := 1\<rparr>)"
  by (simp add: kv_Put_def via_shard_def shard_Put_def demo_eval)

lemma demo_kv_Get:
  "kv_Get demo_shard_lib \<lparr>GetRequest_Key = key\<rparr> ''r-0.s-1'' ((demo_world m0 m1)\<lparr>clock := n\<rparr>) =
     (Return (case map_of m0 key of Some v \<Rightarrow> Inr \<lparr>GetResponse_Value = v\<rparr> | None \<Rightarrow> Inl (to_status KeyNotFound)),
      (demo_world m0 m1)\<lparr>clock := Suc n\<rparr>)"
  by (simp add: kv_Get_def via_shard_def shard_Get_def demo_eval split: option.splits)

theorem put_then_get_witness:
  "\<exists>w1 g w2. kv_Put demo_shard_lib \<lparr>PutRequest_Key = ''k'', PutRequest_Value = ''v''\<rparr> ''r-0.s-0'' (demo_world [] []) =
       (Return (Inr PutResponse), w1) \<and>
     kv_Get demo_shard_lib \<lparr>GetRequest_Key = ''k''\<rparr> ''r-0.s-1'' w1 = (Return (Inr g), w2) \<and> GetResponse_Value g = ''v''"
proof -
  let ?w1 = "(demo_world [(''k'', ''v'')] [])\<lparr>clock := 1\<rparr>"
  have put: "kv_Put demo_shard_lib \<lparr>PutRequest_Key = ''k'', PutRequest_Value = ''v''\<rparr> ''r-0.s-0'' (demo_world [] []) =
      (Return (Inr PutResponse), ?w1)"
    by (simp add: demo_kv_Put)
  obtain g w2 where get: "kv_Get demo_shard_lib \<lparr>GetRequest_Key = ''k''\<rparr> ''r-0.s-1'' ?w1 = (Return (Inr g), w2)"
    by (simp add: demo_kv_Get)
  have "destination demo_shard_lib ''r-0.s-1'' ''k'' ?w1 = destination demo_shard_lib ''r-0.s-0'' ''k'' (demo_world [] [])"
    by (simp add: destination_def locate_def)
  with put_then_get [OF _ _ demo_reachable _ put _ get] put get show ?thesis by auto
qed

section \<open>Pausing writes\<close>

text \<open>C27: in every reachable world, a \<open>PauseWrites\<close> that a replica answers with \<open>IsPaused\<close> has changed
  nothing at all, so every write accepted before is accepted after.\<close>

theorem pause_changes_nothing:
  assumes "reachable L w" and "replica_PauseWrites L req s w = (Return (Inr r), w')"
  shows "w' = w"
proof -
  obtain p where p: "processes w s = Some p"
    using assms(2) by (auto simp: replica_PauseWrites_def act_simps)
  have "SetWritesEnabled L False (kvStore p) = Return (None, kvStore p)"
    using reachable_flag [OF assms(1) p] by (simp add: SetWritesEnabled_def GetWritesEnabled_def)
  moreover have "set_process s (p\<lparr>kvStore := kvStore p\<rparr>) w = w"
    using p by (simp add: set_process_def map_upd_triv)
  ultimately show ?thesis
    using assms(2) p by (auto simp: replica_PauseWrites_def act_simps split: if_splits)
qed

theorem pause_changes_nothing_witness:
  "\<exists>r w'. replica_PauseWrites demo_shard_lib PauseWritesRequest ''r-0.s-0'' (demo_world [] []) = (Return (Inr r), w') \<and>
     PauseWritesResponse_IsPaused r \<and> w' = demo_world [] []"
proof -
  have "\<exists>w'. replica_PauseWrites demo_shard_lib PauseWritesRequest ''r-0.s-0'' (demo_world [] []) =
      (Return (Inr \<lparr>PauseWritesResponse_IsPaused = True\<rparr>), w')"
    by (simp add: replica_PauseWrites_def demo_eval ReadConfig_def reply_of_def SetWritesEnabled_def demo_store_def)
  then show ?thesis using pause_changes_nothing [OF demo_reachable] by fastforce
qed

section \<open>Dialling and reloading\<close>

lemma dial_loop_returns: "ok (n + d) \<Longrightarrow> \<exists>k. dial_loop ok n = Some k"
proof (induction d arbitrary: n)
  case 0
  then show ?case by (subst dial_loop.simps) simp
next
  case (Suc d)
  then have "\<exists>k. dial_loop ok (Suc n) = Some k" by simp
  then show ?case by (subst dial_loop.simps) auto
qed

lemma populate_clients_returns:
  "(\<And>k t. (k, t) \<in> set ds \<Longrightarrow> \<exists>n. dial_ok L t n) \<Longrightarrow> \<exists>cs'. populate_clients L ds cs = (Return (), cs')"
proof (induction L ds cs rule: populate_clients.induct)
  case (2 L key target ds cs)
  obtain n where "dial_ok L target n" using "2.prems" [of key target] by auto
  then obtain k where k: "dial_loop (dial_ok L target) 0 = Some k"
    using dial_loop_returns [of "dial_ok L target" 0 n] by auto
  have ds: "\<exists>n. dial_ok L t n" if "(k, t) \<in> set ds" for k t
    using "2.prems" [of k t] that by simp
  show ?case
  proof (cases "map_of cs key \<noteq> None")
    case True
    then show ?thesis using "2.IH"(1) [OF True ds] by simp
  next
    case False
    then show ?thesis using "2.IH"(2) [OF False k ds] k by simp
  qed
qed simp

lemma populate_clients_complete:
  "populate_clients L ds cs = (Return (), cs') \<Longrightarrow> fst ` set cs \<union> fst ` set ds \<subseteq> fst ` set cs'"
proof (induction L ds cs rule: populate_clients.induct)
  case (2 L key target ds cs)
  show ?case
  proof (cases "map_of cs key")
    case None
    then show ?thesis using 2 by (auto split: option.splits)
  next
    case (Some t)
    then have "key \<in> fst ` set cs" by (metis map_of_eq_None_iff option.distinct(1))
    then show ?thesis using 2 Some by auto
  qed
qed simp

lemma map_of_dom: "k \<in> fst ` set cs \<Longrightarrow> map_of cs k \<noteq> None"
  by (simp add: map_of_eq_None_iff)

lemma PopulateShardClients_Return:
  "PopulateShardClients L s shards w = (Return y, w') \<longleftrightarrow>
   (\<exists>p cs. processes w s = Some p \<and> w' = set_process s (p\<lparr>shardClients := cs\<rparr>) w \<and>
      populate_clients L (map (\<lambda>d. (shard_Name d, host_port (shard_Name d) (flag_shardPort (flags p)))) shards)
        (shardClients p) = (Return (), cs))"
  by (auto simp: PopulateShardClients_def bind_act_def self_def become_def lift_outcome_def
      split: option.splits prod.splits outcome.splits)

text \<open>When every shard can eventually be dialled, \<open>PopulateShardClients\<close> returns, and the process
  then has a client for every shard.\<close>

theorem PopulateShardClients_returns:
  assumes "processes w s = Some p"
    and "\<forall>d \<in> set shards. \<exists>n. dial_ok L (host_port (shard_Name d) (flag_shardPort (flags p))) n"
  shows "\<exists>w' q. PopulateShardClients L s shards w = (Return (), w') \<and> processes w' s = Some q \<and>
    (\<forall>d \<in> set shards. map_of (shardClients q) (shard_Name d) \<noteq> None)"
proof -
  let ?ds = "map (\<lambda>d. (shard_Name d, host_port (shard_Name d) (flag_shardPort (flags p)))) shards"
  obtain cs where cs: "populate_clients L ?ds (shardClients p) = (Return (), cs)"
    using populate_clients_returns [of ?ds L] assms(2) by auto
  have "map_of cs (shard_Name d) \<noteq> None" if "d \<in> set shards" for d
    using populate_clients_complete [OF cs] that by (intro map_of_dom) (auto simp: image_image)
  then show ?thesis
    using assms(1) cs by (simp add: PopulateShardClients_def bind_act_def self_def become_def lift_outcome_def)
qed

theorem PopulateShardClients_returns_witness:
  "\<exists>w' q. PopulateShardClients demo_shard_lib ''r-0.s-0'' [demo_shard ''s-7''] (demo_world [] []) = (Return (), w') \<and>
     processes w' ''r-0.s-0'' = Some q \<and> map_of (shardClients q) ''s-7'' \<noteq> None"
  using PopulateShardClients_returns [OF demo_processes(1), of "[demo_shard ''s-7'']" demo_shard_lib "[]" "[]"]
  by fastforce

lemma ReloadConfig_True:
  assumes "ReloadConfig L s w = (Return True, w')" and "processes w s = Some p" and "configFile p = Parsed c"
  shows "\<exists>cs. populate_clients L (map (\<lambda>d. (shard_Name d, host_port (shard_Name d) (flag_shardPort (flags p)))) (config_Shards c))
      (shardClients p) = (Return (), cs) \<and>
    processes w' s = Some (p\<lparr>ch := Some (map shard_Name (config_Shards c)), shardClients := cs\<rparr>)"
proof -
  let ?p = "p\<lparr>ch := Some (map shard_Name (config_Shards c))\<rparr>"
  have "PopulateShardClients L s (config_Shards c) (set_process s ?p w) = (Return (), w')"
    using assms
    by (simp add: ReloadConfig_def bind_act_def self_def lift_outcome_def ReadConfig_def new_ring_def Let_def
        become_def ret_def split: if_splits prod.splits outcome.splits)
  then obtain pa cs where pa: "processes (set_process s ?p w) s = Some pa"
    and cs: "w' = set_process s (pa\<lparr>shardClients := cs\<rparr>) (set_process s ?p w)"
      "populate_clients L (map (\<lambda>d. (shard_Name d, host_port (shard_Name d) (flag_shardPort (flags pa)))) (config_Shards c))
        (shardClients pa) = (Return (), cs)"
    unfolding PopulateShardClients_Return by blast
  have "pa = ?p" using pa by simp
  then show ?thesis using cs by simp
qed

lemma locate_ok_D: "locate_ok L \<Longrightarrow> ms \<noteq> [] \<Longrightarrow> \<exists>m \<in> set ms. LocateKey L ms k = Some m"
  by (simp add: locate_ok_def)

text \<open>C25: after a \<open>ReloadConfig\<close> that reports success, every key belongs to a shard of the configuration
  read, and the process has a client for that shard, dialling that shard's name: no client request
  meets a nil client.\<close>

theorem reload_routes_every_key:
  assumes "locate_ok L" and "all_procs clients_wf w" and "processes w s = Some p"
    and "configFile p = Parsed c" and "config_Shards c \<noteq> []"
    and "ReloadConfig L s w = (Return True, w')"
  shows "\<exists>q m. processes w' s = Some q \<and> m \<in> shard_Name ` set (config_Shards c) \<and>
    locate L (ch q) key = Return m \<and>
    map_of (shardClients q) m = Some (host_port m (flag_shardPort (flags q)))"
proof -
  let ?ms = "map shard_Name (config_Shards c)"
  let ?ds = "map (\<lambda>d. (shard_Name d, host_port (shard_Name d) (flag_shardPort (flags p)))) (config_Shards c)"
  obtain cs where cs: "populate_clients L ?ds (shardClients p) = (Return (), cs)"
    and w': "processes w' s = Some (p\<lparr>ch := Some ?ms, shardClients := cs\<rparr>)"
    using ReloadConfig_True [OF assms(6,3,4)] by blast
  have "?ms \<noteq> []" using assms(5) by simp
  then obtain m where m: "m \<in> set ?ms" "LocateKey L ?ms key = Some m"
    using locate_ok_D [OF assms(1)] by blast
  have "fst ` set ?ds = set ?ms" by (simp only: set_map [symmetric] map_map o_def fst_conv)
  moreover have "fst ` set ?ds \<subseteq> fst ` set cs"
    by (rule Un_subset_iff [THEN iffD1, THEN conjunct2, OF populate_clients_complete [OF cs]])
  ultimately have "m \<in> fst ` set cs" using m(1) by (simp only: subset_iff)
  then obtain t where t: "map_of cs m = Some t" using map_of_dom [of m cs] by auto
  have "clients_wf s (p\<lparr>ch := Some ?ms, shardClients := cs\<rparr>)"
    using keeps_allD [OF clients.keeps_ReloadConfig assms(2,6)] w' by (rule all_procsD)
  then have "t = host_port m (flag_shardPort (flags p))"
    using map_of_SomeD [OF t] by (auto simp: clients_wf_def)
  then show ?thesis using w' m t by (intro exI [of _ "p\<lparr>ch := Some ?ms, shardClients := cs\<rparr>"] exI [of _ m]) (simp add: locate_def)
qed

lemma demo_clients_wf [simp]: "all_procs clients_wf (demo_world m0 m1)"
  by (auto simp: all_procs_def demo_world_def clients_wf_def)

definition demo_scaled :: "demo_node world" where
  "demo_scaled = set_process ''r-0.s-0'' ((demo_process ''s-0'' [])\<lparr>configFile :=
     Parsed \<lparr>config_Shards = [demo_shard ''s-0'', demo_shard ''s-1''], config_NewShards = []\<rparr>\<rparr>) (demo_world [] [])"

theorem reload_routes_every_key_witness:
  "\<exists>w' q m. ReloadConfig demo_shard_lib ''r-0.s-0'' demo_scaled = (Return True, w') \<and>
     processes w' ''r-0.s-0'' = Some q \<and> locate demo_shard_lib (ch q) ''key'' = Return m \<and>
     map_of (shardClients q) m \<noteq> None"
proof -
  let ?p = "(demo_process ''s-0'' [])\<lparr>configFile :=
     Parsed \<lparr>config_Shards = [demo_shard ''s-0'', demo_shard ''s-1''], config_NewShards = []\<rparr>\<rparr>"
  obtain w' where r: "ReloadConfig demo_shard_lib ''r-0.s-0'' demo_scaled = (Return True, w')"
    by (simp add: ReloadConfig_def demo_scaled_def demo_eval ReadConfig_def new_ring_def PopulateShardClients_def)
  have "all_procs clients_wf demo_scaled"
    unfolding demo_scaled_def
    by (rule all_procs_upd(1) [OF demo_clients_wf], rule clients.inv_config)
      (rule all_procsD [OF demo_clients_wf demo_processes(1)])
  then obtain q m where "processes w' ''r-0.s-0'' = Some q" "locate demo_shard_lib (ch q) ''key'' = Return m"
      "map_of (shardClients q) m = Some (host_port m (flag_shardPort (flags q)))"
    using reload_routes_every_key [OF demo_shard_lib_ok(5) _ _ _ _ r, of ?p
      "\<lparr>config_Shards = [demo_shard ''s-0'', demo_shard ''s-1''], config_NewShards = []\<rparr>" "''key''"]
    by (auto simp: demo_scaled_def)
  with r show ?thesis by blast
qed

section \<open>Joining the cluster\<close>

lemma find_leader_no_replicas: "find_leader L p [] w = None"
proof (rule ccontr)
  assume "find_leader L p [] w \<noteq> None"
  then obtain res where "find_leader L p [] w = Some res" by blast
  then have "([] :: string list) \<noteq> []"
    by (rule find_leader.raw_induct [where P = "\<lambda>L p rs w res. rs \<noteq> []", rotated])
      (auto simp: ret_def split: prod.splits outcome.splits option.splits)
  then show False by simp
qed

text \<open>C28: a process whose shard is not named by its configuration, and which knows no leader, never
  finishes \<open>PopulateReplicaClients\<close>: the loop looking for a leader has nobody to ask.\<close>

theorem unlisted_shard_spins:
  assumes "processes w s = Some p" and "KVStore_Leader L (kvStore p) = Return []"
    and "\<forall>c \<in> set (config_Shards cfg) \<union> set (config_NewShards cfg). shard_Name c \<noteq> flag_shard (flags p)"
  shows "fst (PopulateReplicaClients L s cfg w) = Diverge"
proof -
  have "own_replicas p cfg = []" using assms(3) by (auto simp: own_replicas_def)
  moreover have "(p\<lparr>replicaClients := replicaClients p\<rparr>) = p" by simp
  ultimately show ?thesis
    using assms(1,2) find_leader_no_replicas [of L p]
    by (simp add: PopulateReplicaClients_def bind_act_def self_def become_def lift_outcome_def
        JoinCluster_def leader_to_join_def)
qed

theorem unlisted_shard_spins_witness:
  "fst (PopulateReplicaClients demo_shard_lib ''r-0.s-0'' \<lparr>config_Shards = [], config_NewShards = []\<rparr> demo_follower_world) = Diverge"
  by (rule unlisted_shard_spins [where p = demo_follower_process])
    (simp_all add: demo_follower_world_def demo_follower_process_def Let_def KVStore_Leader_def)

end
