(* ===== verification/Redistribution.thy ===== *)
theory Redistribution
  imports Shard_Correct
begin

text \<open>
  Moving keys between shards: \<open>RedistributeKeys\<close> and the handler that starts it.  While no other
  writes are under way (\<open>raft_quiet\<close>: Raft hands the state machine of a leader what that leader was
  given, and leadership stays), a run loses no key whatever requests and replies the network loses; and
  the number of keys that wait to be moved is what the replica reports.
\<close>

section \<open>Effect of a store operation\<close>

definition contents :: "'r kvproc \<Rightarrow> string \<Rightarrow> string option" where
  "contents k = map_of (map_read (kp_heap k) (store (kp_kv k)))"

lemma Get_contents: "KVStore_Get key k = (case contents k key of Some v \<Rightarrow> Inr v | None \<Rightarrow> Inl KeyNotFound)"
  by (simp add: KVStore_Get_def contents_def)

lemma contents_shared: "kv_shared k \<Longrightarrow> contents k = fst (fsm_view (kp_fsm k, kp_heap k))"
  by (simp add: contents_def fsm_view_def kv_shared_def)

definition leader_of :: "('b, 'r, 'z) raft_lib_scheme \<Rightarrow> 'r kvproc \<Rightarrow> string option" where
  "leader_of L k = map_option (\<lambda>r. snd (raft_LeaderWithID L r)) (raft (kp_kv k))"

definition raft_quiet :: "('b, 'r, 'z) raft_lib_scheme \<Rightarrow> bool" where
  "raft_quiet L \<longleftrightarrow>
     (\<forall>r d e ds r'. raft_Apply L r d = (e, ds, r') \<longrightarrow>
        snd (raft_LeaderWithID L r') = snd (raft_LeaderWithID L r) \<and> (ds = [d] \<or> ds = [] \<and> e \<noteq> None))"

definition quiet_effect ::
  "('b, 'r, 'z) raft_lib_scheme \<Rightarrow> (string \<rightharpoonup> string) \<Rightarrow> 'r kvproc \<Rightarrow> err option \<times> 'r kvproc \<Rightarrow> bool" where
  "quiet_effect L m k res \<longleftrightarrow>
     kv_shared (snd res) \<and> leader_of L (snd res) = leader_of L k \<and>
     (contents (snd res) = m \<or> fst res \<noteq> None \<and> contents (snd res) = contents k)"

lemma fsm_run_entry:
  assumes "entry_codec_ok L" and "marshal_entry L (command_entry cmd) = Inr d" and "fsm_inv fh"
  shows "\<exists>fh'. fsm_run L [d] fh = Return fh' \<and> fsm_view fh' = spec_step cmd (fsm_view fh)"
  using apply_command_refines [OF assms(3), of cmd] by (auto simp: KVFsm_Apply_encoded [OF assms(1,2)])

lemma quiet_apply:
  assumes "entry_codec_ok L" and "raft_quiet L" and "kv_shared k" and "raft (kp_kv k) \<noteq> None"
    and "marshal_entry L (command_entry cmd) = Inr d"
  shows "\<exists>res. raft_apply_entry L d k = Return res \<and>
    quiet_effect L (fst (spec_step cmd (fsm_view (kp_fsm k, kp_heap k)))) k res"
proof -
  obtain r where r: "raft (kp_kv k) = Some r" using assms(4) by blast
  obtain e ds r' where ap: "raft_Apply L r d = (e, ds, r')" using prod_cases3 by blast
  have q: "snd (raft_LeaderWithID L r') = snd (raft_LeaderWithID L r)" "ds = [d] \<or> ds = [] \<and> e \<noteq> None"
    using assms(2) ap unfolding raft_quiet_def by blast+
  have inv: "fsm_inv (kp_fsm k, kp_heap k)" using assms(3) by (simp add: kv_shared_def)
  obtain f h where fh: "fsm_run L ds (kp_fsm k, kp_heap k) = Return (f, h)"
    and view: "fsm_view (f, h) = spec_step cmd (fsm_view (kp_fsm k, kp_heap k)) \<or>
      e \<noteq> None \<and> fsm_view (f, h) = fsm_view (kp_fsm k, kp_heap k)"
    using q(2) fsm_run_entry [OF assms(1,5) inv] by auto
  let ?k = "k\<lparr>kp_kv := (kp_kv k)\<lparr>raft := Some r'\<rparr>, kp_fsm := f, kp_heap := h\<rparr>"
  have res: "raft_apply_entry L d k = Return (e, ?k)" using r ap fh by (simp add: raft_apply_entry_def)
  have sh: "kv_shared ?k"
    using raft_apply_entry_refs [OF res] assms(3) by (auto simp: kv_shared_def same_refs_def)
  have "leader_of L ?k = leader_of L k" using q(1) r by (simp add: leader_of_def)
  then show ?thesis
    using res sh view contents_shared [OF sh] contents_shared [OF assms(3)] by (auto simp: quiet_effect_def)
qed

lemma quiet_refused: "kv_shared k \<Longrightarrow> quiet_effect L m k (Some e, k)"
  by (simp add: quiet_effect_def)

lemma Set_effect:
  assumes "entry_codec_ok L" and "raft_quiet L" and "kv_shared k" and "raft (kp_kv k) \<noteq> None"
  shows "\<exists>res. KVStore_Set L key v k = Return res \<and> quiet_effect L ((contents k)(key \<mapsto> v)) k res"
  using quiet_apply [OF assms, of "CSet key v"] quiet_refused [OF assms(3)] assms(4)
  by (cases "fsm_view (kp_fsm k, kp_heap k)")
    (auto simp: KVStore_Set_def contents_shared [OF assms(3)] split: sum.splits)

lemma Delete_effect:
  assumes "entry_codec_ok L" and "raft_quiet L" and "kv_shared k" and "raft (kp_kv k) \<noteq> None"
  shows "\<exists>res. KVStore_Delete L key k = Return res \<and> quiet_effect L ((contents k)(key := None)) k res"
  using quiet_apply [OF assms, of "CDelete key"] quiet_refused [OF assms(3)] assms(4)
  by (cases "fsm_view (kp_fsm k, kp_heap k)")
    (auto simp: KVStore_Delete_def contents_shared [OF assms(3)] split: sum.splits)

section \<open>Worlds that differ in their stores\<close>

definition at :: "'r world \<Rightarrow> string \<Rightarrow> string \<Rightarrow> string option" where
  "at w h key = (case processes w h of None \<Rightarrow> None | Some p \<Rightarrow> contents (kvStore p) key)"

definition shard_of :: "'r world \<Rightarrow> string \<Rightarrow> string option" where
  "shard_of w h = map_option (\<lambda>p. flag_shard (flags p)) (processes w h)"

text \<open>Everything of a process but its store.\<close>

definition shape :: "'r process \<Rightarrow> _" where
  "shape p = (flags p, configFile p, ch p, shardClients p, replicaClients p, redistributingKeys p, spawned p, servers p)"

text \<open>\<open>w'\<close> differs from \<open>w\<close> at most in what the processes of shard \<open>S\<close> store under \<open>key\<close>.\<close>

definition touches :: "string \<Rightarrow> string \<Rightarrow> 'r world \<Rightarrow> 'r world \<Rightarrow> bool" where
  "touches S key w w' \<longleftrightarrow>
     route w' = route w \<and> rpc_fate w' = rpc_fate w \<and>
     (\<forall>h. map_option shape (processes w' h) = map_option shape (processes w h)) \<and>
     (\<forall>h k. \<not> (k = key \<and> shard_of w h = Some S) \<longrightarrow> at w' h k = at w h k)"

text \<open>A process that can serve a redistribution: store and state machine share their map, and there is
  a client for the leader it follows.\<close>

definition store_ok :: "('b, 'r, 'z) shard_lib_scheme \<Rightarrow> string \<Rightarrow> 'r process \<Rightarrow> bool" where
  "store_ok L h p \<longleftrightarrow>
     kv_shared (kvStore p) \<and>
     (\<exists>l. leader_of L (kvStore p) = Some l \<and> (l \<noteq> [] \<longrightarrow> map_of (replicaClients p) l \<noteq> None))"

text \<open>Names resolve to processes of the shard they name.\<close>

definition routes_ok :: "'r world \<Rightarrow> bool" where
  "routes_ok w \<longleftrightarrow>
     (\<forall>h p n h' q. processes w h = Some p \<longrightarrow> processes w h' = Some q \<longrightarrow>
        (\<forall>name. route w n (host_port name (flag_shardPort (flags p))) = Some h' \<longrightarrow> flag_shard (flags q) = name) \<and>
        (\<forall>d. route w n (replica_id d (flag_shard (flags p)) (flag_replicaPort (flags p))) = Some h' \<longrightarrow>
           flag_shard (flags q) = flag_shard (flags p)))"

definition calm :: "('b, 'r, 'z) shard_lib_scheme \<Rightarrow> 'r world \<Rightarrow> bool" where
  "calm L w \<longleftrightarrow> all_procs (store_ok L) w \<and> all_procs clients_wf w \<and> routes_ok w"

lemma at_clock [simp]: "at (w\<lparr>clock := n\<rparr>) = at w" "shard_of (w\<lparr>clock := n\<rparr>) = shard_of w"
  by (simp_all add: at_def shard_of_def fun_eq_iff)

lemma touches_clock [simp]: "touches S key w (w\<lparr>clock := n\<rparr>)"
  by (simp add: touches_def)

lemma calm_clock [simp]: "calm L (w\<lparr>clock := n\<rparr>) = calm L w"
  by (simp add: calm_def routes_ok_def)

lemma touches_refl [simp]: "touches S key w w"
  by (simp add: touches_def)

lemma shard_of_shape: "shard_of w h = map_option (\<lambda>x. flag_shard (fst x)) (map_option shape (processes w h))"
  by (simp add: shard_of_def shape_def option.map_comp o_def)

lemma touches_shard_of: "touches S key w w' \<Longrightarrow> shard_of w' = shard_of w"
  by (simp add: fun_eq_iff shard_of_shape touches_def)

lemma touches_trans: "touches S key w w1 \<Longrightarrow> touches S key w1 w2 \<Longrightarrow> touches S key w w2"
  using touches_shard_of [of S key w w1] by (auto simp: touches_def)

lemma touches_process:
  assumes "touches S key w w'" and "processes w h = Some p"
  obtains q where "processes w' h = Some q" and "shape q = shape p"
proof -
  have "map_option shape (processes w' h) = Some (shape p)" using assms by (simp add: touches_def)
  then show thesis using that by (cases "processes w' h") auto
qed

lemma routes_ok_same:
  assumes "routes_ok w" and "route w' = route w"
    and same: "\<And>h. map_option flags (processes w' h) = map_option flags (processes w h)"
  shows "routes_ok w'"
  unfolding routes_ok_def assms(2)
proof (intro allI impI)
  fix h q n h' q'
  assume q: "processes w' h = Some q" and q': "processes w' h' = Some q'"
  obtain p where p: "processes w h = Some p" "flags p = flags q"
    using same [of h] q by (cases "processes w h") simp_all
  obtain p' where p': "processes w h' = Some p'" "flags p' = flags q'"
    using same [of h'] q' by (cases "processes w h'") simp_all
  show "(\<forall>name. route w n (host_port name (flag_shardPort (flags q))) = Some h' \<longrightarrow> flag_shard (flags q') = name) \<and>
      (\<forall>d. route w n (replica_id d (flag_shard (flags q)) (flag_replicaPort (flags q))) = Some h' \<longrightarrow>
         flag_shard (flags q') = flag_shard (flags q))"
    unfolding p(2) [symmetric] p'(2) [symmetric]
    by (rule assms(1) [unfolded routes_ok_def, THEN spec, THEN spec, THEN spec, THEN spec, THEN spec,
        THEN mp, OF p(1), THEN mp, OF p'(1)])
qed

lemma calm_process:
  assumes "calm L w" and "processes w h = Some p"
  shows "store_ok L h p" and "clients_wf h p" and "kv_shared (kvStore p)" and "raft (kp_kv (kvStore p)) \<noteq> None"
proof -
  show ok: "store_ok L h p" and "clients_wf h p"
    using assms(1) by (auto simp: calm_def intro: all_procsD [OF _ assms(2)])
  from ok show "kv_shared (kvStore p)" and "raft (kp_kv (kvStore p)) \<noteq> None"
    by (auto simp: store_ok_def leader_of_def)
qed

lemma store_update:
  assumes "calm L w" and "processes w h = Some p" and "quiet_effect L ((contents (kvStore p))(key := y)) (kvStore p) (e, k)"
  shows "calm L (set_process h (p\<lparr>kvStore := k\<rparr>) w)"
    and "touches (flag_shard (flags p)) key w (set_process h (p\<lparr>kvStore := k\<rparr>) w)"
    and "e = None \<Longrightarrow> at (set_process h (p\<lparr>kvStore := k\<rparr>) w) h key = y"
proof -
  note p = calm_process(1,2) [OF assms(1,2)]
  then have "store_ok L h (p\<lparr>kvStore := k\<rparr>)" using assms(3) by (auto simp: store_ok_def quiet_effect_def)
  moreover have "clients_wf h (p\<lparr>kvStore := k\<rparr>)" using p(2) by (simp add: clients_wf_def)
  moreover have "routes_ok (set_process h (p\<lparr>kvStore := k\<rparr>) w)"
    by (rule routes_ok_same [of w]) (use assms(1,2) in \<open>simp_all add: calm_def\<close>)
  ultimately show "calm L (set_process h (p\<lparr>kvStore := k\<rparr>) w)"
    using assms(1) by (auto simp: calm_def)
  show "touches (flag_shard (flags p)) key w (set_process h (p\<lparr>kvStore := k\<rparr>) w)"
    using assms(2,3) by (auto simp: touches_def shape_def at_def shard_of_def quiet_effect_def)
  show "e = None \<Longrightarrow> at (set_process h (p\<lparr>kvStore := k\<rparr>) w) h key = y"
    using assms(3) by (auto simp: at_def quiet_effect_def)
qed

section \<open>Serving a key that moves\<close>

text \<open>What a request to store \<open>key\<close> at shard \<open>S\<close> does when it returns: nothing but that key of that
  shard changes, and an acknowledgement means that a process of the shard holds the value.\<close>

definition delivers ::
  "('b, 'r, 'z) shard_lib_scheme \<Rightarrow> string \<Rightarrow> string \<Rightarrow> string \<Rightarrow> 'r world \<Rightarrow> (err + 'a) outcome \<times> 'r world \<Rightarrow> bool" where
  "delivers L S key v w res \<longleftrightarrow>
     calm L (snd res) \<and> touches S key w (snd res) \<and>
     (\<exists>x. fst res = Return x \<and>
        (\<forall>y. x = Inr y \<longrightarrow> (\<exists>h. shard_of w h = Some S \<and> at (snd res) h key = Some v)))"

abbreviation move_request :: "string \<Rightarrow> string \<Rightarrow> InternalPutRequest" where
  "move_request key v \<equiv> \<lparr>InternalPutRequest_Key = key, InternalPutRequest_Value = v,
     InternalPutRequest_IsRedistribution = True\<rparr>"

lemma delivers_Inl: "calm L w' \<Longrightarrow> touches S key w w' \<Longrightarrow> delivers L S key v w (Return (Inl e), w')"
  by (simp add: delivers_def)

lemma delivers_trans: "touches S key w w1 \<Longrightarrow> delivers L S key v w1 res \<Longrightarrow> delivers L S key v w res"
  using touches_shard_of [of S key w w1] by (auto simp: delivers_def intro: touches_trans)

lemma delivers_rpc:
  assumes "calm L w" and "\<And>host n. route w n target = Some host \<Longrightarrow> processes w host \<noteq> None \<Longrightarrow>
      delivers L S key v (w\<lparr>clock := Suc n\<rparr>) (handler host (w\<lparr>clock := Suc n\<rparr>))"
  shows "delivers L S key v w (rpc target handler w)"
proof (cases "\<exists>host reply. route w (clock w) target = Some host \<and> processes w host \<noteq> None \<and> rpc_fate w (clock w) = Served reply")
  case True
  then obtain host reply where h: "route w (clock w) target = Some host" "processes w host \<noteq> None"
    "rpc_fate w (clock w) = Served reply" by blast
  have "delivers L S key v (w\<lparr>clock := Suc (clock w)\<rparr>) (handler host (w\<lparr>clock := Suc (clock w)\<rparr>))"
    using assms(2) h(1,2) by blast
  then have d: "delivers L S key v w (handler host (w\<lparr>clock := Suc (clock w)\<rparr>))"
    by (rule delivers_trans [rotated]) simp
  then obtain x w' where "handler host (w\<lparr>clock := Suc (clock w)\<rparr>) = (Return x, w')"
    by (cases "handler host (w\<lparr>clock := Suc (clock w)\<rparr>)") (auto simp: delivers_def)
  with d h show ?thesis
    by (auto simp: rpc_def Let_def delivers_def status_result_def split: option.splits sum.splits)
next
  case False
  then show ?thesis
    using assms(1) by (auto simp: rpc_def Let_def intro!: delivers_Inl split: option.splits fate.splits)
qed

lemma replica_Put_delivers:
  assumes "entry_codec_ok L" and "raft_quiet L" and "calm L w" and "processes w h = Some p"
  shows "delivers L (flag_shard (flags p)) key v w (replica_Put L (move_request key v) h w)"
proof -
  note ok = calm_process(3,4) [OF assms(3,4)]
  obtain res where res: "KVStore_Set L key v (kvStore p) = Return res"
      "quiet_effect L ((contents (kvStore p))(key \<mapsto> v)) (kvStore p) res"
    using Set_effect [OF assms(1,2) ok, of key v] by (elim exE conjE)
  obtain e k where ek: "res = (e, k)" by (cases res)
  note upd = store_update [OF assms(3,4) res(2) [unfolded ek]]
  have put: "replica_Put L (move_request key v) h w = (Return (reply_of PutResponse e), set_process h (p\<lparr>kvStore := k\<rparr>) w)"
    using assms(4) res(1) by (simp add: ek replica_Put_def bind_act_def self_def on_store_def become_def ret_def)
  show ?thesis
  proof (cases e)
    case None
    have "shard_of w h = Some (flag_shard (flags p))" using assms(4) by (simp add: shard_of_def)
    then show ?thesis using upd(1,2) upd(3) [OF None] None by (auto simp: put delivers_def reply_of_def)
  next
    case (Some e')
    then show ?thesis using upd(1,2) by (simp add: put delivers_def reply_of_def)
  qed
qed

lemma KVStore_Leader_of:
  "KVStore_Leader L k = (case leader_of L k of None \<Rightarrow> Panic | Some l \<Rightarrow> Return l)"
  by (simp add: KVStore_Leader_def leader_of_def split: option.splits)

lemma replica_target:
  assumes "calm L w" and "processes w h = Some p" and "map_of (replicaClients p) l = Some t"
    and "route w n t = Some host" and "processes w host = Some q"
  shows "flag_shard (flags q) = flag_shard (flags p)"
proof -
  obtain d where "t = replica_id d (flag_shard (flags p)) (flag_replicaPort (flags p))"
    using calm_process(2) [OF assms(1,2)] map_of_SomeD [OF assms(3)] by (auto simp: clients_wf_def)
  then show ?thesis
    using assms(1,2,4,5) unfolding calm_def routes_ok_def by blast
qed

lemma shard_target:
  assumes "calm L w" and "processes w h = Some p" and "map_of (shardClients p) name = Some t"
    and "route w n t = Some host" and "processes w host = Some q"
  shows "flag_shard (flags q) = name"
proof -
  have "t = host_port name (flag_shardPort (flags p))"
    using calm_process(2) [OF assms(1,2)] map_of_SomeD [OF assms(3)] by (auto simp: clients_wf_def)
  then show ?thesis
    using assms(1,2,4,5) unfolding calm_def routes_ok_def by blast
qed

lemma forward_delivers:
  assumes "entry_codec_ok L" and "raft_quiet L" and "calm L w" and "processes w h = Some p"
  shows "delivers L (flag_shard (flags p)) key v w (forward_to_leader L h (replica_Put L (move_request key v)) w)"
proof -
  obtain l where l: "leader_of L (kvStore p) = Some l" "l \<noteq> [] \<longrightarrow> map_of (replicaClients p) l \<noteq> None"
    using calm_process(1) [OF assms(3,4)] by (auto simp: store_ok_def)
  have fwd: "forward_to_leader L h (replica_Put L (move_request key v)) w =
      (if l = [] then (Return (Inl no_leader), w) else client_call (replicaClients p) l (replica_Put L (move_request key v)) w)"
    using assms(4) l(1) by (simp add: forward_to_leader_def bind_act_def self_def lift_outcome_def ret_def KVStore_Leader_of)
  show ?thesis
  proof (cases "l = []")
    case True
    then show ?thesis using assms(3) by (simp add: fwd delivers_Inl)
  next
    case False
    then obtain t where t: "map_of (replicaClients p) l = Some t" using l(2) by auto
    have "delivers L (flag_shard (flags p)) key v w (rpc t (replica_Put L (move_request key v)) w)"
    proof (rule delivers_rpc [OF assms(3)])
      fix host n
      assume r: "route w n t = Some host" and "processes w host \<noteq> None"
      then obtain q where q: "processes w host = Some q" by auto
      have "delivers L (flag_shard (flags q)) key v (w\<lparr>clock := Suc n\<rparr>) (replica_Put L (move_request key v) host (w\<lparr>clock := Suc n\<rparr>))"
        by (rule replica_Put_delivers [OF assms(1,2)]) (simp_all add: assms(3) q)
      then show "delivers L (flag_shard (flags p)) key v (w\<lparr>clock := Suc n\<rparr>) (replica_Put L (move_request key v) host (w\<lparr>clock := Suc n\<rparr>))"
        by (simp only: replica_target [OF assms(3,4) t r q])
    qed
    then show ?thesis using False t by (simp add: fwd client_call_def)
  qed
qed

lemma shard_Put_delivers:
  assumes "entry_codec_ok L" and "raft_quiet L" and "calm L w" and "processes w h = Some p"
  shows "delivers L (flag_shard (flags p)) key v w (shard_Put L (move_request key v) h w)"
proof -
  obtain res where res: "KVStore_Set L key v (kvStore p) = Return res"
      "quiet_effect L ((contents (kvStore p))(key \<mapsto> v)) (kvStore p) res"
    using Set_effect [OF assms(1,2) calm_process(3,4) [OF assms(3,4)], of key v] by (elim exE conjE)
  obtain e k where ek: "res = (e, k)" by (cases res)
  let ?w = "set_process h (p\<lparr>kvStore := k\<rparr>) w"
  note upd = store_update [OF assms(3,4) res(2) [unfolded ek]]
  have put: "shard_Put L (move_request key v) h w =
      (case e of Some e' \<Rightarrow> if is_raft_err NotLeader e' then forward_to_leader L h (replica_Put L (move_request key v)) ?w
         else (Return (Inl e'), ?w) | None \<Rightarrow> (Return (Inr PutResponse), ?w))"
    using assms(4) res(1)
    by (simp add: ek shard_Put_def bind_act_def self_def on_store_def become_def ret_def split: option.splits)
  show ?thesis
  proof (cases e)
    case None
    have "shard_of w h = Some (flag_shard (flags p))" using assms(4) by (simp add: shard_of_def)
    then show ?thesis using upd(1,2) upd(3) [OF None] None by (auto simp: put delivers_def)
  next
    case (Some e')
    have "delivers L (flag_shard (flags (p\<lparr>kvStore := k\<rparr>))) key v ?w (forward_to_leader L h (replica_Put L (move_request key v)) ?w)"
      by (rule forward_delivers [OF assms(1,2) upd(1)]) simp
    then have "delivers L (flag_shard (flags p)) key v w (forward_to_leader L h (replica_Put L (move_request key v)) ?w)"
      by (intro delivers_trans [OF upd(2)]) simp
    then show ?thesis using upd(1,2) Some by (simp add: put delivers_Inl)
  qed
qed

lemma send_key_delivers:
  assumes "entry_codec_ok L" and "raft_quiet L" and "calm L w" and "processes w s = Some p"
    and "map_of (shardClients p) loc = Some t"
  shows "delivers L loc key v w (send_key L s loc key v w)"
proof -
  have "delivers L loc key v w (rpc t (shard_Put L (move_request key v)) w)"
  proof (rule delivers_rpc [OF assms(3)])
    fix host n
    assume r: "route w n t = Some host" and "processes w host \<noteq> None"
    then obtain q where q: "processes w host = Some q" by auto
    have "delivers L (flag_shard (flags q)) key v (w\<lparr>clock := Suc n\<rparr>) (shard_Put L (move_request key v) host (w\<lparr>clock := Suc n\<rparr>))"
      by (rule shard_Put_delivers [OF assms(1,2)]) (simp_all add: assms(3) q)
    then show "delivers L loc key v (w\<lparr>clock := Suc n\<rparr>) (shard_Put L (move_request key v) host (w\<lparr>clock := Suc n\<rparr>))"
      by (simp only: shard_target [OF assms(3,4,5) r q])
  qed
  then show ?thesis
    using assms(4,5) by (simp add: send_key_def bind_act_def self_def client_call_def)
qed

section \<open>No key is lost\<close>

definition key_step :: "string set \<Rightarrow> 'r world \<Rightarrow> 'r world \<Rightarrow> bool" where
  "key_step K w w' \<longleftrightarrow>
     route w' = route w \<and> rpc_fate w' = rpc_fate w \<and>
     (\<forall>h. map_option shape (processes w' h) = map_option shape (processes w h)) \<and>
     (\<forall>h k. k \<notin> K \<longrightarrow> at w' h k = at w h k)"

lemma touches_key_step: "touches S key w w' \<Longrightarrow> key_step {key} w w'"
  by (auto simp: touches_def key_step_def)

lemma key_step_trans: "key_step K w w1 \<Longrightarrow> key_step K' w1 w2 \<Longrightarrow> key_step (K \<union> K') w w2"
  by (auto simp: key_step_def)

lemma purge_key_effect:
  assumes "entry_codec_ok L" and "raft_quiet L" and "calm L w" and "processes w s = Some p"
  shows "\<exists>w'. purge_key L s key w = (Return (), w') \<and> calm L w' \<and> touches (flag_shard (flags p)) key w w'"
proof -
  obtain res where res: "KVStore_Delete L key (kvStore p) = Return res"
      "quiet_effect L ((contents (kvStore p))(key := None)) (kvStore p) res"
    using Delete_effect [OF assms(1,2) calm_process(3,4) [OF assms(3,4)], of key] by (elim exE conjE)
  obtain e k where ek: "res = (e, k)" by (cases res)
  have "purge_key L s key w = (Return (), set_process s (p\<lparr>kvStore := k\<rparr>) w)"
    using assms(4) res(1) by (simp add: ek purge_key_def bind_act_def self_def on_store_def become_def ret_def)
  then show ?thesis using store_update(1,2) [OF assms(3,4) res(2) [unfolded ek]] by blast
qed

text \<open>Sending a key and purging it when the target acknowledged: some process still holds it.\<close>

lemma send_then_purge_keeps:
  assumes "entry_codec_ok L" and "raft_quiet L" and "calm L w" and "processes w s = Some p"
    and "map_of (shardClients p) loc = Some t" and "loc \<noteq> flag_shard (flags p)" and "at w s key = Some v"
    and "bind_act (send_key L s loc key v) (\<lambda>res. case res of Inl e \<Rightarrow> ret () | Inr _ \<Rightarrow> purge_key L s key) w = (Return (), w')"
  shows "calm L w' \<and> key_step {key} w w' \<and> (\<exists>h. at w' h key = Some v)"
proof -
  obtain y w1 where send: "send_key L s loc key v w = (Return y, w1)"
    and rest: "(case y of Inl e \<Rightarrow> ret () | Inr _ \<Rightarrow> purge_key L s key) w1 = (Return (), w')"
    using assms(8) by (auto simp: bind_act_Return)
  have d: "calm L w1" "touches loc key w w1"
    "\<And>z. y = Inr z \<Longrightarrow> \<exists>h. shard_of w h = Some loc \<and> at w1 h key = Some v"
    using send_key_delivers [OF assms(1-5), of key v] by (auto simp: send delivers_def)
  have own: "shard_of w s \<noteq> Some loc" using assms(4,6) by (simp add: shard_of_def)
  show ?thesis
  proof (cases y)
    case (Inl e)
    have "at w1 s key = Some v" using d(2) own assms(7) by (simp add: touches_def)
    then show ?thesis using rest Inl d touches_key_step by (auto simp: act_simps)
  next
    case (Inr z)
    obtain h where h: "shard_of w h = Some loc" "at w1 h key = Some v" using d(3) [OF Inr] by blast
    obtain q where q: "processes w1 s = Some q" "shape q = shape p" using touches_process [OF d(2) assms(4)] .
    obtain w2 where w2: "purge_key L s key w1 = (Return (), w2)" "calm L w2" "touches (flag_shard (flags q)) key w1 w2"
      using purge_key_effect [OF assms(1,2) d(1) q(1)] by blast
    have "w2 = w'" using rest Inr w2(1) by simp
    have "shard_of w1 h \<noteq> Some (flag_shard (flags q))"
      using h(1) own q(2) assms(4,6) touches_shard_of [OF d(2)] by (simp add: shape_def)
    then have "at w' h key = Some v" using w2(3) h(2) \<open>w2 = w'\<close> by (simp add: touches_def)
    moreover have "key_step {key} w w'"
      using key_step_trans [OF touches_key_step [OF d(2)] touches_key_step [OF w2(3)]] \<open>w2 = w'\<close> by simp
    ultimately show ?thesis using w2(2) \<open>w2 = w'\<close> by blast
  qed
qed

lemma redistribute_key_safe:
  assumes "entry_codec_ok L" and "raft_quiet L" and "calm L w"
    and "redistribute_key L s newCh key w = (Return (), w')"
  shows "calm L w' \<and> key_step {key} w w' \<and> (\<forall>v. at w s key = Some v \<longrightarrow> (\<exists>h. at w' h key = Some v))"
proof -
  obtain p old new where p: "processes w s = Some p"
    and run: "(if old \<noteq> new \<and> old = flag_shard (flags p) then
       (case KVStore_Get key (kvStore p) of Inl e \<Rightarrow> ret () | Inr v \<Rightarrow>
          bind_act (send_key L s new key v) (\<lambda>res. case res of Inl e \<Rightarrow> ret () | Inr _ \<Rightarrow> purge_key L s key))
       else ret ()) w = (Return (), w')"
    using assms(4) by (auto simp: redistribute_key_def bind_act_Return self_Return lift_Return)
  have same: ?thesis if "w' = w"
    using that assms(3) by (auto simp: key_step_def)
  show ?thesis
  proof (cases "old \<noteq> new \<and> old = flag_shard (flags p) \<and> at w s key \<noteq> None")
    case True
    then obtain v where v: "at w s key = Some v" by auto
    then have get: "KVStore_Get key (kvStore p) = Inr v" using p by (simp add: at_def Get_contents)
    have c: "old \<noteq> new \<and> old = flag_shard (flags p)" using True by blast
    have run': "bind_act (send_key L s new key v)
        (\<lambda>res. case res of Inl e \<Rightarrow> ret () | Inr _ \<Rightarrow> purge_key L s key) w = (Return (), w')"
      using run unfolding if_P [OF c] get by simp
    then have "map_of (shardClients p) new \<noteq> None"
      using p by (auto simp: bind_act_Return send_key_def self_Return client_call_def stop_Return split: option.splits)
    then obtain t where "map_of (shardClients p) new = Some t" by auto
    from send_then_purge_keeps [OF assms(1-3) p this _ v run'] True v show ?thesis by auto
  next
    case False
    then show ?thesis
      using run p by (intro same) (auto simp: at_def Get_contents ret_Return split: if_splits option.splits)
  qed
qed

lemma redistribute_loop_safe:
  assumes "entry_codec_ok L" and "raft_quiet L" and "calm L w" and "distinct keys"
    and "redistribute_keys_loop L s newCh keys w = (Return (), w')"
  shows "calm L w' \<and> key_step (set keys) w w' \<and> (\<forall>k v. at w s k = Some v \<longrightarrow> (\<exists>h. at w' h k = Some v))"
  using assms(3-5)
proof (induction keys arbitrary: w)
  case Nil
  then show ?case by (auto simp: ret_Return key_step_def)
next
  case (Cons key keys)
  obtain w1 where w1: "redistribute_key L s newCh key w = (Return (), w1)"
    "redistribute_keys_loop L s newCh keys w1 = (Return (), w')"
    using Cons.prems(3) by (auto simp: bind_act_Return)
  note one = redistribute_key_safe [OF assms(1,2) Cons.prems(1) w1(1)]
  have IH: "calm L w' \<and> key_step (set keys) w1 w' \<and> (\<forall>k v. at w1 s k = Some v \<longrightarrow> (\<exists>h. at w' h k = Some v))"
    using Cons.IH one Cons.prems(2) w1(2) by auto
  have "\<exists>h. at w' h k = Some v" if kv: "at w s k = Some v" for k v
  proof (cases "k = key")
    case True
    then obtain h where "at w1 h k = Some v" using one kv by blast
    moreover have "k \<notin> set keys" using True Cons.prems(2) by simp
    ultimately show ?thesis using IH by (metis key_step_def)
  next
    case False
    then have "at w1 s k = Some v" using one kv by (simp add: key_step_def)
    then show ?thesis using IH by blast
  qed
  moreover have "key_step (set (key # keys)) w w'"
    using key_step_trans [of "{key}" w w1 "set keys" w'] one IH by simp
  ultimately show ?case using IH by blast
qed

lemma calm_variables:
  assumes "calm L w" and "processes w s = Some p" and "clients_wf s q"
    and "kvStore q = kvStore p" and "flags q = flags p" and "replicaClients q = replicaClients p"
  shows "calm L (set_process s q w)" and "at (set_process s q w) = at w"
proof -
  have "store_ok L s q" using calm_process(1) [OF assms(1,2)] assms(4,6) by (simp add: store_ok_def)
  moreover have "routes_ok (set_process s q w)"
    by (rule routes_ok_same [of w]) (use assms(1,2,5) in \<open>simp_all add: calm_def\<close>)
  ultimately show "calm L (set_process s q w)"
    using assms(1,3) by (simp add: calm_def)
  show "at (set_process s q w) = at w"
    using assms(2,4) by (simp add: at_def fun_eq_iff)
qed

lemma set_redistributing_effect:
  assumes "calm L w" and "set_redistributing s b w = (Return y, w')"
  shows "calm L w'" and "at w' = at w"
    and "\<exists>p. processes w s = Some p \<and> w' = set_process s (p\<lparr>redistributingKeys := b\<rparr>) w"
proof -
  obtain p where p: "processes w s = Some p" "w' = set_process s (p\<lparr>redistributingKeys := b\<rparr>) w"
    using assms(2) by (auto simp: set_redistributing_def act_simps)
  have "clients_wf s (p\<lparr>redistributingKeys := b\<rparr>)"
    using calm_process(2) [OF assms(1) p(1)] by (rule clients.inv_flag)
  from calm_variables [OF assms(1) p(1) this] show "calm L w'" "at w' = at w" by (simp_all add: p(2))
  show "\<exists>p. processes w s = Some p \<and> w' = set_process s (p\<lparr>redistributingKeys := b\<rparr>) w" using p by blast
qed

lemma PopulateShardClients_effect:
  assumes "calm L w" and "PopulateShardClients L s shards w = (Return y, w')"
  shows "calm L w'" and "at w' = at w"
proof -
  obtain p cs where p: "processes w s = Some p" "w' = set_process s (p\<lparr>shardClients := cs\<rparr>) w"
    using assms(2) by (auto simp: PopulateShardClients_Return)
  have "all_procs clients_wf w'"
    using keeps_allD [OF clients.keeps_PopulateShardClients _ assms(2)] assms(1) by (simp add: calm_def)
  then have "clients_wf s (p\<lparr>shardClients := cs\<rparr>)" by (rule all_procsD) (simp add: p(2))
  from calm_variables [OF assms(1) p(1) this] show "calm L w'" "at w' = at w" by (simp_all add: p(2))
qed

lemma kv_shared_keys: "kv_shared k \<Longrightarrow> distinct (KVStore_Keys k)"
  by (auto simp: kv_shared_def fsm_inv_def KVStore_Keys_def wf_heap_def wf_map_def)

lemma demo_quiet [simp]: "raft_quiet demo_shard_lib"
  by (auto simp: raft_quiet_def demo_shard_lib_def demo_lib_def raft_lib.defs shard_lib.defs split: if_splits)

lemma demo_route_host_port:
  "demo_route n (host_port name p) =
     (if p = 8081 \<and> name = ''s-0'' \<or> p = 8083 \<and> name = ''r-0.s-0'' then Some ''r-0.s-0''
      else if p = 8081 \<and> name = ''s-1'' \<or> p = 8083 \<and> name = ''r-0.s-1'' then Some ''r-0.s-1'' else None)"
proof -
  have names: "''s-0:8081'' = host_port ''s-0'' 8081" "''r-0.s-0:8083'' = host_port ''r-0.s-0'' 8083"
    "''s-1:8081'' = host_port ''s-1'' 8081" "''r-0.s-1:8083'' = host_port ''r-0.s-1'' 8083"
    by (simp_all add: host_port_def render_simps)
  show ?thesis unfolding demo_route_def names by auto
qed

lemma demo_suffix: "d @ ''.'' @ sh = ''r-0.'' @ sh' \<Longrightarrow> sh \<in> {''s-0'', ''s-1''} \<Longrightarrow> sh' \<in> {''s-0'', ''s-1''} \<Longrightarrow> sh' = sh"
  by (auto dest: arg_cong [where f = last])

lemma demo_calm [simp]: "wf_map m0 \<Longrightarrow> wf_map m1 \<Longrightarrow> calm demo_shard_lib (demo_world m0 m1)"
proof -
  assume wf: "wf_map m0" "wf_map m1"
  have "leader_of demo_shard_lib (demo_store sh m) = Some (replica_id ''r-0'' sh 8082)" for sh m
    by (simp add: leader_of_def demo_store_def)
  then have "store_ok demo_shard_lib h (demo_process sh m)" if "wf_map m" for h sh m
    using that by (auto simp: store_ok_def)
  then have "all_procs (store_ok demo_shard_lib) (demo_world m0 m1)"
    using wf by (auto simp: all_procs_def demo_world_def)
  moreover have "routes_ok (demo_world m0 m1)"
    unfolding routes_ok_def demo_world_def
    by (auto simp: demo_route_host_port replica_id_host_port split: if_splits dest: demo_suffix)
  ultimately show ?thesis by (simp add: calm_def)
qed

lemma demo_redistribute:
  "\<exists>w'. RedistributeKeys demo_shard_lib ''r-0.s-0'' (demo_world [(''k'', ''v''), (''kk'', ''v'')] []) = (Return (), w')"
  by (simp add: RedistributeKeys_def redistribute_under_def set_redistributing_def redistribute_key_def send_key_def purge_key_def
     shard_Put_def PopulateShardClients_def new_ring_def ReadConfig_def demo_eval)

text \<open>C3: while Raft is quiet, a run of \<open>RedistributeKeys\<close> that returns loses no key: whatever calls and
  replies the network loses, every key the process held is afterwards held, with the same value, by
  this or another process.\<close>

theorem redistribution_loses_no_key:
  assumes "entry_codec_ok L" and "raft_quiet L" and "range_ok L" and "calm L w"
    and "RedistributeKeys L s w = (Return (), w')" and "at w s key = Some v"
  shows "\<exists>h. at w' h key = Some v"
proof -
  obtain p where p: "processes w s = Some p" using assms(6) by (cases "processes w s") (simp_all add: at_def)
  show ?thesis
  proof (cases "redistributingKeys p")
    case True
    then have "w' = w" using assms(5) p by (auto simp: RedistributeKeys_def act_simps)
    then show ?thesis using assms(6) by blast
  next
    case False
    let ?ks = "range_order L (KVStore_Keys (kvStore p))"
    obtain c w1 where w1: "set_redistributing s True w = (Return (), w1)"
      and rest: "redistribute_under L s ?ks c w1 = (Return (), w')"
      using assms(5) p False by (auto simp: RedistributeKeys_def bind_act_Return self_Return lift_Return)
    note e1 = set_redistributing_effect(1,2) [OF assms(4) w1]
    show ?thesis
    proof (cases "config_NewShards c = []")
      case True
      then have "set_redistributing s False w1 = (Return (), w')"
        using rest by (simp add: redistribute_under_def)
      then show ?thesis using set_redistributing_effect(2) [OF e1(1)] e1(2) assms(6) by auto
    next
      case False
      then obtain w2 newCh w3 where w2: "PopulateShardClients L s (config_NewShards c) w1 = (Return (), w2)"
        and w3: "redistribute_keys_loop L s newCh ?ks w2 = (Return (), w3)"
        and w': "set_redistributing s False w3 = (Return (), w')"
        using rest by (auto simp: redistribute_under_def bind_act_Return lift_Return)
      note e2 = PopulateShardClients_effect [OF e1(1) w2]
      have d: "distinct ?ks"
        using assms(3) kv_shared_keys [OF calm_process(3) [OF assms(4) p]] by (simp add: range_ok_def)
      note e3 = redistribute_loop_safe [OF assms(1,2) e2(1) d w3]
      have "at w2 s key = Some v" using e1(2) e2(2) assms(6) by simp
      moreover have "at w' = at w3" by (rule set_redistributing_effect(2) [OF e3 [THEN conjunct1] w'])
      ultimately show ?thesis using e3 by auto
    qed
  qed
qed

lemma demo_at [simp]: "at (demo_world m0 m1) ''r-0.s-0'' = map_of m0" "at (demo_world m0 m1) ''r-0.s-1'' = map_of m1"
  by (simp_all add: at_def contents_def demo_store_def fun_eq_iff)

theorem redistribution_loses_no_key_witness:
  "\<exists>w' h. RedistributeKeys demo_shard_lib ''r-0.s-0'' (demo_world [(''k'', ''v''), (''kk'', ''v'')] []) = (Return (), w') \<and>
     at w' h ''k'' = Some ''v''"
proof -
  obtain w' where run: "RedistributeKeys demo_shard_lib ''r-0.s-0'' (demo_world [(''k'', ''v''), (''kk'', ''v'')] []) = (Return (), w')"
    using demo_redistribute by blast
  have "calm demo_shard_lib (demo_world [(''k'', ''v''), (''kk'', ''v'')] [])"
    by (rule demo_calm) (simp_all add: wf_map_def)
  from redistribution_loses_no_key [OF demo_shard_lib_ok(1) demo_quiet demo_shard_lib_ok(4) this run, of "''k''" "''v''"] run
  show ?thesis by auto
qed

section \<open>Pending keys\<close>

text \<open>Whether a key moves, when the rings locate it.\<close>

definition moves :: "('b, 'r, 'z) shard_lib_scheme \<Rightarrow> string list \<Rightarrow> string list \<Rightarrow> string \<Rightarrow> string \<Rightarrow> bool" where
  "moves L ms newCh sh key \<longleftrightarrow> LocateKey L ms key \<noteq> LocateKey L newCh key \<and> LocateKey L ms key = Some sh"

lemma must_move_moves:
  "must_move L p newCh key = Return b \<Longrightarrow>
   \<exists>ms. ch p = Some ms \<and> b = moves L ms newCh (flag_shard (flags p)) key"
  by (auto simp: must_move_def locate_def moves_def split: option.splits)

lemma must_move_located:
  assumes "locate_ok L" and "ch p = Some ms" and "ms \<noteq> []" and "newCh \<noteq> []"
  shows "must_move L p newCh key = Return (moves L ms newCh (flag_shard (flags p)) key)"
  using locate_ok_D [OF assms(1,3), of key] locate_ok_D [OF assms(1,4), of key] assms(2)
  by (auto simp: must_move_def locate_def moves_def)

lemma count_pending_Return:
  "count_pending L p newCh keys n = Return c \<Longrightarrow>
   c = n + length (filter (\<lambda>k. must_move L p newCh k = Return True) keys)"
proof (induction keys arbitrary: n)
  case (Cons key keys)
  then show ?case by (cases "must_move L p newCh key") (auto split: if_splits dest!: Cons.IH)
qed simp

lemma count_pending_none:
  "(\<And>k. k \<in> set keys \<Longrightarrow> must_move L p newCh k = Return False) \<Longrightarrow> count_pending L p newCh keys n = Return n"
  by (induction keys) auto

lemma count_as_card:
  assumes "range_ok L" and "distinct keys"
  shows "length (filter P (range_order L keys)) = card {k \<in> set keys. P k}"
proof -
  have "distinct (range_order L keys)" "set (range_order L keys) = set keys"
    using assms by (simp_all add: range_ok_def)
  then show ?thesis by (metis distinct_card distinct_filter set_filter)
qed

definition pending_of :: "('b, 'r, 'z) shard_lib_scheme \<Rightarrow> 'r process \<Rightarrow> KVStoreConfig \<Rightarrow> string set" where
  "pending_of L p c = {k \<in> set (KVStore_Keys (kvStore p)). must_move L p (map shard_Name (config_NewShards c)) k = Return True}"

lemma replica_count:
  assumes "range_ok L" and "processes w s = Some p" and "kv_shared (kvStore p)"
    and "replica_RedistributeKeys L req s w = (Return (Inr r), w')"
  shows "\<exists>c. configFile p = Parsed c \<and> RedistributeKeysResponse_PendingKeys r = of_nat (card (pending_of L p c))"
proof -
  obtain c where c: "configFile p = Parsed c"
    using assms(2,4) by (cases "configFile p") (auto simp: replica_RedistributeKeys_def act_simps ReadConfig_def)
  let ?new = "map shard_Name (config_NewShards c)"
  obtain n where n: "count_pending L p ?new (range_order L (KVStore_Keys (kvStore p))) 0 = Return n"
    and r: "r = \<lparr>RedistributeKeysResponse_PendingKeys = of_nat n\<rparr>"
    using assms(2,4) c
    by (auto simp: replica_RedistributeKeys_def act_simps ReadConfig_def new_ring_def Let_def split: if_splits)
  have "n = card (pending_of L p c)"
    using count_pending_Return [OF n] count_as_card [OF assms(1) kv_shared_keys [OF assms(3)]]
    by (simp add: pending_of_def)
  then show ?thesis using c r by simp
qed

text \<open>C24: the count that \<open>RedistributeKeys\<close> of the replica service reports is the number of stored keys
  that must move, modulo \<open>2^32\<close>; with fewer than \<open>2^32\<close> of them, it is 0 exactly when no key must
  move.\<close>

theorem pending_keys_counted:
  assumes "range_ok L" and "processes w s = Some p" and "kv_shared (kvStore p)" and "configFile p = Parsed c"
    and "replica_RedistributeKeys L req s w = (Return (Inr r), w')"
  shows "let pending = {k \<in> set (KVStore_Keys (kvStore p)).
           must_move L p (map shard_Name (config_NewShards c)) k = Return True} in
    RedistributeKeysResponse_PendingKeys r = of_nat (card pending) \<and>
    (card pending < 2 ^ 32 \<longrightarrow> (RedistributeKeysResponse_PendingKeys r = 0 \<longleftrightarrow> pending = {}))"
proof -
  let ?pending = "pending_of L p c"
  have r: "RedistributeKeysResponse_PendingKeys r = of_nat (card ?pending)"
    using replica_count [OF assms(1-3,5)] assms(4) by auto
  have "(of_nat (card ?pending) :: 32 word) = 0 \<longleftrightarrow> card ?pending = 0" if "card ?pending < 2 ^ 32"
    using that by (auto simp: word_of_nat_eq_0_iff dest: nat_dvd_not_less)
  moreover have "finite ?pending" by (simp add: pending_of_def)
  ultimately show ?thesis using r by (auto simp: pending_of_def [symmetric] Let_def)
qed

theorem pending_keys_counted_witness:
  "\<exists>r w'. replica_RedistributeKeys demo_shard_lib RedistributeKeysRequest ''r-0.s-0''
       (demo_world [(''k'', ''v''), (''kk'', ''v'')] []) = (Return (Inr r), w') \<and>
     RedistributeKeysResponse_PendingKeys r \<noteq> 0"
proof -
  let ?w = "demo_world [(''k'', ''v''), (''kk'', ''v'')] []" and ?p = "demo_process ''s-0'' [(''k'', ''v''), (''kk'', ''v'')]"
  let ?pending = "{k \<in> set (KVStore_Keys (kvStore ?p)).
      must_move demo_shard_lib ?p (map shard_Name (config_NewShards demo_config)) k = Return True}"
  obtain r w' where run: "replica_RedistributeKeys demo_shard_lib RedistributeKeysRequest ''r-0.s-0'' ?w = (Return (Inr r), w')"
    by (simp add: replica_RedistributeKeys_def demo_eval ReadConfig_def new_ring_def must_move_def)
  have pending: "?pending = {''k''}" by (auto simp: must_move_def locate_def)
  have sh: "kv_shared (kvStore ?p)" by (simp add: wf_map_def)
  have "card ?pending < 2 ^ 32 \<longrightarrow> (RedistributeKeysResponse_PendingKeys r = 0 \<longleftrightarrow> ?pending = {})"
    using pending_keys_counted [OF demo_shard_lib_ok(4) demo_processes(1) sh demo_fields(12) run] unfolding Let_def by blast
  then have "RedistributeKeysResponse_PendingKeys r \<noteq> 0" unfolding pending by simp
  with run show ?thesis by blast
qed

end
