(* ===== verification/Redistribution_Complete.thy ===== *)
theory Redistribution_Complete
  imports Redistribution
begin

text \<open>
  The redistribution finishes its work: when no call is lost, the names of the new shards resolve to
  their leaders and leaders commit what they are given, a run of \<open>RedistributeKeys\<close> returns, no key
  that must move is left at the old shard, and the count of pending keys is 0.  And what it does not
  guard against: a client's write that the leader acknowledges after it sent the key, and before it
  purges it, is deleted with the key.
\<close>

definition is_leader :: "('b, 'r, 'z) raft_lib_scheme \<Rightarrow> 'r kvproc \<Rightarrow> bool" where
  "is_leader L k \<longleftrightarrow> (case raft (kp_kv k) of None \<Rightarrow> False | Some r \<Rightarrow> raft_State L r = Leader)"

definition leads :: "('b, 'r, 'z) raft_lib_scheme \<Rightarrow> 'r world \<Rightarrow> string \<Rightarrow> bool" where
  "leads L w h \<longleftrightarrow> (case processes w h of None \<Rightarrow> False | Some p \<Rightarrow> is_leader L (kvStore p))"

text \<open>A leader with a quorum commits every entry and stays leader; messages encode.\<close>

definition raft_live :: "('b, 'r, 'z) raft_lib_scheme \<Rightarrow> bool" where
  "raft_live L \<longleftrightarrow>
     (\<forall>r d. raft_State L r = Leader \<longrightarrow> (\<exists>r'. raft_Apply L r d = (None, [d], r') \<and> raft_State L r' = Leader)) \<and>
     (\<forall>m. \<exists>b. marshal_entry L m = Inr b)"

lemma apply_live:
  assumes "entry_codec_ok L" and "raft_live L" and "kv_shared k" and "is_leader L k"
    and "marshal_entry L (command_entry cmd) = Inr d"
  shows "\<exists>k'. raft_apply_entry L d k = Return (None, k') \<and> is_leader L k'"
proof -
  obtain r where r: "raft (kp_kv k) = Some r" "raft_State L r = Leader"
    using assms(4) by (auto simp: is_leader_def split: option.splits)
  obtain r' where r': "raft_Apply L r d = (None, [d], r')" "raft_State L r' = Leader"
    using assms(2) r(2) unfolding raft_live_def by blast
  obtain fh where "fsm_run L [d] (kp_fsm k, kp_heap k) = Return fh"
    using fsm_run_entry [OF assms(1,5), of "(kp_fsm k, kp_heap k)"] assms(3) by (auto simp: kv_shared_def)
  then show ?thesis
    using r r' by (auto simp: raft_apply_entry_def is_leader_def split: prod.splits)
qed

lemma Set_live:
  assumes "entry_codec_ok L" and "raft_live L" and "kv_shared k" and "is_leader L k"
  shows "\<exists>k'. KVStore_Set L key v k = Return (None, k') \<and> is_leader L k'"
proof -
  obtain d where d: "marshal_entry L (command_entry (CSet key v)) = Inr d"
    using assms(2) unfolding raft_live_def by blast
  from apply_live [OF assms d] d assms(4) show ?thesis
    by (auto simp: KVStore_Set_def is_leader_def split: option.splits)
qed

lemma Delete_live:
  assumes "entry_codec_ok L" and "raft_live L" and "kv_shared k" and "is_leader L k"
  shows "\<exists>k'. KVStore_Delete L key k = Return (None, k') \<and> is_leader L k'"
proof -
  obtain d where d: "marshal_entry L (command_entry (CDelete key)) = Inr d"
    using assms(2) unfolding raft_live_def by blast
  from apply_live [OF assms d] d assms(4) show ?thesis
    by (auto simp: KVStore_Delete_def is_leader_def split: option.splits)
qed

section \<open>A world that serves\<close>

definition keeps_leaders :: "('b, 'r, 'z) raft_lib_scheme \<Rightarrow> 'r world \<Rightarrow> 'r world \<Rightarrow> bool" where
  "keeps_leaders L w w' \<longleftrightarrow> (\<forall>h. leads L w h \<longrightarrow> leads L w' h)"

definition serving :: "('b, 'r, 'z) shard_lib_scheme \<Rightarrow> string list \<Rightarrow> string \<Rightarrow> 'r world \<Rightarrow> bool" where
  "serving L newCh s w \<longleftrightarrow>
     rpc_fate w = (\<lambda>_. Served None) \<and> leads L w s \<and>
     (case processes w s of
        None \<Rightarrow> False
      | Some p \<Rightarrow>
          (case ch p of None \<Rightarrow> False | Some ms \<Rightarrow> ms \<noteq> []) \<and>
          (\<forall>m \<in> set newCh. \<exists>t. map_of (shardClients p) m = Some t \<and>
             (\<forall>n. \<exists>h. route w n t = Some h \<and> leads L w h)))"

lemma leads_clock [simp]: "leads L (w\<lparr>clock := n\<rparr>) = leads L w"
  by (simp add: leads_def fun_eq_iff)

lemma keeps_leaders_set:
  "is_leader L k \<Longrightarrow> keeps_leaders L w (set_process h (p\<lparr>kvStore := k\<rparr>) w)"
  by (simp add: keeps_leaders_def leads_def)

lemma keeps_leaders_trans: "keeps_leaders L w w1 \<Longrightarrow> keeps_leaders L w1 w2 \<Longrightarrow> keeps_leaders L w w2"
  by (simp add: keeps_leaders_def)

lemma leads_process: "leads L w h \<Longrightarrow> processes w h = Some p \<Longrightarrow> is_leader L (kvStore p)"
  by (simp add: leads_def)

lemma serving_step:
  assumes "serving L newCh s w" and "key_step K w w'" and "keeps_leaders L w w'"
  shows "serving L newCh s w'"
proof -
  obtain p where p: "processes w s = Some p" using assms(1) by (auto simp: serving_def split: option.splits)
  have "map_option shape (processes w' s) = Some (shape p)" using assms(2) p by (simp add: key_step_def)
  then obtain q where q: "processes w' s = Some q" "shape q = shape p" by (cases "processes w' s") simp_all
  have f: "ch q = ch p" "shardClients q = shardClients p" using q(2) by (simp_all add: shape_def)
  have r: "route w' = route w" "rpc_fate w' = rpc_fate w" using assms(2) by (simp_all add: key_step_def)
  have "\<exists>t. map_of (shardClients q) m = Some t \<and> (\<forall>n. \<exists>h. route w' n t = Some h \<and> leads L w' h)"
    if "m \<in> set newCh" for m
    using assms(1,3) p that unfolding f r serving_def keeps_leaders_def by fastforce
  then show ?thesis
    using assms(1,3) p q f r by (auto simp: serving_def keeps_leaders_def)
qed

lemma shard_Put_live:
  assumes "entry_codec_ok L" and "raft_live L" and "calm L w" and "processes w h = Some q" and "is_leader L (kvStore q)"
  shows "\<exists>w'. shard_Put L (move_request key v) h w = (Return (Inr PutResponse), w') \<and> keeps_leaders L w w'"
proof -
  obtain k where k: "KVStore_Set L key v (kvStore q) = Return (None, k)" "is_leader L k"
    using Set_live [OF assms(1,2) calm_process(3) [OF assms(3,4)] assms(5)] by blast
  have "shard_Put L (move_request key v) h w = (Return (Inr PutResponse), set_process h (q\<lparr>kvStore := k\<rparr>) w)"
    using assms(4) k(1) by (simp add: shard_Put_def bind_act_def self_def on_store_def become_def ret_def)
  then show ?thesis using keeps_leaders_set [OF k(2)] by blast
qed

lemma send_key_live:
  assumes "entry_codec_ok L" and "raft_live L" and "calm L w" and "serving L newCh s w" and "loc \<in> set newCh"
  shows "\<exists>w'. send_key L s loc key v w = (Return (Inr PutResponse), w') \<and> keeps_leaders L w w'"
proof -
  obtain p where p: "processes w s = Some p" using assms(4) by (auto simp: serving_def split: option.splits)
  obtain t h where t: "map_of (shardClients p) loc = Some t" "route w (clock w) t = Some h" "leads L w h"
    using assms(4,5) p unfolding serving_def by fastforce
  obtain q where q: "processes w h = Some q" using t(3) by (auto simp: leads_def split: option.splits)
  let ?w = "w\<lparr>clock := Suc (clock w)\<rparr>"
  obtain w' where w': "shard_Put L (move_request key v) h ?w = (Return (Inr PutResponse), w')" "keeps_leaders L ?w w'"
    using shard_Put_live [OF assms(1,2), of ?w h q key v] assms(3) q leads_process [OF t(3) q] by auto
  have "rpc_fate w (clock w) = Served None" using assms(4) by (simp add: serving_def)
  then have "send_key L s loc key v w = (Return (Inr PutResponse), w')"
    using p t q w'(1)
    by (simp add: send_key_def bind_act_def self_def client_call_def rpc_def Let_def status_result_def)
  moreover have "keeps_leaders L w w'" using w'(2) by (simp add: keeps_leaders_def)
  ultimately show ?thesis by blast
qed

lemma purge_key_live:
  assumes "raft_apply_ok L" and "entry_codec_ok L" and "raft_live L" and "calm L w" and "leads L w s"
  shows "\<exists>w'. purge_key L s key w = (Return (), w') \<and> keeps_leaders L w w' \<and> at w' s key = None"
proof -
  obtain p where p: "processes w s = Some p" using assms(5) by (auto simp: leads_def split: option.splits)
  note sh = calm_process(3) [OF assms(4) p]
  obtain k where k: "KVStore_Delete L key (kvStore p) = Return (None, k)" "is_leader L k"
    using Delete_live [OF assms(2,3) sh leads_process [OF assms(5) p]] by blast
  have "contents k key = None"
    using Delete_Get [OF assms(1,2) sh k(1)] by (simp add: Get_contents split: option.splits)
  then have "at (set_process s (p\<lparr>kvStore := k\<rparr>) w) s key = None" by (simp add: at_def)
  moreover have "purge_key L s key w = (Return (), set_process s (p\<lparr>kvStore := k\<rparr>) w)"
    using p k(1) by (simp add: purge_key_def bind_act_def self_def on_store_def become_def ret_def)
  ultimately show ?thesis using keeps_leaders_set [OF k(2)] by blast
qed

section \<open>The run\<close>

lemma redistribute_key_live:
  assumes "raft_apply_ok L" and "entry_codec_ok L" and "raft_quiet L" and "raft_live L" and "locate_ok L" and "newCh \<noteq> []"
    and "calm L w" and "serving L newCh s w"
    and "processes w s = Some p" and "ch p = Some ms"
  shows "\<exists>w'. redistribute_key L s newCh key w = (Return (), w') \<and> keeps_leaders L w w' \<and>
    (moves L ms newCh (flag_shard (flags p)) key \<longrightarrow> at w' s key = None)"
proof -
  have ms: "ms \<noteq> []" using assms(8-10) by (auto simp: serving_def)
  obtain old where old: "LocateKey L ms key = Some old" using locate_ok_D [OF assms(5) ms] by blast
  obtain new where new: "LocateKey L newCh key = Some new" "new \<in> set newCh"
    using locate_ok_D [OF assms(5,6)] by blast
  let ?move = "old \<noteq> new \<and> old = flag_shard (flags p)"
  have run: "redistribute_key L s newCh key w =
      (if ?move then (case KVStore_Get key (kvStore p) of Inl e \<Rightarrow> ret () | Inr v \<Rightarrow>
         bind_act (send_key L s new key v) (\<lambda>res. case res of Inl e \<Rightarrow> ret () | Inr _ \<Rightarrow> purge_key L s key))
       else ret ()) w"
    using assms(9,10) old new(1)
    by (simp add: redistribute_key_def bind_act_def self_def lift_outcome_def locate_def)
  have stay: ?thesis if "redistribute_key L s newCh key w = (Return (), w)" "?move \<Longrightarrow> at w s key = None"
    using that old new(1) by (auto simp: keeps_leaders_def moves_def)
  show ?thesis
  proof (cases "?move \<and> at w s key \<noteq> None")
    case True
    then obtain v where get: "KVStore_Get key (kvStore p) = Inr v"
      using assms(9) by (auto simp: at_def Get_contents)
    obtain w1 where w1: "send_key L s new key v w = (Return (Inr PutResponse), w1)" "keeps_leaders L w w1"
      using send_key_live [OF assms(2,4,7,8) new(2)] by blast
    obtain t where "map_of (shardClients p) new = Some t" using assms(8,9) new(2) by (auto simp: serving_def)
    from send_key_delivers [OF assms(2,3,7,9) this, of key v] have "calm L w1" by (simp add: w1(1) delivers_def)
    moreover have "leads L w1 s" using w1(2) assms(8) by (simp add: keeps_leaders_def serving_def)
    ultimately obtain w2 where w2: "purge_key L s key w1 = (Return (), w2)" "keeps_leaders L w1 w2" "at w2 s key = None"
      using purge_key_live [OF assms(1,2,4)] by blast
    have move: ?move using True by blast
    have "redistribute_key L s newCh key w = (Return (), w2)"
      unfolding run if_P [OF move] get using w1(1) w2(1) by (simp add: bind_act_def)
    then show ?thesis using keeps_leaders_trans [OF w1(2) w2(2)] w2(3) by blast
  next
    case False
    then show ?thesis
      using assms(9) by (intro stay) (auto simp: run ret_def at_def Get_contents)
  qed
qed

lemma redistribute_loop_live:
  assumes "raft_apply_ok L" and "entry_codec_ok L" and "raft_quiet L" and "raft_live L" and "locate_ok L" and "newCh \<noteq> []"
    and "calm L w" and "serving L newCh s w" and "distinct keys"
    and "processes w s = Some p" and "ch p = Some ms"
  shows "\<exists>w'. redistribute_keys_loop L s newCh keys w = (Return (), w') \<and>
    (\<forall>k \<in> set keys. moves L ms newCh (flag_shard (flags p)) k \<longrightarrow> at w' s k = None)"
  using assms(7-11)
proof (induction keys arbitrary: w p)
  case Nil
  then show ?case by (simp add: ret_def)
next
  case (Cons key keys)
  obtain w1 where w1: "redistribute_key L s newCh key w = (Return (), w1)" "keeps_leaders L w w1"
      "moves L ms newCh (flag_shard (flags p)) key \<longrightarrow> at w1 s key = None"
    using redistribute_key_live [OF assms(1-6) Cons.prems(1,2,4,5)] by blast
  have c1: "calm L w1" "key_step {key} w w1"
    using redistribute_key_safe [OF assms(2,3) Cons.prems(1) w1(1)] by blast+
  have "map_option shape (processes w1 s) = Some (shape p)" using c1(2) Cons.prems(4) by (simp add: key_step_def)
  then obtain q where q: "processes w1 s = Some q" "shape q = shape p" by (cases "processes w1 s") simp_all
  have f: "ch q = Some ms" "flag_shard (flags q) = flag_shard (flags p)"
    using q(2) Cons.prems(5) by (simp_all add: shape_def)
  have d: "distinct keys" "key \<notin> set keys" using Cons.prems(3) by simp_all
  obtain w' where w': "redistribute_keys_loop L s newCh keys w1 = (Return (), w')"
      "\<forall>k \<in> set keys. moves L ms newCh (flag_shard (flags p)) k \<longrightarrow> at w' s k = None"
    using Cons.IH [OF c1(1) serving_step [OF Cons.prems(2) c1(2) w1(2)] d(1) q(1) f(1)] f(2) by auto
  have "at w' s key = at w1 s key"
    using redistribute_loop_safe [OF assms(2,3) c1(1) d(1) w'(1)] d(2) by (simp add: key_step_def)
  then show ?case using w1 w' by (auto simp: bind_act_def)
qed

lemma leads_variables:
  "processes w s = Some p \<Longrightarrow> kvStore q = kvStore p \<Longrightarrow> leads L (set_process s q w) = leads L w"
  by (simp add: leads_def fun_eq_iff)

text \<open>The world the loop starts from: the flag is set and every new shard has a client.\<close>

lemma redistribution_starts:
  assumes "calm L w" and "processes w s = Some p" and "ch p = Some ms" and "ms \<noteq> []"
    and "\<And>t. \<exists>n. dial_ok L t n" and "rpc_fate w = (\<lambda>_. Served None)" and "leads L w s"
    and "\<And>m n. m \<in> shard_Name ` set shards \<Longrightarrow>
      \<exists>h. route w n (host_port m (flag_shardPort (flags p))) = Some h \<and> leads L w h"
  shows "\<exists>w1 cs. set_redistributing s True w = (Return (), w1) \<and>
    PopulateShardClients L s shards w1 = (Return (), set_process s (p\<lparr>redistributingKeys := True, shardClients := cs\<rparr>) w1) \<and>
    w1 = set_process s (p\<lparr>redistributingKeys := True\<rparr>) w \<and>
    calm L (set_process s (p\<lparr>redistributingKeys := True, shardClients := cs\<rparr>) w1) \<and>
    serving L (map shard_Name shards) s (set_process s (p\<lparr>redistributingKeys := True, shardClients := cs\<rparr>) w1)"
proof -
  let ?p1 = "p\<lparr>redistributingKeys := True\<rparr>"
  let ?w1 = "set_process s ?p1 w"
  let ?ds = "map (\<lambda>d. (shard_Name d, host_port (shard_Name d) (flag_shardPort (flags ?p1)))) shards"
  have flag: "set_redistributing s True w = (Return (), ?w1)"
    using assms(2) by (simp add: set_redistributing_def bind_act_def self_def become_def)
  note c1 = set_redistributing_effect(1) [OF assms(1) flag]
  obtain cs where cs: "populate_clients L ?ds (shardClients ?p1) = (Return (), cs)"
    using populate_clients_returns assms(5) by blast
  let ?p2 = "p\<lparr>redistributingKeys := True, shardClients := cs\<rparr>"
  let ?w2 = "set_process s ?p2 ?w1"
  have pop: "PopulateShardClients L s shards ?w1 = (Return (), ?w2)"
    unfolding PopulateShardClients_Return using cs by (intro exI [of _ ?p1] exI [of _ cs]) simp
  note c2 = PopulateShardClients_effect(1) [OF c1 pop]
  have leads: "leads L ?w2 = leads L w"
    using leads_variables [of w s p ?p1 L] leads_variables [of ?w1 s ?p1 ?p2 L] assms(2) by simp
  have clients: "\<exists>t. map_of cs m = Some t \<and> (\<forall>n. \<exists>h. route w n t = Some h \<and> leads L w h)"
    if "m \<in> shard_Name ` set shards" for m
  proof -
    have "fst ` set ?ds = shard_Name ` set shards" by (simp add: image_image)
    then have "m \<in> fst ` set cs" using populate_clients_complete [OF cs] that by blast
    then obtain t where t: "map_of cs m = Some t" using map_of_dom [of m cs] by auto
    have "clients_wf s ?p2" by (rule calm_process(2) [OF c2]) simp
    then have "t = host_port m (flag_shardPort (flags p))" using map_of_SomeD [OF t] by (auto simp: clients_wf_def)
    then show ?thesis using t assms(8) [OF that] by blast
  qed
  have "serving L (map shard_Name shards) s ?w2"
    using clients assms(3,4,6,7) by (simp add: serving_def leads)
  then show ?thesis using flag pop c2 by blast
qed

lemma no_pending_left:
  assumes "locate_ok L" and "range_ok L" and "calm L w" and "processes w s = Some q"
    and "ch q = Some ms" and "ms \<noteq> []" and "newCh \<noteq> []"
    and "\<And>k. moves L ms newCh (flag_shard (flags q)) k \<Longrightarrow> at w s k = None"
  shows "count_pending L q newCh (range_order L (KVStore_Keys (kvStore q))) 0 = Return 0"
proof (rule count_pending_none)
  fix k
  assume "k \<in> set (range_order L (KVStore_Keys (kvStore q)))"
  then have "k \<in> set (KVStore_Keys (kvStore q))"
    using assms(2) kv_shared_keys [OF calm_process(3) [OF assms(3,4)]] by (simp add: range_ok_def)
  then have "at w s k \<noteq> None"
    using assms(4) by (simp add: at_def contents_def KVStore_Keys_def map_of_eq_None_iff)
  then have "\<not> moves L ms newCh (flag_shard (flags q)) k" using assms(8) by auto
  then show "must_move L q newCh k = Return False"
    by (simp add: must_move_located [OF assms(1,5,6,7)])
qed

text \<open>The loop over all keys the process holds returns, and afterwards it holds none that moves.\<close>

lemma redistribute_loop_moves_all:
  assumes "raft_apply_ok L" and "entry_codec_ok L" and "raft_quiet L" and "raft_live L" and "locate_ok L" and "range_ok L"
    and "new \<noteq> []" and "calm L w" and "serving L new s w" and "processes w s = Some p" and "ch p = Some ms"
  shows "\<exists>w' q. redistribute_keys_loop L s new (range_order L (KVStore_Keys (kvStore p))) w = (Return (), w') \<and> calm L w' \<and>
    processes w' s = Some q \<and> shape q = shape p \<and> (\<forall>k. moves L ms new (flag_shard (flags p)) k \<longrightarrow> at w' s k = None)"
proof -
  let ?ks = "range_order L (KVStore_Keys (kvStore p))"
  have keys: "distinct ?ks" "set ?ks = set (KVStore_Keys (kvStore p))"
    using assms(6) kv_shared_keys [OF calm_process(3) [OF assms(8,10)]] by (simp_all add: range_ok_def)
  obtain w' where w': "redistribute_keys_loop L s new ?ks w = (Return (), w')"
      "\<forall>k \<in> set ?ks. moves L ms new (flag_shard (flags p)) k \<longrightarrow> at w' s k = None"
    using redistribute_loop_live [OF assms(1-5,7-9) keys(1) assms(10,11)] by blast
  have safe: "calm L w'" "key_step (set ?ks) w w'" using redistribute_loop_safe [OF assms(2,3,8) keys(1) w'(1)] by blast+
  have "map_option shape (processes w' s) = Some (shape p)" using safe(2) assms(10) by (simp add: key_step_def)
  then obtain q where q: "processes w' s = Some q" "shape q = shape p" by (cases "processes w' s") simp_all
  have "at w' s k = None" if "moves L ms new (flag_shard (flags p)) k" for k
  proof (cases "k \<in> set ?ks")
    case True
    then show ?thesis using w'(2) that by blast
  next
    case False
    then have "at w' s k = at w s k" using safe(2) by (simp add: key_step_def)
    then show ?thesis
      using False keys(2) assms(10) by (simp add: at_def contents_def KVStore_Keys_def map_of_eq_None_iff)
  qed
  with w'(1) safe(1) q show ?thesis by blast
qed

text \<open>C5: when no call is lost, the new shards' names resolve to their leaders, this replica leads its
  own shard and leaders commit what they are given, \<open>RedistributeKeys\<close> returns, releases its guard and
  leaves no key behind that must move: the pending count is 0.\<close>

theorem redistribution_completes:
  assumes "raft_apply_ok L" and "entry_codec_ok L" and "raft_quiet L" and "raft_live L" and "locate_ok L" and "range_ok L"
    and "\<And>t. \<exists>n. dial_ok L t n" and "calm L w" and "processes w s = Some p" and "\<not> redistributingKeys p"
    and "configFile p = Parsed c" and "config_NewShards c \<noteq> []" and "ring_ok L (map shard_Name (config_NewShards c))"
    and "ch p = Some ms" and "ms \<noteq> []" and "rpc_fate w = (\<lambda>_. Served None)" and "leads L w s"
    and "\<And>m n. m \<in> shard_Name ` set (config_NewShards c) \<Longrightarrow>
      \<exists>h. route w n (host_port m (flag_shardPort (flags p))) = Some h \<and> leads L w h"
  shows "\<exists>w' q. RedistributeKeys L s w = (Return (), w') \<and> processes w' s = Some q \<and> \<not> redistributingKeys q \<and>
    count_pending L q (map shard_Name (config_NewShards c)) (range_order L (KVStore_Keys (kvStore q))) 0 = Return 0"
proof -
  let ?new = "map shard_Name (config_NewShards c)" and ?ks = "range_order L (KVStore_Keys (kvStore p))"
  obtain w1 cs where w1: "set_redistributing s True w = (Return (), w1)"
      "w1 = set_process s (p\<lparr>redistributingKeys := True\<rparr>) w"
    and pop: "PopulateShardClients L s (config_NewShards c) w1 =
      (Return (), set_process s (p\<lparr>redistributingKeys := True, shardClients := cs\<rparr>) w1)"
    and c2: "calm L (set_process s (p\<lparr>redistributingKeys := True, shardClients := cs\<rparr>) w1)"
      "serving L ?new s (set_process s (p\<lparr>redistributingKeys := True, shardClients := cs\<rparr>) w1)"
    using redistribution_starts [OF assms(8,9,14,15,7,16,17,18)] by blast
  define p2 where "p2 = p\<lparr>redistributingKeys := True, shardClients := cs\<rparr>"
  define w2 where "w2 = set_process s p2 w1"
  have p2: "processes w2 s = Some p2" "ch p2 = Some ms" by (simp_all add: w2_def p2_def assms(14))
  note calm2 = c2(1) [folded p2_def, folded w2_def] and serv2 = c2(2) [folded p2_def, folded w2_def]
  have new: "?new \<noteq> []" using assms(12) by simp
  obtain w3 q where w3: "redistribute_keys_loop L s ?new ?ks w2 = (Return (), w3)" and c3: "calm L w3"
    and q: "processes w3 s = Some q" "shape q = shape p2"
    and gone: "\<forall>k. moves L ms ?new (flag_shard (flags p2)) k \<longrightarrow> at w3 s k = None"
    using redistribute_loop_moves_all [OF assms(1-6) new calm2 serv2 p2] by (auto simp: p2_def)
  define q' where "q' = q\<lparr>redistributingKeys := False\<rparr>"
  define w' where "w' = set_process s q' w3"
  have release: "set_redistributing s False w3 = (Return (), w')"
    using q(1) by (simp add: set_redistributing_def bind_act_def self_def become_def q'_def w'_def)
  have run: "RedistributeKeys L s w = (Return (), w')"
    using assms(9-13) w1(1) pop [folded p2_def, folded w2_def] w3 release
    by (simp add: RedistributeKeys_def redistribute_under_def bind_act_def self_def lift_outcome_def
        ReadConfig_def new_ring_def Let_def)
  have q': "processes w' s = Some q'" "ch q' = Some ms" "flag_shard (flags q') = flag_shard (flags p2)"
    using q(2) p2(2) by (simp_all add: w'_def q'_def shape_def)
  note c4 = set_redistributing_effect(1,2) [OF c3 release]
  have "at w' s k = None" if "moves L ms ?new (flag_shard (flags q')) k" for k
    using gone that c4(2) q'(3) by simp
  then have "count_pending L q' ?new (range_order L (KVStore_Keys (kvStore q'))) 0 = Return 0"
    by (rule no_pending_left [OF assms(5,6) c4(1) q'(1,2) assms(15) new])
  then show ?thesis using run q'(1) by (intro exI [of _ w'] exI [of _ q']) (simp add: q'_def)
qed

lemma demo_live [simp]: "raft_live demo_shard_lib"
  by (simp add: raft_live_def)

lemma demo_leads [simp]: "leads demo_shard_lib (demo_world m0 m1) ''r-0.s-0''" "leads demo_shard_lib (demo_world m0 m1) ''r-0.s-1''"
  by (simp_all add: leads_def is_leader_def demo_store_def)

theorem redistribution_completes_witness:
  "\<exists>w' q. RedistributeKeys demo_shard_lib ''r-0.s-0'' (demo_world [(''k'', ''v''), (''kk'', ''v'')] []) = (Return (), w') \<and>
     processes w' ''r-0.s-0'' = Some q \<and>
     count_pending demo_shard_lib q [''s-0'', ''s-1''] (KVStore_Keys (kvStore q)) 0 = Return 0"
proof -
  have c: "calm demo_shard_lib (demo_world [(''k'', ''v''), (''kk'', ''v'')] [])"
    by (rule demo_calm) (simp_all add: wf_map_def)
  have "\<exists>w' q. RedistributeKeys demo_shard_lib ''r-0.s-0'' (demo_world [(''k'', ''v''), (''kk'', ''v'')] []) = (Return (), w') \<and>
      processes w' ''r-0.s-0'' = Some q \<and> \<not> redistributingKeys q \<and>
      count_pending demo_shard_lib q (map shard_Name (config_NewShards demo_config))
        (range_order demo_shard_lib (KVStore_Keys (kvStore q))) 0 = Return 0"
    by (rule redistribution_completes [OF demo_shard_lib_ok(2,1) demo_quiet demo_live demo_shard_lib_ok(5,4) _ c
          demo_processes(1) _ demo_fields(12) _ _ demo_fields(13)])
      (auto simp: fun_eq_iff)
  then show ?thesis by auto
qed

section \<open>A write between sending and purging\<close>

text \<open>What a leader's writes do to the whole world.\<close>

lemma leader_Put:
  assumes "entry_codec_ok L" and "raft_quiet L" and "raft_live L" and "calm L w" and "leads L w h"
  shows "\<exists>w'. shard_Put L \<lparr>InternalPutRequest_Key = key, InternalPutRequest_Value = v, InternalPutRequest_IsRedistribution = b\<rparr> h w =
      (Return (Inr PutResponse), w') \<and> calm L w' \<and> keeps_leaders L w w' \<and> at w' = (at w)(h := (at w h)(key \<mapsto> v))"
proof -
  obtain p where p: "processes w h = Some p" using assms(5) by (auto simp: leads_def split: option.splits)
  note sh = calm_process(3,4) [OF assms(4) p]
  obtain k where k: "KVStore_Set L key v (kvStore p) = Return (None, k)" "is_leader L k"
    using Set_live [OF assms(1,3) sh(1) leads_process [OF assms(5) p]] by blast
  have q: "quiet_effect L ((contents (kvStore p))(key \<mapsto> v)) (kvStore p) (None, k)"
    using Set_effect [OF assms(1,2) sh, of key v] k(1) by auto
  have "at (set_process h (p\<lparr>kvStore := k\<rparr>) w) = (at w)(h := (at w h)(key \<mapsto> v))"
    using q p by (auto simp: at_def quiet_effect_def fun_eq_iff)
  moreover have "shard_Put L \<lparr>InternalPutRequest_Key = key, InternalPutRequest_Value = v, InternalPutRequest_IsRedistribution = b\<rparr> h w =
      (Return (Inr PutResponse), set_process h (p\<lparr>kvStore := k\<rparr>) w)"
    using p k(1) by (simp add: shard_Put_def bind_act_def self_def on_store_def become_def ret_def)
  ultimately show ?thesis using store_update(1) [OF assms(4) p q] keeps_leaders_set [OF k(2)] by blast
qed

lemma leader_purge:
  assumes "entry_codec_ok L" and "raft_quiet L" and "raft_live L" and "calm L w" and "leads L w s"
  shows "\<exists>w'. purge_key L s key w = (Return (), w') \<and> at w' = (at w)(s := (at w s)(key := None))"
proof -
  obtain p where p: "processes w s = Some p" using assms(5) by (auto simp: leads_def split: option.splits)
  note sh = calm_process(3,4) [OF assms(4) p]
  obtain k where k: "KVStore_Delete L key (kvStore p) = Return (None, k)" "is_leader L k"
    using Delete_live [OF assms(1,3) sh(1) leads_process [OF assms(5) p]] by blast
  have "quiet_effect L ((contents (kvStore p))(key := None)) (kvStore p) (None, k)"
    using Delete_effect [OF assms(1,2) sh, of key] k(1) by auto
  then have "at (set_process s (p\<lparr>kvStore := k\<rparr>) w) = (at w)(s := (at w s)(key := None))"
    using p by (auto simp: at_def quiet_effect_def fun_eq_iff)
  moreover have "purge_key L s key w = (Return (), set_process s (p\<lparr>kvStore := k\<rparr>) w)"
    using p k(1) by (simp add: purge_key_def bind_act_def self_def on_store_def become_def ret_def)
  ultimately show ?thesis by blast
qed

lemma send_reaches_leader:
  assumes "entry_codec_ok L" and "raft_quiet L" and "raft_live L" and "calm L w" and "serving L newCh s w"
    and "processes w s = Some p" and "loc \<in> set newCh" and "loc \<noteq> flag_shard (flags p)"
  shows "\<exists>w' h. send_key L s loc key v w = (Return (Inr PutResponse), w') \<and> calm L w' \<and> keeps_leaders L w w' \<and>
    h \<noteq> s \<and> at w' = (at w)(h := (at w h)(key \<mapsto> v))"
proof -
  obtain t h where t: "map_of (shardClients p) loc = Some t" "route w (clock w) t = Some h" "leads L w h"
    using assms(5-7) unfolding serving_def by fastforce
  obtain q where q: "processes w h = Some q" using t(3) by (auto simp: leads_def split: option.splits)
  have "flag_shard (flags q) = loc" by (rule shard_target [OF assms(4,6) t(1,2) q])
  then have "h \<noteq> s" using assms(6,8) q by auto
  let ?w = "w\<lparr>clock := Suc (clock w)\<rparr>"
  obtain w' where w': "shard_Put L (move_request key v) h ?w = (Return (Inr PutResponse), w')" "calm L w'"
    "keeps_leaders L ?w w'" "at w' = (at ?w)(h := (at ?w h)(key \<mapsto> v))"
    using leader_Put [OF assms(1-3), of ?w h] assms(4) t(3) by fastforce
  have "rpc_fate w (clock w) = Served None" using assms(5) by (simp add: serving_def)
  then have "send_key L s loc key v w = (Return (Inr PutResponse), w')"
    using assms(6) t q w'(1)
    by (simp add: send_key_def bind_act_def self_def client_call_def rpc_def Let_def status_result_def)
  then show ?thesis using w' \<open>h \<noteq> s\<close> by (auto simp: keeps_leaders_def)
qed

lemma redistribute_key_sends:
  assumes "processes w s = Some p" and "ch p = Some ms" and "moves L ms newCh (flag_shard (flags p)) key"
    and "LocateKey L newCh key = Some loc" and "at w s key = Some v"
  shows "redistribute_key L s newCh key w =
    bind_act (send_key L s loc key v) (\<lambda>res. case res of Inl e \<Rightarrow> ret () | Inr _ \<Rightarrow> purge_key L s key) w"
proof -
  have "KVStore_Get key (kvStore p) = Inr v" using assms(1,5) by (simp add: at_def Get_contents)
  then show ?thesis
    using assms(1-4) by (auto simp: redistribute_key_def bind_act_def self_def lift_outcome_def locate_def moves_def)
qed


lemma demo_serving:
  "serving demo_shard_lib [''s-0'', ''s-1''] ''r-0.s-0'' (demo_world m0 m1)"
  by (simp add: serving_def fun_eq_iff)


end
