(* ===== verification/Operator_Shards.thy ===== *)
theory Operator_Shards
  imports Kvctl_Faults Redistribution_Complete
begin

text \<open>
  Where the operator meets the shard processes: the calls of \<open>RedistributeKeys\<close> and the counts that
  answer them, the ports a process serves, and what a process makes of the configuration the operator
  writes.  The lemmas here carry the properties of \<open>Spec2Isabelle\<close> that span both.
\<close>

section \<open>Asking the shards\<close>

text \<open>The address the operator dials for a shard, and the process its call reaches: some replica of the
  shard, which passes it on to the replica it takes for the leader.\<close>

definition shard_target :: "StatefulSet \<Rightarrow> string" where
  "shard_target shard = host_port (ss_ServiceName shard @ ''.'' @ meta_Namespace (ss_Meta shard)) 8081"

definition leader_asked :: "('b, 'r, 'z) shard_lib_scheme \<Rightarrow> StatefulSet \<Rightarrow> 'r world \<Rightarrow> 'r process option" where
  "leader_asked L shard w =
     (case route w (clock w) (shard_target shard) of None \<Rightarrow> None | Some host \<Rightarrow>
     (case processes w host of None \<Rightarrow> None | Some q \<Rightarrow>
     (case KVStore_Leader L (kvStore q) of Return leader \<Rightarrow>
        (case map_of (replicaClients q) leader of None \<Rightarrow> None | Some target \<Rightarrow>
        (case route w (Suc (clock w)) target of None \<Rightarrow> None | Some h \<Rightarrow> processes w h))
      | _ \<Rightarrow> None)))"

text \<open>The keys that leader has to move when the shard is asked in system \<open>c\<close>, under the configuration it reads.\<close>

definition pending_at :: "('b, 'r, 'z) kvctl_lib_scheme \<Rightarrow> StatefulSet \<Rightarrow> 'r system \<Rightarrow> string set option" where
  "pending_at K shard c =
     (case leader_asked K shard (shard_world c) of
        None \<Rightarrow> None
      | Some p \<Rightarrow> (case configFile p of Parsed cfg \<Rightarrow> Some (pending_of K p cfg) | _ \<Rightarrow> None))"

text \<open>The call with which the operator asks a shard.  Asked one after the other, each shard is asked in the system
  the calls before have left: \<open>polls\<close> are these systems, \<open>polled\<close> is the one after the last call.\<close>

abbreviation ask :: "('b, 'r, 'z) kvctl_lib_scheme \<Rightarrow> StatefulSet \<Rightarrow> ('r, RedistributeKeysResponse) ctl" where
  "ask K shard \<equiv> call_shard K shard (shard_RedistributeKeys K RedistributeKeysRequest)"

fun polls :: "('b, 'r, 'z) kvctl_lib_scheme \<Rightarrow> StatefulSet list \<Rightarrow> 'r system \<Rightarrow> 'r system list" where
  "polls K [] c = []"
| "polls K (shard # shards) c = c # polls K shards (snd (ask K shard c))"

definition polled :: "('b, 'r, 'z) kvctl_lib_scheme \<Rightarrow> StatefulSet list \<Rightarrow> 'r system \<Rightarrow> 'r system" where
  "polled K shards = fold (\<lambda>shard c. snd (ask K shard c)) shards"

text \<open>Asked in \<open>c\<close>, the shard answers, with the number of the keys \<open>P\<close> that its leader then has to move, cut to
  32 bits.\<close>

definition answers :: "('b, 'r, 'z) kvctl_lib_scheme \<Rightarrow> StatefulSet \<times> 'r system \<Rightarrow> string set \<Rightarrow> bool" where
  "answers K = (\<lambda>(shard, c) P.
     pending_at K shard c = Some P \<and>
     (\<exists>r. fst (ask K shard c) = Return (Inr r) \<and> RedistributeKeysResponse_PendingKeys r = of_nat (card P)))"

lemma polls_length [simp]: "length (polls K shards c) = length shards"
  by (induction shards arbitrary: c) simp_all

lemma call_shard_Inr:
  assumes "call_shard K shard handler c = (Return (Inr x), c')"
  shows "\<exists>host. route (shard_world c) (clock (shard_world c)) (shard_target shard) = Some host \<and>
    handler host ((shard_world c)\<lparr>clock := Suc (clock (shard_world c))\<rparr>) = (Return (Inr x), shard_world c')"
proof -
  have "on_world (rpc (shard_target shard) handler) c = (Return (Inr x), c')"
    using assms
    by (auto simp: call_shard_def GetShardClient_def shard_target_def Let_def act_simps split: option.splits)
  then have "rpc (shard_target shard) handler (shard_world c) = (Return (Inr x), shard_world c')"
    by (auto simp: on_world_def split: prod.splits)
  then show ?thesis by (rule rpc_Inr)
qed

lemma call_shard_keeps:
  assumes "call_shard K shard handler c = (x, c')" and "\<And>h. keeps_all P (handler h)" and "all_procs P (shard_world c)"
  shows "api_store c' = api_store c" and "all_procs P (shard_world c')"
proof -
  have "all_procs P w" if "rpc t handler (shard_world c) = (y, w)" for t y w
    by (rule keeps_allD [OF keeps_rpc [OF assms(2)] assms(3) that])
  then show "all_procs P (shard_world c')"
    using assms(1,3)
    by (auto simp: call_shard_def GetShardClient_def Let_def bind_act_def on_world_def ret_def diverge_def
        split: option.splits prod.splits)
  show "api_store c' = api_store c"
    using assms(1)
    by (auto simp: call_shard_def GetShardClient_def Let_def bind_act_def on_world_def ret_def diverge_def
        split: option.splits prod.splits)
qed

text \<open>An answer to the operator is the count of the process that leads the shard asked.\<close>

lemma shard_count:
  assumes "range_ok K" and "all_procs store_shared (shard_world c)" and call: "ask K shard c = (Return (Inr r), c')"
  shows "\<exists>P. answers K (shard, c) P \<and> RedistributeKeysResponse_PendingKeys r = of_nat (card P)"
proof -
  let ?w = "shard_world c" and ?req = RedistributeKeysRequest
  let ?w1 = "?w\<lparr>clock := Suc (clock ?w)\<rparr>"
  let ?w2 = "?w1\<lparr>clock := Suc (clock ?w1)\<rparr>"
  obtain host where host: "route ?w (clock ?w) (shard_target shard) = Some host"
    "shard_RedistributeKeys K ?req host ?w1 = (Return (Inr r), shard_world c')"
    using call_shard_Inr [OF call] by blast
  then obtain q leader where q: "processes ?w host = Some q" "KVStore_Leader K (kvStore q) = Return leader"
    "client_call (replicaClients q) leader (replica_RedistributeKeys K ?req) ?w1 = (Return (Inr r), shard_world c')"
    by (auto simp: shard_RedistributeKeys_def forward_to_leader_def act_simps split: if_splits)
  then obtain target h where h: "map_of (replicaClients q) leader = Some target" "route ?w (Suc (clock ?w)) target = Some h"
    "replica_RedistributeKeys K ?req h ?w2 = (Return (Inr r), shard_world c')"
    using client_call_Inr [OF q(3)] by auto
  then obtain p where p: "processes ?w2 h = Some p" by (auto simp: replica_RedistributeKeys_def act_simps)
  then have shared: "kv_shared (kvStore p)" using all_procsD [OF assms(2), of h p] by (simp add: store_shared_def)
  obtain cfg where cfg: "configFile p = Parsed cfg" "RedistributeKeysResponse_PendingKeys r = of_nat (card (pending_of K p cfg))"
    using replica_count [OF assms(1) p shared h(3)] by blast
  have "pending_at K shard c = Some (pending_of K p cfg)"
    using host(1) q(1,2) h(1,2) p cfg(1) by (simp add: pending_at_def leader_asked_def)
  then show ?thesis using call cfg(2) by (auto simp: answers_def)
qed

section \<open>Leaving the redistribution phase\<close>

lemma status_update_phase:
  assumes "kube_ok K" and "status_update K kv c = (x, c')" and "api_store c = Some k" and "api_store c' = Some k'"
  shows "k' = k \<or> store_Status k' = store_Status kv"
  using assms by (auto simp: kube_calls api_call_alt Let_def split: option.splits)

lemma status_update_world: "kube_ok K \<Longrightarrow> status_update K kv c = (x, c') \<Longrightarrow> shard_world c' = shard_world c"
  by (auto simp: kube_calls api_call_alt Let_def split: option.splits)

lemma transition_world: "kube_ok K \<Longrightarrow> transition K ph msg kv c = (x, c') \<Longrightarrow> shard_world c' = shard_world c"
  by (auto simp: transition_def bind_act_def read_now_def dest: status_update_world)

definition count_of :: "string set \<Rightarrow> int" where
  "count_of P = sint (of_nat (card P) :: 32 word)"

lemma redistribute_loop_counts:
  assumes "range_ok K" and kube: "kube_ok K" and "kv_phase kv \<noteq> PhaseFinalizingScale"
  shows "redistribute_loop K kv shards n c = (x, c') \<Longrightarrow> all_procs store_shared (shard_world c) \<Longrightarrow>
    api_store c = Some k \<Longrightarrow> kv_phase k \<noteq> PhaseFinalizingScale \<Longrightarrow>
    api_store c' = Some k' \<Longrightarrow> kv_phase k' = PhaseFinalizingScale \<Longrightarrow>
    \<exists>Ps. list_all2 (answers K) (zip shards (polls K shards c)) Ps \<and> n + sum_list (map count_of Ps) = 0 \<and>
      shard_world c' = shard_world (polled K shards c)"
proof (induction shards arbitrary: n c)
  case Nil
  then have "n = 0"
    using assms(3) status_update_phase [OF kube, of "with_message (pending_message n) kv" c x c' k k']
    by (auto simp: with_message_def split: if_splits)
  then show ?case using Nil(1) transition_world [OF kube] by (auto simp: polled_def)
next
  case (Cons shard shards)
  obtain o1 c1 where call: "ask K shard c = (o1, c1)" by fastforce
  note keep = call_shard_keeps [OF call shared.keeps_shard_RedistributeKeys Cons.prems(2)]
  obtain r where r: "o1 = Return (Inr r)"
  proof (cases o1)
    case (Return res)
    show ?thesis
    proof (cases res)
      case (Inl e)
      let ?kv = "with_message (''Failed to initiate key redistribution: '' @ Error e) kv"
      have "c' = snd (status_update K ?kv c1)"
        using Cons.prems(1) call Return Inl by (auto simp: bind_act_def ret_def split: prod.splits outcome.splits)
      then have "k' = k \<or> store_Status k' = store_Status ?kv"
        using status_update_phase [OF kube, of ?kv c1 "fst (status_update K ?kv c1)" c' k k'] keep(1) Cons.prems(3,5) by simp
      then show ?thesis using Cons.prems(4,6) assms(3) by (auto simp: with_message_def)
    qed (use that Return in simp)
  qed (use Cons.prems call keep in \<open>auto simp: bind_act_def\<close>)
  obtain P where P: "answers K (shard, c) P" "sint (RedistributeKeysResponse_PendingKeys r) = count_of P"
    using shard_count [OF assms(1) Cons.prems(2) call [unfolded r]] unfolding count_of_def by metis
  have "redistribute_loop K kv shards (n + count_of P) c1 = (x, c')"
    using Cons.prems(1) call r P(2) by (simp add: bind_act_def)
  then obtain Ps where "list_all2 (answers K) (zip shards (polls K shards c1)) Ps" "n + count_of P + sum_list (map count_of Ps) = 0"
    "shard_world c' = shard_world (polled K shards c1)"
    using Cons.IH keep Cons.prems(3-6) by metis
  then show ?case using P(1) call by (intro exI [of _ "P # Ps"]) (simp add: polled_def)
qed

lemma small_count: "card P < 2 ^ 31 \<Longrightarrow> count_of P = int (card P)"
  by (simp add: count_of_def signed_of_nat signed_take_bit_int_eq_self)

lemma small_counts_zero:
  assumes "sum_list (map count_of Ps) = 0" and "\<forall>P \<in> set Ps. card P < 2 ^ 31 \<and> finite P"
  shows "\<forall>P \<in> set Ps. P = {}"
proof -
  have "map count_of Ps = map (\<lambda>P. int (card P)) Ps" using assms(2) by (simp add: small_count)
  then have "\<forall>x \<in> set (map (\<lambda>P. int (card P)) Ps). x = 0"
    using assms(1) sum_list_nonneg_eq_0_iff by (metis (no_types, lifting) ex_map_conv of_nat_0_le_iff)
  then show ?thesis using assms(2) by simp
qed

lemma answers_finite: "answers K sc P \<Longrightarrow> finite P"
  by (auto simp: answers_def pending_at_def pending_of_def split: prod.splits option.splits config_source.splits)

lemma api_call_cases:
  "api_call f c = (case api_fault c (api_clock c) of Some e \<Rightarrow> (Return (Inl e), ticks 1 c) | None \<Rightarrow> map_prod Return id (f (ticks 1 c)))"
  by (simp add: api_call_alt ticks_def Let_def split: option.splits prod.splits)

lemma fix_replicas_result:
  "kube_ok K \<Longrightarrow> fix_replicas K kv shards c = (x, c') \<Longrightarrow> api_store c' = api_store c \<and> (x = Return (Inr None) \<longrightarrow> c' = c)"
proof (induction shards)
  case (Cons shard shards)
  then show ?case
    by (auto simp: Let_def bind_ok_def bind_act_def ret_def kube_calls api_call_cases store_result_def
        split: if_splits option.splits sum.splits prod.splits outcome.splits)
qed (simp add: ret_def)

lemma bind_ok_ret_state: "bind_ok m (\<lambda>_. ret (Inr y)) c = (x, c') \<Longrightarrow> \<exists>z. m c = (z, c')"
  by (auto simp: bind_ok_def bind_act_def ret_def split: prod.splits outcome.splits sum.splits)

text \<open>A reconciliation that ends with another resource stored has got as far as the phase's own step.\<close>

lemma Reconcile_reaches_phase:
  assumes kube: "kube_ok K" and "Reconcile K c = (x, c')" and "api_store c = Some kv" and "kv_phase kv \<noteq> PhaseNormal" and "api_store c' \<noteq> Some kv"
  shows "phase_switch K kv (ticks 2 c) = (x, c')"
proof -
  have "\<exists>g. get_store K c = (Return g, ticks 1 c) \<and> (\<forall>k. g = Inr k \<longrightarrow> k = kv)"
    using assms(3) by (cases "api_fault c (api_clock c)") (auto simp: kube_calls [OF kube] api_call_cases)
  then obtain g where g: "get_store K c = (Return g, ticks 1 c)" and kv: "\<And>k. g = Inr k \<Longrightarrow> k = kv" by blast
  have "g = Inr kv"
    using assms(2,3,5) g kv by (cases g) (auto simp: Reconcile_def bind_act_def ret_def)
  moreover obtain l where l: "list_sets K (kv_ns kv) (kv_name kv) (ticks 1 c) = (Return l, ticks 2 c)"
    by (cases "api_fault (ticks 1 c) (api_clock (ticks 1 c))") (auto simp: kube_calls [OF kube] api_call_cases numeral_2_eq_2)
  moreover obtain shards where shards: "l = Inr shards"
    using assms(2,3,5) g l calculation(1) by (cases l) (auto simp: Reconcile_def bind_act_def bind_ok_def ret_def)
  moreover obtain y c2 where fx: "fix_replicas K kv shards (ticks 2 c) = (y, c2)" by fastforce
  moreover have "y = Return (Inr None)"
    using assms(2,3,5) g calculation fix_replicas_result [OF kube fx]
    by (auto simp: Reconcile_def bind_act_def bind_ok_def ret_def split: outcome.splits sum.splits option.splits)
  ultimately show ?thesis
    using assms(2,4) g fix_replicas_result [OF kube fx] by (simp add: Reconcile_def bind_run bind_ok_run)
qed

lemma finalizing_polled:
  assumes "range_ok K" and kube: "kube_ok K" and "all_procs store_shared (shard_world c)" and "api_store c = Some kv"
    and "kv_phase kv = PhaseRedistributingKeys" and "api_fault c (api_clock c + 2) = None"
    and "Reconcile K c = (x, c')" and "api_store c' = Some kv'" and "kv_phase kv' = PhaseFinalizingScale"
  shows "\<exists>Ps. list_all2 (answers K) (zip (owned_sets K kv c) (polls K (owned_sets K kv c) (ticks 3 c))) Ps \<and>
    sum_list (map count_of Ps) = 0 \<and> shard_world c' = shard_world (polled K (owned_sets K kv c) (ticks 3 c))"
proof -
  have "phase_switch K kv (ticks 2 c) = (x, c')"
    by (rule Reconcile_reaches_phase [OF kube assms(7,4)]) (use assms(5,8,9) in auto)
  then obtain z where "ctl_RedistributeKeys K kv (ticks 2 c) = (z, c')"
    using assms(5) by (auto simp: phase_switch_def dest: bind_ok_ret_state)
  moreover have "GetShards K kv (ticks 2 c) = (Return (owned_sets K kv c), ticks 3 c)"
    using assms(6) by (simp add: GetShards_def kube_calls [OF kube] bind_act_def api_call_cases ticks_def or_empty_def ret_def)
  ultimately have "redistribute_loop K kv (owned_sets K kv c) 0 (ticks 3 c) = (z, c')"
    by (simp add: ctl_RedistributeKeys_def bind_run)
  then show ?thesis
    using redistribute_loop_counts [OF assms(1) kube, of kv "owned_sets K kv c" 0 "ticks 3 c" z c' kv kv'] assms(3-5,8,9) by simp
qed

section \<open>Ports\<close>

definition flags_at :: "string \<Rightarrow> flags \<Rightarrow> string \<Rightarrow> 'r process \<Rightarrow> bool" where
  "flags_at s fl h p \<longleftrightarrow> (h = s \<longrightarrow> flags p = fl)"

interpretation fixed: process_invariant L "flags_at s fl" for L s fl
  by unfold_locales (auto simp: flags_at_def)

lemma goroutine_start:
  assumes "goroutine (bind_act (self s) (\<lambda>p. start_server L s (port (flags p)) svc)) w = (Return (), w')"
  shows "\<exists>p. processes w s = Some p \<and> w' = set_process s (p\<lparr>servers := servers p @ [(host_port [] (port (flags p)), svc)]\<rparr>) w"
  using assms
  by (cases "processes w s")
    (auto simp: goroutine_def start_server_def bind_act_def self_def Let_def panic_def become_def split: option.splits)

lemmas server_starts =
  goroutine_start [of s L flag_shardPort ShardRPC, folded StartShardRPCServer_def]
  goroutine_start [of s L flag_replicaPort ReplicaRPC, folded StartReplicaRPCServer_def]
  goroutine_start [of s L flag_kvPort KV, folded StartKVRPCServer_def] for s L

lemma main_start_serves:
  assumes "main_start L s fl cfg b w = (Return (), w')"
  shows "\<exists>p. processes w' s = Some p \<and> flags p = fl \<and>
    {(host_port [] (flag_shardPort fl), ShardRPC), (host_port [] (flag_replicaPort fl), ReplicaRPC),
     (host_port [] (flag_kvPort fl), KV)} \<subseteq> set (servers p)"
proof -
  obtain p0 where p0: "main_open L fl cfg b = Return p0" using assms by (auto simp: main_start_def act_simps)
  have fl0: "flags p0 = fl"
    using p0 by (cases cfg) (auto simp: main_open_def new_ring_def Let_def split: if_splits sum.splits)
  obtain w3 where w3: "all_procs (flags_at s fl) w3"
    and rest: "bind_act (goroutine (StartShardRPCServer L s)) (\<lambda>_. bind_act (goroutine (StartReplicaRPCServer L s)) (\<lambda>_.
      goroutine (StartKVRPCServer L s))) w3 = (Return (), w')"
  proof -
    obtain kvConfig w1 w2 where 1: "goroutine (PopulateShardClients L s (config_Shards kvConfig @ config_NewShards kvConfig))
        (set_process s p0 w) = (Return (), w1)" and 2: "goroutine (PopulateReplicaClients L s kvConfig) w1 = (Return (), w2)"
      and r: "bind_act (goroutine (StartShardRPCServer L s)) (\<lambda>_. bind_act (goroutine (StartReplicaRPCServer L s)) (\<lambda>_.
        goroutine (StartKVRPCServer L s))) w2 = (Return (), w')"
      using assms p0 by (auto simp: main_start_def bind_act_Return lift_Return become_Return)
    have "all_procs (flags_at s fl) (set_process s p0 w)" using fl0 by (auto simp: all_procs_def flags_at_def)
    then have "all_procs (flags_at s fl) w2"
      using keeps_allD [OF fixed.keeps_goroutine [OF fixed.keeps_PopulateShardClients] _ 1]
        keeps_allD [OF fixed.keeps_goroutine [OF fixed.keeps_PopulateReplicaClients] _ 2] by blast
    then show ?thesis using r that by blast
  qed
  then obtain w4 w5 where 4: "goroutine (StartShardRPCServer L s) w3 = (Return (), w4)"
    and 5: "goroutine (StartReplicaRPCServer L s) w4 = (Return (), w5)" and 6: "goroutine (StartKVRPCServer L s) w5 = (Return (), w')"
    by (auto simp: bind_act_Return)
  obtain p where p: "processes w3 s = Some p" "w4 = set_process s (p\<lparr>servers := servers p @ [(host_port [] (flag_shardPort (flags p)), ShardRPC)]\<rparr>) w3"
    using server_starts(1) [OF 4] by blast
  have "flags p = fl" using all_procsD [OF w3 p(1)] by (simp add: flags_at_def)
  then show ?thesis using server_starts(2) [OF 5] server_starts(3) [OF 6] p(2) by auto
qed

section \<open>The configuration of a finished scaling\<close>

lemma build_config_resuming:
  "build_config (resuming kv t) =
   \<lparr>config_Shards = map (config_shard kv) [0..kv_target kv - 1], config_NewShards = []\<rparr>"
proof -
  have "config_shard (resuming kv t) = config_shard kv" by (simp add: config_shard_def fun_eq_iff)
  then show ?thesis by (simp add: build_config_def Let_def)
qed

lemma config_shard_names: "map shard_Name (map (config_shard kv) is) = map (shard_name (kv_name kv)) is"
  by (simp add: config_shard_def)

lemma ReloadConfig_run:
  assumes "processes w s = Some p" and "configFile p = Parsed \<lparr>config_Shards = shards, config_NewShards = []\<rparr>"
    and "ring_ok L (map shard_Name shards)"
    and "\<forall>d \<in> set shards. \<exists>n. dial_ok L (host_port (shard_Name d) (flag_shardPort (flags p))) n"
  shows "\<exists>cs. ReloadConfig L s w = (Return True, set_process s (p\<lparr>ch := Some (map shard_Name shards), shardClients := cs\<rparr>) w) \<and>
    shard_Name ` set shards \<subseteq> fst ` set cs"
proof -
  let ?ds = "map (\<lambda>d. (shard_Name d, host_port (shard_Name d) (flag_shardPort (flags p)))) shards"
  obtain cs where cs: "populate_clients L ?ds (shardClients p) = (Return (), cs)"
    using populate_clients_returns [of ?ds L] assms(4) by auto
  have "ReloadConfig L s w = (Return True, set_process s (p\<lparr>ch := Some (map shard_Name shards), shardClients := cs\<rparr>) w)"
    using assms(1-3) cs
    by (simp add: ReloadConfig_def PopulateShardClients_def bind_act_def self_def lift_outcome_def ReadConfig_def new_ring_def
        become_def ret_def set_process_def)
  moreover have "shard_Name ` set shards \<subseteq> fst ` set cs"
    using populate_clients_complete [OF cs] by (auto simp: image_image)
  ultimately show ?thesis by blast
qed

lemma reload_resumed:
  assumes "all_procs clients_wf w" and "processes w s = Some p" and "flag_shardPort (flags p) = 8081"
    and "configFile p = Parsed (build_config (resuming kv t))"
    and "ring_ok L (map (shard_name (kv_name kv)) [0..kv_target kv - 1])"
    and "\<forall>i. \<exists>n. dial_ok L (host_port (shard_name (kv_name kv) i) 8081) n"
  shows "\<exists>w' q. ReloadConfig L s w = (Return True, w') \<and> processes w' s = Some q \<and>
    ch q = Some (map (shard_name (kv_name kv)) [0..kv_target kv - 1]) \<and>
    (\<forall>i \<in> {0..<kv_target kv}. map_of (shardClients q) (shard_name (kv_name kv) i) =
       Some (host_port (shard_name (kv_name kv) i) 8081))"
proof -
  let ?shards = "map (config_shard kv) [0..kv_target kv - 1]"
  let ?p = "\<lambda>cs. p\<lparr>ch := Some (map shard_Name ?shards), shardClients := cs\<rparr>"
  have names: "shard_Name ` set ?shards = shard_name (kv_name kv) ` {0..<kv_target kv}"
    by (auto simp: config_shard_def image_image)
  have "\<forall>d \<in> set ?shards. \<exists>n. dial_ok L (host_port (shard_Name d) (flag_shardPort (flags p))) n"
    using assms(3,6) by (auto simp: config_shard_def)
  then obtain cs where run: "ReloadConfig L s w = (Return True, set_process s (?p cs) w)"
    and cs: "shard_Name ` set ?shards \<subseteq> fst ` set cs"
    using ReloadConfig_run [OF assms(2), of ?shards L] assms(4,5) unfolding build_config_resuming config_shard_names by blast
  have wf: "clients_wf s (?p cs)"
    using keeps_allD [OF clients.keeps_ReloadConfig assms(1) run] by (auto simp: all_procs_def)
  have "map_of cs (shard_name (kv_name kv) i) = Some (host_port (shard_name (kv_name kv) i) 8081)" if i: "i \<in> {0..<kv_target kv}" for i
  proof -
    have "shard_name (kv_name kv) i \<in> fst ` set cs" using cs i unfolding names by blast
    then obtain a where a: "map_of cs (shard_name (kv_name kv) i) = Some a" using map_of_dom by fastforce
    then show ?thesis using map_of_SomeD [OF a] wf assms(3) by (auto simp: clients_wf_def)
  qed
  then show ?thesis
    using run by (intro exI [of _ "set_process s (?p cs) w"] exI [of _ "?p cs"]) (simp add: config_shard_names del: map_map)
qed

section \<open>A concrete run\<close>

definition demo_routed :: "demo_node world" where
  "demo_routed = (demo_world [(''kk'', ''v'')] [])\<lparr>route :=
     (\<lambda>n t. if t = host_port ''s-shard-0.default'' 8081 then Some ''r-0.s-0'' else demo_route n t)\<rparr>"

lemma demo_routed_simps [simp]:
  "processes demo_routed ''r-0.s-0'' = Some (demo_process ''s-0'' [(''kk'', ''v'')])"
  "route demo_routed n t = (if t = host_port ''s-shard-0.default'' 8081 then Some ''r-0.s-0'' else demo_route n t)"
  "rpc_fate demo_routed n = Served None" "clock demo_routed = 0"
  "all_procs store_shared demo_routed"
  using demo_shared [of "[(''kk'', ''v'')]" "[]"]
  by (simp_all add: demo_routed_def all_procs_def wf_map_def)

lemma demo_operator_leader [simp]:
  "KVStore_Leader demo_kvctl_lib (demo_store sh m) = Return (replica_id ''r-0'' sh 8082)"
  by (simp add: KVStore_Leader_def demo_store_def)

lemma demo_count:
  "\<exists>w'. rpc (host_port ''s-shard-0.default'' 8081) (shard_RedistributeKeys demo_kvctl_lib RedistributeKeysRequest) demo_routed =
     (Return (Inr \<lparr>RedistributeKeysResponse_PendingKeys = 0\<rparr>), w')"
  by (simp add: demo_eval shard_RedistributeKeys_def forward_to_leader_def replica_RedistributeKeys_def
      ReadConfig_def new_ring_def must_move_def)

lemma demo_finalizes:
  assumes "kv = demo_resource [] 2 (demo_status PhaseRedistributingKeys 1 2)"
    and "c = (demo_system (\<lambda>_. None) (Some kv) [owned_set demo_kvctl_lib kv 0])\<lparr>shard_world := demo_routed\<rparr>"
  shows "\<exists>x c' kv'. Reconcile demo_kvctl_lib c = (x, c') \<and> api_store c' = Some kv' \<and> kv_phase kv' = PhaseFinalizingScale"
proof -
  have target: "host_port (ss_ServiceName (owned_set demo_kvctl_lib kv 0) @ ''.'' @ meta_Namespace (ss_Meta (owned_set demo_kvctl_lib kv 0))) 8081 =
      host_port ''s-shard-0.default'' 8081"
    by (simp add: assms(1) owned_set_def shard_set_def controlled_by_def shard_name_def render_simps)
  have calm: "no_faults c" "operator_ready demo_kvctl_lib c" using assms(2) by (simp_all add: no_faults_def operator_ready_def)
  have sets: "owned_sets demo_kvctl_lib kv c = [owned_set demo_kvctl_lib kv 0]"
    by (simp add: assms list_owned_def index_StatefulSet_def own_objects)
  have reps: "\<forall>s \<in> set (owned_sets demo_kvctl_lib kv c). ss_Replicas s = spec_Replicas (store_Spec kv)"
    by (simp add: sets) (simp add: owned_set_def shard_set_def)
  have stored: "api_store c = Some kv" "kv_phase kv = PhaseRedistributingKeys" using assms by simp_all
  obtain w' where w': "rpc (host_port ''s-shard-0.default'' 8081)
      (shard_RedistributeKeys demo_kvctl_lib RedistributeKeysRequest) demo_routed =
      (Return (Inr \<lparr>RedistributeKeysResponse_PendingKeys = 0\<rparr>), w')" using demo_count by blast
  let ?c = "(ticks 3 c)\<lparr>shard_world := w'\<rparr>"
  have call: "call_shard demo_kvctl_lib (owned_set demo_kvctl_lib kv 0) (shard_RedistributeKeys demo_kvctl_lib RedistributeKeysRequest) (ticks 3 c) =
      (Return (Inr \<lparr>RedistributeKeysResponse_PendingKeys = 0\<rparr>), ?c)"
    unfolding call_shard_def GetShardClient_def Let_def target using w' assms(2)
    by (simp add: bind_act_def ret_def on_world_def)
  have "transition demo_kvctl_lib PhaseFinalizingScale msg kv ?c = (Return (Inr ()), put_store (Some (enter_phase PhaseFinalizingScale msg (now c) kv)) (ticks 1 ?c))" for msg
    using transition_run [OF demo_kvctl_lib_simps(2), of ?c kv PhaseFinalizingScale msg kv] calm(1) stored(1)
    by (simp add: next_phase_stored no_faults_def ticks_def)
  moreover have "GetShards demo_kvctl_lib kv (ticks 2 c) = (Return [owned_set demo_kvctl_lib kv 0], ticks 3 c)"
    using lists_run(1) [OF demo_kvctl_lib_simps(2), of "ticks 2 c" kv] calm(1) sets by simp
  ultimately have "ctl_RedistributeKeys demo_kvctl_lib kv (ticks 2 c) =
    (Return (Inr ()), put_store (Some (enter_phase PhaseFinalizingScale ''Starting to finalize scaling operation'' (now c) kv)) (ticks 1 ?c))"
    using call by (simp add: ctl_RedistributeKeys_def bind_run)
  then have "Reconcile demo_kvctl_lib c =
    (Return (Inr (RequeueAfter 1)), put_store (Some (enter_phase PhaseFinalizingScale ''Starting to finalize scaling operation'' (now c) kv)) (ticks 1 ?c))"
    using Reconcile_in_phase [OF calm(2) stored(1) _ reps] stored(2) by (simp add: phase_switch_def bind_ok_run ret_def)
  then show ?thesis by simp
qed

end
