(* ===== verification/Scaling_Completes.thy ===== *)
theory Scaling_Completes
  imports Operator_Shards
begin

text \<open>
  A scaling operation ends.  The first part is a small calculus of total correctness for actions on a
  world of shard processes: \<open>gives I m Q\<close> says that \<open>m\<close>, started where the invariant \<open>I\<close> holds,
  returns a result that satisfies \<open>Q\<close> and keeps \<open>I\<close>.  The invariants are worlds that differ from a
  given one only in what a relation on processes allows.  With it the calls the operator makes in each
  phase are shown to be answered by healthy shards, and then a reconciliation in each phase to move on to
  the next.
\<close>

section \<open>Actions that return\<close>

definition gives :: "('s \<Rightarrow> bool) \<Rightarrow> ('s, 'a) prog \<Rightarrow> ('a \<Rightarrow> bool) \<Rightarrow> bool" where
  "gives I m Q \<longleftrightarrow> (\<forall>w. I w \<longrightarrow> (\<exists>x w'. m w = (Return x, w') \<and> Q x \<and> I w'))"

lemma givesD: "gives I m Q \<Longrightarrow> I w \<Longrightarrow> \<exists>x w'. m w = (Return x, w') \<and> Q x \<and> I w'"
  by (simp add: gives_def)

lemma gives_ret: "Q x \<Longrightarrow> gives I (ret x) Q"
  by (simp add: gives_def ret_def)

lemma gives_lift: "x = Return y \<Longrightarrow> Q y \<Longrightarrow> gives I (lift_outcome x) Q"
  by (simp add: gives_def lift_outcome_def)

lemma gives_lift_Return: "gives I (lift_outcome (Return y)) (\<lambda>x. x = y)"
  by (simp add: gives_lift)

lemma gives_bind: "gives I m Q \<Longrightarrow> (\<And>x. Q x \<Longrightarrow> gives I (f x) R) \<Longrightarrow> gives I (bind_act m f) R"
  unfolding gives_def by (metis bind_run)

lemma gives_weaken: "gives I m Q \<Longrightarrow> (\<And>x. Q x \<Longrightarrow> R x) \<Longrightarrow> gives I m R"
  unfolding gives_def by blast

section \<open>Worlds that stay alike\<close>

definition alike :: "('r process \<Rightarrow> 'r process \<Rightarrow> bool) \<Rightarrow> 'r world \<Rightarrow> 'r world \<Rightarrow> bool" where
  "alike R w0 w \<longleftrightarrow>
     route w = route w0 \<and> rpc_fate w = rpc_fate w0 \<and> (\<forall>h. rel_option R (processes w0 h) (processes w h))"

text \<open>A target that resolves, whatever the number of the call, to one of the processes \<open>H\<close>.\<close>

definition resolves :: "'r world \<Rightarrow> string \<Rightarrow> (string \<Rightarrow> bool) \<Rightarrow> bool" where
  "resolves w t H \<longleftrightarrow> (\<forall>n. \<exists>h. route w n t = Some h \<and> processes w h \<noteq> None \<and> H h)"

locale process_relation =
  fixes R :: "'r process \<Rightarrow> 'r process \<Rightarrow> bool"
  assumes keeps_self: "R p p"
begin

lemma alike_refl: "alike R w w"
  by (simp add: alike_def option.rel_refl keeps_self)

lemma alike_process: "alike R w0 w \<Longrightarrow> processes w0 h = Some p0 \<Longrightarrow> \<exists>p. processes w h = Some p \<and> R p0 p"
  unfolding alike_def by (metis option_rel_Some1)

lemma gives_self: "processes w0 h = Some p0 \<Longrightarrow> gives (alike R w0) (self h) (R p0)"
  unfolding gives_def using alike_process by (fastforce simp: self_def)

lemma gives_become: "processes w0 h = Some p0 \<Longrightarrow> R p0 q \<Longrightarrow> gives (alike R w0) (become h q) (\<lambda>_. True)"
  by (simp add: gives_def become_def alike_def)

lemma gives_store:
  assumes "processes w0 h = Some p0"
    and "\<And>p. R p0 p \<Longrightarrow> \<exists>x k. op (kvStore p) = Return (x, k) \<and> Q x \<and> R p0 (p\<lparr>kvStore := k\<rparr>)"
  shows "gives (alike R w0) (on_store h op) Q"
  unfolding gives_def
proof (intro allI impI)
  fix w
  assume w: "alike R w0 w"
  then obtain p where p: "processes w h = Some p" "R p0 p" using alike_process assms(1) by blast
  then obtain x k where k: "op (kvStore p) = Return (x, k)" "Q x" "R p0 (p\<lparr>kvStore := k\<rparr>)" using assms(2) by blast
  have "on_store h op w = (Return x, set_process h (p\<lparr>kvStore := k\<rparr>) w)" using p(1) k(1) by (simp add: on_store_Return)
  moreover have "alike R w0 (set_process h (p\<lparr>kvStore := k\<rparr>) w)" using w assms(1) k(3) by (simp add: alike_def)
  ultimately show "\<exists>x w'. on_store h op w = (Return x, w') \<and> Q x \<and> alike R w0 w'" using k(2) by blast
qed

lemma gives_rpc:
  assumes "rpc_fate w0 = (\<lambda>_. Served None)" and "resolves w0 t H"
    and "\<And>h p0. processes w0 h = Some p0 \<Longrightarrow> H h \<Longrightarrow> gives (alike R w0) (handler h) (\<lambda>r. \<exists>x. r = Inr x \<and> Q x)"
  shows "gives (alike R w0) (rpc t handler) (\<lambda>r. \<exists>x. r = Inr x \<and> Q x)"
  unfolding gives_def
proof (intro allI impI)
  fix w
  assume w: "alike R w0 w"
  let ?w = "w\<lparr>clock := Suc (clock w)\<rparr>"
  obtain h p0 where h: "route w (clock w) t = Some h" "processes w0 h = Some p0" "H h"
    using assms(2) w unfolding resolves_def alike_def by fastforce
  have "alike R w0 ?w" using w by (simp add: alike_def)
  then obtain x w' where x: "handler h ?w = (Return (Inr x), w')" "Q x" "alike R w0 w'"
    using assms(3) [OF h(2,3)] by (auto dest: givesD)
  moreover have "processes w h \<noteq> None" using alike_process [OF w h(2)] by auto
  ultimately have "rpc t handler w = (Return (Inr x), w')"
    using h(1) w assms(1) by (simp add: rpc_def Let_def alike_def status_result_def)
  then show "\<exists>r w'. rpc t handler w = (Return r, w') \<and> (\<exists>x. r = Inr x \<and> Q x) \<and> alike R w0 w'" using x by blast
qed

lemma gives_client_call:
  assumes "rpc_fate w0 = (\<lambda>_. Served None)" and "map_of clients key = Some t" and "resolves w0 t H"
    and "\<And>h p0. processes w0 h = Some p0 \<Longrightarrow> H h \<Longrightarrow> gives (alike R w0) (handler h) (\<lambda>r. \<exists>x. r = Inr x \<and> Q x)"
  shows "gives (alike R w0) (client_call clients key handler) (\<lambda>r. \<exists>x. r = Inr x \<and> Q x)"
  using gives_rpc [OF assms(1,3,4)] assms(2) by (simp add: client_call_def)

end

text \<open>What the calls of the operator leave alone in a process: its configuration, its clients, the leader it
  knows, and whether it leads.\<close>

definition like :: "('b, 'r, 'z) raft_lib_scheme \<Rightarrow> 'r process \<Rightarrow> 'r process \<Rightarrow> bool" where
  "like L p q \<longleftrightarrow>
     flags q = flags p \<and> configFile q = configFile p \<and> replicaClients q = replicaClients p \<and>
     KVStore_Leader L (kvStore q) = KVStore_Leader L (kvStore p) \<and>
     (is_leader L (kvStore p) \<longrightarrow> is_leader L (kvStore q)) \<and> (kv_shared (kvStore p) \<longrightarrow> kv_shared (kvStore q))"

definition only_spawned :: "'r process \<Rightarrow> 'r process \<Rightarrow> bool" where
  "only_spawned p q \<longleftrightarrow> q = p\<lparr>spawned := spawned q\<rparr>"

interpretation steady: process_relation "like L" for L
  by unfold_locales (simp add: like_def)

interpretation counting: process_relation only_spawned
  by unfold_locales (simp add: only_spawned_def)

section \<open>Healthy shards\<close>

text \<open>Documented: a leader with a quorum commits what it is given, and is still the leader it names
  afterwards.\<close>

definition raft_steady :: "('b, 'r, 'z) raft_lib_scheme \<Rightarrow> bool" where
  "raft_steady L \<longleftrightarrow> raft_live L \<and>
     (\<forall>r d. raft_State L r = Leader \<longrightarrow> raft_LeaderWithID L (snd (snd (raft_Apply L r d))) = raft_LeaderWithID L r)"

lemma SetWritesEnabled_live:
  assumes "entry_codec_ok L" and "raft_steady L" and "kv_shared k" and "is_leader L k"
  shows "\<exists>k'. SetWritesEnabled L b k = Return (None, k') \<and> is_leader L k' \<and> kv_shared k' \<and>
    KVStore_Leader L k' = KVStore_Leader L k"
proof (cases "writesEnabled (kp_kv k) = b")
  case True
  then show ?thesis using assms(3,4) by (simp add: SetWritesEnabled_def)
next
  case False
  obtain d where d: "marshal_entry L (command_entry (CToggle b)) = Inr d"
    using assms(2) unfolding raft_steady_def raft_live_def by blast
  obtain k' where k': "raft_apply_entry L d k = Return (None, k')" "is_leader L k'"
    using apply_live [OF assms(1) _ assms(3,4) d] assms(2) by (auto simp: raft_steady_def)
  have run: "SetWritesEnabled L b k = Return (None, k')" using False d k'(1) by (simp add: SetWritesEnabled_def)
  obtain r where r: "raft (kp_kv k) = Some r" "raft_State L r = Leader"
    using assms(4) by (auto simp: is_leader_def split: option.splits)
  have "raft (kp_kv k') = Some (snd (snd (raft_Apply L r d)))"
    using k'(1) r(1)
    by (cases "fsm_run L (fst (snd (raft_Apply L r d))) (kp_fsm k, kp_heap k)") (auto simp: raft_apply_entry_def split: prod.splits)
  then have "KVStore_Leader L k' = KVStore_Leader L k"
    using assms(2) r by (simp add: KVStore_Leader_def raft_steady_def)
  then show ?thesis using run k'(2) set_writes.op_keeps_shared [OF run assms(3)] by blast
qed

text \<open>A process that reads the configuration \<open>cfg\<close> and knows a leader it can call; every replica it has a
  client for is running.\<close>

definition answering :: "('b, 'r, 'z) shard_lib_scheme \<Rightarrow> KVStoreConfig \<Rightarrow> 'r world \<Rightarrow> 'r process \<Rightarrow> bool" where
  "answering L cfg w p \<longleftrightarrow>
     configFile p = Parsed cfg \<and> kv_shared (kvStore p) \<and> distinct (map fst (replicaClients p)) \<and>
     (\<forall>t \<in> snd ` set (replicaClients p). resolves w t (\<lambda>_. True)) \<and>
     (\<exists>leader t. KVStore_Leader L (kvStore p) = Return leader \<and> leader \<noteq> [] \<and>
        map_of (replicaClients p) leader = Some t \<and> resolves w t (leads L w))"

definition healthy :: "('b, 'r, 'z) shard_lib_scheme \<Rightarrow> KVStoreConfig \<Rightarrow> 'r world \<Rightarrow> bool" where
  "healthy L cfg w \<longleftrightarrow>
     rpc_fate w = (\<lambda>_. Served None) \<and> (\<forall>h p. processes w h = Some p \<longrightarrow> answering L cfg w p)"

lemma healthyD:
  assumes "healthy L cfg w" and "processes w h = Some p"
  shows "rpc_fate w = (\<lambda>_. Served None)" and "configFile p = Parsed cfg" and "kv_shared (kvStore p)"
    and "distinct (map fst (replicaClients p))" and "t \<in> snd ` set (replicaClients p) \<Longrightarrow> resolves w t (\<lambda>_. True)"
    and "\<exists>leader t. KVStore_Leader L (kvStore p) = Return leader \<and> leader \<noteq> [] \<and>
        map_of (replicaClients p) leader = Some t \<and> resolves w t (leads L w)"
proof -
  have a: "answering L cfg w p" and fate: "rpc_fate w = (\<lambda>_. Served None)" using assms by (simp_all add: healthy_def)
  then show "rpc_fate w = (\<lambda>_. Served None)" by blast
  show "configFile p = Parsed cfg" "kv_shared (kvStore p)" "distinct (map fst (replicaClients p))"
    "t \<in> snd ` set (replicaClients p) \<Longrightarrow> resolves w t (\<lambda>_. True)"
    "\<exists>leader t. KVStore_Leader L (kvStore p) = Return leader \<and> leader \<noteq> [] \<and>
        map_of (replicaClients p) leader = Some t \<and> resolves w t (leads L w)"
    using a unfolding answering_def by blast+
qed

lemma likeD:
  assumes "like L p q"
  shows "flags q = flags p" and "configFile q = configFile p" and "replicaClients q = replicaClients p"
    and "KVStore_Leader L (kvStore q) = KVStore_Leader L (kvStore p)"
    and "is_leader L (kvStore p) \<Longrightarrow> is_leader L (kvStore q)" and "kv_shared (kvStore p) \<Longrightarrow> kv_shared (kvStore q)"
  using assms by (simp_all add: like_def)

lemma healthy_config: "healthy L cfg w \<Longrightarrow> processes w h = Some p0 \<Longrightarrow> like L p0 p \<Longrightarrow> ReadConfig p = Return cfg"
  by (simp add: ReadConfig_def likeD(2) healthyD(2))

lemma SetWritesEnabled_gives:
  assumes "entry_codec_ok L" and "raft_steady L" and "healthy L cfg w" and "processes w h = Some p0" and "leads L w h"
  shows "gives (alike (like L) w) (on_store h (SetWritesEnabled L b)) (\<lambda>e. e = None)"
proof (rule steady.gives_store [OF assms(4)])
  fix p
  assume p: "like L p0 p"
  have "is_leader L (kvStore p)" "kv_shared (kvStore p)"
    using likeD(5,6) [OF p] healthyD(3) [OF assms(3,4)] leads_process [OF assms(5,4)] by blast+
  then obtain k where "SetWritesEnabled L b (kvStore p) = Return (None, k)" "is_leader L k" "kv_shared k"
      "KVStore_Leader L k = KVStore_Leader L (kvStore p)"
    using SetWritesEnabled_live [OF assms(1,2)] by blast
  then show "\<exists>x k. SetWritesEnabled L b (kvStore p) = Return (x, k) \<and> x = None \<and> like L p0 (p\<lparr>kvStore := k\<rparr>)"
    using p by (simp add: like_def)
qed

text \<open>A call that a process passes on to its leader.\<close>

context process_relation
begin

lemma gives_forward:
  assumes "\<And>p q. R p q \<Longrightarrow> like L p q" and "healthy L cfg w" and "processes w h = Some p0"
    and "\<And>h p0. processes w h = Some p0 \<Longrightarrow> leads L w h \<Longrightarrow> gives (alike R w) (handler h) (\<lambda>r. \<exists>x. r = Inr x \<and> Q x)"
  shows "gives (alike R w) (forward_to_leader L h handler) (\<lambda>r. \<exists>x. r = Inr x \<and> Q x)"
proof -
  obtain leader t where l: "KVStore_Leader L (kvStore p0) = Return leader" "leader \<noteq> []"
    "map_of (replicaClients p0) leader = Some t" "resolves w t (leads L w)"
    using healthyD(6) [OF assms(2,3)] by blast
  note call = gives_client_call [OF healthyD(1) [OF assms(2,3)] l(3,4) assms(4)]
  show ?thesis
    unfolding forward_to_leader_def
    by (rule gives_bind [OF gives_self [OF assms(3)]], rule gives_bind [OF gives_lift [where Q = "\<lambda>x. x = leader"]])
      (use l call likeD [OF assms(1)] in auto)
qed

end

lemma only_spawned_like: "only_spawned p q \<Longrightarrow> like L p q"
  by (cases q) (auto simp: only_spawned_def like_def)

section \<open>The three calls of the operator\<close>

text \<open>Pausing writes: the new configuration has arrived.\<close>

lemma PauseWrites_answered:
  assumes "entry_codec_ok L" and "raft_steady L" and "healthy L cfg w" and "config_NewShards cfg \<noteq> []" and "resolves w t (\<lambda>_. True)"
  shows "gives (alike (like L) w) (rpc t (shard_PauseWrites L req)) (\<lambda>r. \<exists>x. r = Inr x \<and> PauseWritesResponse_IsPaused x)"
proof -
  have fate: "rpc_fate w = (\<lambda>_. Served None)" using assms(3) by (simp add: healthy_def)
  have leader: "gives (alike (like L) w) (replica_PauseWrites L req h) (\<lambda>r. \<exists>x. r = Inr x \<and> PauseWritesResponse_IsPaused x)"
    if h: "processes w h = Some p0" "leads L w h" for h p0
    unfolding replica_PauseWrites_def
    by (rule gives_bind [OF steady.gives_self [OF h(1)]], rule gives_bind [OF gives_lift [where Q = "\<lambda>c. c = cfg"]])
      (use healthy_config [OF assms(3) h(1)] assms(4) in
        \<open>auto simp: reply_of_def intro!: gives_bind [OF SetWritesEnabled_gives [OF assms(1-3) h]] gives_ret\<close>)
  show ?thesis
    by (rule steady.gives_rpc [OF fate assms(5)], unfold shard_PauseWrites_def, rule steady.gives_forward [OF _ assms(3)])
      (auto intro: leader)
qed

text \<open>Redistributing keys: no leader holds a key that must move.\<close>

lemma count_pending_spawned: "count_pending L (p\<lparr>spawned := n\<rparr>) new keys k = count_pending L p new keys k"
  by (induction keys arbitrary: k) (simp_all add: must_move_def)

definition moved_away :: "('b, 'r, 'z) shard_lib_scheme \<Rightarrow> KVStoreConfig \<Rightarrow> 'r world \<Rightarrow> bool" where
  "moved_away L cfg w \<longleftrightarrow>
     (\<forall>h p. processes w h = Some p \<and> leads L w h \<longrightarrow>
        count_pending L p (map shard_Name (config_NewShards cfg)) (range_order L (KVStore_Keys (kvStore p))) 0 = Return 0)"

lemma RedistributeKeys_answered:
  assumes "healthy L cfg w" and "ring_ok L (map shard_Name (config_NewShards cfg))" and "moved_away L cfg w"
    and "resolves w t (\<lambda>_. True)"
  shows "gives (alike only_spawned w) (rpc t (shard_RedistributeKeys L req))
    (\<lambda>r. \<exists>x. r = Inr x \<and> RedistributeKeysResponse_PendingKeys x = 0)"
proof -
  have fate: "rpc_fate w = (\<lambda>_. Served None)" using assms(1) by (simp add: healthy_def)
  let ?new = "map shard_Name (config_NewShards cfg)"
  have leader: "gives (alike only_spawned w) (replica_RedistributeKeys L req h)
      (\<lambda>r. \<exists>x. r = Inr x \<and> RedistributeKeysResponse_PendingKeys x = 0)" if h: "processes w h = Some p0" "leads L w h" for h p0
  proof -
    have p: "count_pending L p ?new (range_order L (KVStore_Keys (kvStore p))) 0 = Return 0" "ReadConfig p = Return cfg"
      "only_spawned p0 (p\<lparr>spawned := n\<rparr>)" if "only_spawned p0 p" for p n
    proof -
      have eq: "p = p0\<lparr>spawned := spawned p\<rparr>" using that by (simp add: only_spawned_def)
      show "count_pending L p ?new (range_order L (KVStore_Keys (kvStore p))) 0 = Return 0"
        using assms(3) h by (subst eq, subst eq) (simp add: count_pending_spawned moved_away_def)
      show "ReadConfig p = Return cfg" using healthyD(2) [OF assms(1) h(1)] by (subst eq) (simp add: ReadConfig_def)
      show "only_spawned p0 (p\<lparr>spawned := n\<rparr>)" by (subst eq) (simp add: only_spawned_def)
    qed
    show ?thesis
      unfolding replica_RedistributeKeys_def
      by (rule gives_bind [OF counting.gives_self [OF h(1)]], rule gives_bind [OF counting.gives_become [OF h(1) p(3)]], assumption,
          rule gives_bind [OF gives_lift [where Q = "\<lambda>c. c = cfg"]], erule p(2), rule refl, simp,
          rule gives_bind [OF gives_lift [where Q = "\<lambda>c. c = ?new"]], simp add: new_ring_def Let_def assms(2), rule refl,
          rule gives_bind [OF gives_lift [where Q = "\<lambda>c. c = 0"]], simp add: p(1), rule refl, rule gives_ret, simp)
  qed
  show ?thesis
    by (rule counting.gives_rpc [OF fate assms(4)], unfold shard_RedistributeKeys_def,
        rule counting.gives_forward [OF only_spawned_like assms(1)]) (auto intro: leader)
qed

text \<open>Resuming writes: every replica reads the final configuration and reloads it.\<close>

definition reloadable :: "('b, 'r, 'z) shard_lib_scheme \<Rightarrow> KVStoreConfig \<Rightarrow> bool" where
  "reloadable L cfg \<longleftrightarrow>
     config_NewShards cfg = [] \<and> ring_ok L (map shard_Name (config_Shards cfg)) \<and> (\<forall>t. \<exists>n. dial_ok L t n)"

lemma PopulateShardClients_gives:
  assumes "\<forall>t. \<exists>n. dial_ok L t n" and "processes w h = Some p0"
  shows "gives (alike (like L') w) (PopulateShardClients L h shards) (\<lambda>_. True)"
  unfolding PopulateShardClients_def
proof (rule gives_bind [OF steady.gives_self [where L = L', OF assms(2)]])
  fix p
  assume p: "like L' p0 p"
  let ?ds = "map (\<lambda>d. (shard_Name d, host_port (shard_Name d) (flag_shardPort (flags p)))) shards"
  obtain cs where cs: "populate_clients L ?ds (shardClients p) = (Return (), cs)"
    using populate_clients_returns [of ?ds L] assms(1) by blast
  have "like L' p0 (p\<lparr>shardClients := cs\<rparr>)" using p by (simp add: like_def)
  then have "gives (alike (like L') w) (bind_act (become h (p\<lparr>shardClients := cs\<rparr>)) (\<lambda>_. lift_outcome (Return ()))) (\<lambda>_. True)"
    by (intro gives_bind [OF steady.gives_become [OF assms(2)]] gives_lift) auto
  then show "gives (alike (like L') w) (case populate_clients L ?ds (shardClients p) of (r, cs) \<Rightarrow>
      bind_act (become h (p\<lparr>shardClients := cs\<rparr>)) (\<lambda>_. lift_outcome r)) (\<lambda>_. True)" by (simp add: cs)
qed

lemma ReloadConfig_gives:
  assumes "healthy L cfg w" and "reloadable L cfg" and "processes w h = Some p0"
  shows "gives (alike (like L) w) (ReloadConfig L h) (\<lambda>b. b)"
proof -
  have cfg: "config_NewShards cfg = []" "new_ring L (config_Shards cfg) = Return (map shard_Name (config_Shards cfg))"
    "\<forall>t. \<exists>n. dial_ok L t n"
    using assms(2) by (simp_all add: reloadable_def new_ring_def)
  have ring: "like L p0 (p\<lparr>ch := r\<rparr>)" if "like L p0 p" for p r using that by (simp add: like_def)
  show ?thesis
    unfolding ReloadConfig_def
    by (rule gives_bind [OF steady.gives_self [OF assms(3)]],
        rule gives_bind [OF gives_lift [where Q = "\<lambda>c. c = cfg"]], erule healthy_config [OF assms(1,3)], rule refl)
      (auto simp: cfg intro!: gives_bind [OF gives_lift_Return] gives_bind [OF steady.gives_become [OF assms(3) ring]]
        gives_bind [OF PopulateShardClients_gives [OF cfg(3) assms(3)]] gives_ret)
qed

lemma reload_call:
  assumes "healthy L cfg w" and "reloadable L cfg" and "processes w h = Some p0" and "r \<in> fst ` set (replicaClients p0)"
  shows "gives (alike (like L) w) (client_call (replicaClients p0) r (replica_ReloadConfig L ReloadConfigRequest))
    (\<lambda>res. \<exists>x. res = Inr x \<and> ReloadConfigResponse_ReloadSuccessful x)"
proof -
  obtain t where t: "map_of (replicaClients p0) r = Some t" using map_of_dom [OF assms(4)] by blast
  then have "t \<in> snd ` set (replicaClients p0)" by (force dest: map_of_SomeD)
  then have up: "resolves w t (\<lambda>_. True)" by (rule healthyD(5) [OF assms(1,3)])
  show ?thesis
    by (rule steady.gives_client_call [OF healthyD(1) [OF assms(1,3)] t up])
      (auto simp: replica_ReloadConfig_def intro!: gives_bind [OF ReloadConfig_gives [OF assms(1,2)]] gives_ret)
qed

lemma reload_loops:
  assumes "healthy L cfg w" and "reloadable L cfg" and "processes w h = Some p0"
  shows "set rs \<subseteq> fst ` set (replicaClients p0) \<Longrightarrow> gives (alike (like L) w) (reload_all L (replicaClients p0) rs) (\<lambda>_. True)"
    and "set rs \<subseteq> fst ` set (replicaClients p0) \<Longrightarrow>
      gives (alike (like L) w) (reload_replicas L (replicaClients p0) rs True) (\<lambda>b. b = Some True)"
proof (induction rs)
  case Nil
  {
    case 1
    then show ?case by (simp add: gives_ret)
  next
    case 2
    then show ?case by (simp add: gives_ret)
  }
next
  case (Cons r rs)
  {
    case 1
    then show ?case using Cons.IH(1) by (auto intro: gives_bind [OF reload_call [OF assms]])
  next
    case 2
    then show ?case using Cons.IH(2) by (auto intro!: gives_bind [OF reload_call [OF assms]])
  }
qed

lemma range_clients:
  assumes "range_ok L" and "healthy L cfg w" and "processes w h = Some p0"
  shows "set (range_order L (map fst (replicaClients p0))) \<subseteq> fst ` set (replicaClients p0)"
  using assms(1) healthyD(4) [OF assms(2,3)] by (simp add: range_ok_def)

lemma replica_ResumeWrites_gives:
  assumes "entry_codec_ok L" and "raft_steady L" and "range_ok L" and "healthy L cfg w" and "reloadable L cfg"
    and "processes w h = Some p0" and "leads L w h"
  shows "gives (alike (like L) w) (replica_ResumeWrites L req h) (\<lambda>r. \<exists>x. r = Inr x \<and> ResumeWritesResponse_IsResumed x)"
proof -
  have new: "config_NewShards cfg = []" using assms(5) by (simp add: reloadable_def)
  note reload = reload_loops(2) [OF assms(4-6) range_clients [OF assms(3,4,6)]]
  show ?thesis
    unfolding replica_ResumeWrites_def
    by (rule gives_bind [OF steady.gives_self [OF assms(6)]],
        rule gives_bind [OF gives_lift [where Q = "\<lambda>c. c = cfg"]], erule healthy_config [OF assms(4,6)], rule refl)
      (auto simp: new likeD(3) reply_of_def intro!: gives_bind [OF reload] gives_ret
        gives_bind [OF SetWritesEnabled_gives [OF assms(1,2,4,6,7)]])
qed

lemma shard_ResumeWrites_gives:
  assumes "entry_codec_ok L" and "raft_steady L" and "range_ok L" and "healthy L cfg w" and "reloadable L cfg"
    and "processes w h = Some p0"
  shows "gives (alike (like L) w) (shard_ResumeWrites L req h) (\<lambda>r. \<exists>x. r = Inr x \<and> ResumeWritesResponse_IsResumed x)"
proof -
  obtain leader t where l: "KVStore_Leader L (kvStore p0) = Return leader" "leader \<noteq> []"
    "map_of (replicaClients p0) leader = Some t" "resolves w t (leads L w)"
    using healthyD(6) [OF assms(4,6)] by blast
  have call: "gives (alike (like L) w) (client_call (replicaClients p0) leader (replica_ResumeWrites L req))
      (\<lambda>r. \<exists>x. r = Inr x \<and> ResumeWritesResponse_IsResumed x)"
    by (rule steady.gives_client_call [OF healthyD(1) [OF assms(4,6)] l(3,4) replica_ResumeWrites_gives [OF assms(1-5)]])
  note reload = reload_loops(1) [OF assms(4-6) range_clients [OF assms(3,4,6)]]
  show ?thesis
    unfolding shard_ResumeWrites_def
    by (rule gives_bind [OF steady.gives_self [OF assms(6)]],
        rule gives_bind [OF gives_lift [where Q = "\<lambda>x. x = leader"]])
      (use l(1,2) in \<open>auto simp: likeD(3,4) intro: gives_bind [OF reload] call\<close>)
qed

lemma ResumeWrites_answered:
  assumes "entry_codec_ok L" and "raft_steady L" and "range_ok L" and "healthy L cfg w" and "reloadable L cfg"
    and "resolves w t (\<lambda>_. True)"
  shows "gives (alike (like L) w) (rpc t (shard_ResumeWrites L req)) (\<lambda>r. \<exists>x. r = Inr x \<and> ResumeWritesResponse_IsResumed x)"
  by (rule steady.gives_rpc [OF _ assms(6)]) (use assms(4) in \<open>auto simp: healthy_def intro: shard_ResumeWrites_gives [OF assms(1-5)]\<close>)

section \<open>The loops of the operator\<close>

lemma call_shard_gives:
  assumes "\<forall>t. \<exists>n. dial_ok K t n" and "gives I (rpc (shard_target shard) handler) (\<lambda>r. \<exists>x. r = Inr x \<and> Q x)" and "I (shard_world c)"
  shows "\<exists>x w. call_shard K shard handler c = (Return (Inr x), c\<lparr>shard_world := w\<rparr>) \<and> Q x \<and> I w"
proof -
  obtain d n where "dial_ok K (shard_target shard) n" "d = n" using assms(1) by blast
  then obtain k where "dial_loop (dial_ok K (shard_target shard)) 0 = Some k"
    using dial_loop_returns [of "dial_ok K (shard_target shard)" 0 n] by auto
  then have "GetShardClient K shard c = (Return (shard_target shard), c)"
    by (simp add: GetShardClient_def shard_target_def Let_def ret_def)
  moreover obtain x w where "rpc (shard_target shard) handler (shard_world c) = (Return (Inr x), w)" "Q x" "I w"
    using givesD [OF assms(2,3)] by blast
  ultimately show ?thesis by (auto simp: call_shard_def bind_run on_world_def)
qed

text \<open>A loop over the shards that goes on after every answer of the right kind reaches its end.\<close>

lemma calls_run:
  assumes dial: "\<forall>t. \<exists>n. dial_ok K t n"
    and last: "\<And>c. loop [] c = fin c"
    and go_on: "\<And>s ss c x c'. call_shard K s handler c = (Return (Inr x), c') \<Longrightarrow> Q x \<Longrightarrow> loop (s # ss) c = loop ss c'"
    and "\<forall>s \<in> set shards. gives I (rpc (shard_target s) handler) (\<lambda>r. \<exists>x. r = Inr x \<and> Q x)" and "I (shard_world c)"
  shows "\<exists>w. loop shards c = fin (c\<lparr>shard_world := w\<rparr>)"
  using assms(4,5)
proof (induction shards arbitrary: c)
  case Nil
  show ?case by (rule exI [of _ "shard_world c"]) (simp add: last)
next
  case (Cons s shards)
  have "gives I (rpc (shard_target s) handler) (\<lambda>r. \<exists>x. r = Inr x \<and> Q x)" using Cons.prems(1) by simp
  then obtain x w where x: "call_shard K s handler c = (Return (Inr x), c\<lparr>shard_world := w\<rparr>)" "Q x" "I w"
    using call_shard_gives [where I = I and Q = Q and c = c, OF dial] Cons.prems(2) by blast
  then show ?case using Cons.IH [of "c\<lparr>shard_world := w\<rparr>"] Cons.prems(1) by (simp add: go_on [OF x(1,2)])
qed

lemma stop_writes_run:
  assumes "\<forall>t. \<exists>n. dial_ok K t n" and "I (shard_world c)"
    and "\<forall>s \<in> set shards. gives I (rpc (shard_target s) (shard_PauseWrites K PauseWritesRequest))
      (\<lambda>r. \<exists>x. r = Inr x \<and> PauseWritesResponse_IsPaused x)"
  shows "\<exists>w. stop_writes_loop K kv shards c =
    transition K PhaseRedistributingKeys ''Starting to redistribute keys'' kv (c\<lparr>shard_world := w\<rparr>)"
  by (rule calls_run [OF assms(1) _ _ assms(3,2), where loop = "stop_writes_loop K kv"]) (simp_all add: bind_run)

lemma redistribute_run:
  assumes "\<forall>t. \<exists>n. dial_ok K t n" and "I (shard_world c)"
    and "\<forall>s \<in> set shards. gives I (rpc (shard_target s) (shard_RedistributeKeys K RedistributeKeysRequest))
      (\<lambda>r. \<exists>x. r = Inr x \<and> RedistributeKeysResponse_PendingKeys x = 0)"
  shows "\<exists>w. redistribute_loop K kv shards 0 c =
    transition K PhaseFinalizingScale ''Starting to finalize scaling operation'' kv (c\<lparr>shard_world := w\<rparr>)"
  by (rule calls_run [OF assms(1) _ _ assms(3,2), where loop = "\<lambda>shards. redistribute_loop K kv shards 0"]) (simp_all add: bind_run)

lemma resume_writes_run:
  assumes "\<forall>t. \<exists>n. dial_ok K t n" and "I (shard_world c)"
    and "\<forall>s \<in> set shards. gives I (rpc (shard_target s) (shard_ResumeWrites K ResumeWritesRequest))
      (\<lambda>r. \<exists>x. r = Inr x \<and> ResumeWritesResponse_IsResumed x)"
  shows "\<exists>w. resume_writes_loop K kv shards c =
    transition K PhaseNormal ''Ready'' (with_counts (kv_target kv) (kv_target kv) kv) (c\<lparr>shard_world := w\<rparr>)"
  by (rule calls_run [OF assms(1) _ _ assms(3,2), where loop = "resume_writes_loop K kv"]) (simp_all add: bind_run)

section \<open>One reconciliation per phase\<close>

text \<open>The status the resource has after the phase it is in.\<close>

definition advance :: "KVStoreResource \<Rightarrow> nat \<Rightarrow> KVStoreResource" where
  "advance kv t =
     (if kv_phase kv = PhasePreparingScale then enter_phase PhaseStoppingWrites ''Starting to disable writes'' t kv
      else if kv_phase kv = PhaseStoppingWrites then enter_phase PhaseRedistributingKeys ''Starting to redistribute keys'' t kv
      else if kv_phase kv = PhaseRedistributingKeys then enter_phase PhaseFinalizingScale ''Starting to finalize scaling operation'' t kv
      else if kv_phase kv = PhaseFinalizingScale then resuming kv t
      else enter_phase PhaseNormal ''Ready'' t (with_counts (kv_target kv) (kv_target kv) kv))"

text \<open>What the operator needs of its surroundings for the next step: no API fault, replicas that are ready,
  and in the phases that call shards, names that resolve to healthy processes which read the configuration
  the operator has written; while keys are redistributed, leaders that hold no key that must move.\<close>

definition cooperating :: "('b, 'r, 'z) kvctl_lib_scheme \<Rightarrow> KVStoreResource \<Rightarrow> 'r system \<Rightarrow> bool" where
  "cooperating K kv c \<longleftrightarrow>
     operator_ready K c \<and> well_stored c \<and>
     (\<forall>s \<in> set (owned_sets K kv c). ss_Replicas s = spec_Replicas (store_Spec kv) \<and> ss_ReadyReplicas s = ss_Replicas s) \<and>
     (kv_phase kv \<in> {PhaseStoppingWrites, PhaseRedistributingKeys, PhaseResumingWrites} \<longrightarrow>
        healthy K (build_config kv) (shard_world c) \<and>
        (\<forall>s \<in> set (owned_sets K kv c). resolves (shard_world c) (shard_target s) (\<lambda>_. True))) \<and>
     (kv_phase kv = PhaseRedistributingKeys \<longrightarrow> moved_away K (build_config kv) (shard_world c))"

text \<open>Documented behaviour of the packages the operator and the shards use, for the steps below.\<close>

definition packages_ok :: "('b, 'r, 'z) kvctl_lib_scheme \<Rightarrow> bool" where
  "packages_ok K \<longleftrightarrow> entry_codec_ok K \<and> raft_steady K \<and> range_ok K \<and> (\<forall>t. \<exists>n. dial_ok K t n) \<and>
     (\<forall>cfg. \<exists>y. yaml_Marshal K cfg = Inr y)"

lemma build_config_scaling:
  assumes "kv_current kv \<noteq> kv_target kv" and "kv_current kv \<noteq> 0"
  shows "config_NewShards (build_config kv) = map (config_shard kv) [0..kv_target kv - 1]"
  using assms by (simp add: build_config_def Let_def)

lemma build_config_final:
  assumes "kv_current kv = kv_target kv" and "kv_target kv \<noteq> 0"
  shows "build_config kv = \<lparr>config_Shards = map (config_shard kv) [0..kv_target kv - 1], config_NewShards = []\<rparr>"
  using assms by (simp add: build_config_def Let_def)

lemma phase_ends:
  assumes "operator_ready K c" and "api_store c = Some kv" and "kv_phase kv \<noteq> PhaseNormal"
    and "\<forall>s \<in> set (owned_sets K kv c). ss_Replicas s = spec_Replicas (store_Spec kv)"
    and "phase_switch K kv = bind_ok (bind_act (GetShards K kv) loop) (\<lambda>_. ret (Inr (RequeueAfter 1)))"
    and "loop (owned_sets K kv c) (ticks 3 c) = transition K ph msg kv' ((ticks 3 c)\<lparr>shard_world := w\<rparr>)"
  shows "\<exists>c'. Reconcile K c = (Return (Inr (RequeueAfter 1)), c') \<and>
    api_store c' = Some (kv\<lparr>store_Status := store_Status (enter_phase ph msg (now c) kv')\<rparr>)"
proof -
  let ?c = "(ticks 3 c)\<lparr>shard_world := w\<rparr>"
  have calm: "no_faults ?c" "api_store ?c = Some kv" "now ?c = now c"
    using assms(1,2) by (simp_all add: operator_ready_def no_faults_def ticks_def)
  have "GetShards K kv (ticks 2 c) = (Return (owned_sets K kv c), ticks 3 c)"
    using lists_run(1) [OF ready_kube [OF assms(1)], of "ticks 2 c" kv] assms(1) by simp
  then have "bind_act (GetShards K kv) loop (ticks 2 c) =
      (Return (Inr ()), put_store (Some (kv\<lparr>store_Status := store_Status (enter_phase ph msg (now c) kv')\<rparr>)) (ticks 1 ?c))"
    using transition_run [OF ready_kube [OF assms(1)] calm(1,2)] calm(3) assms(6) by (simp add: bind_run)
  then show ?thesis
    using Reconcile_in_phase [OF assms(1-4)] assms(5) by (simp add: bind_ok_run ret_def)
qed

text \<open>Each phase ends with its reconciliation; \<open>scaling_at\<close> collects what the three phases that call
  shards have in common.\<close>

definition scaling_at :: "('b, 'r, 'z) kvctl_lib_scheme \<Rightarrow> KVStoreResource \<Rightarrow> 'r system \<Rightarrow> bool" where
  "scaling_at K kv c \<longleftrightarrow>
     packages_ok K \<and> cooperating K kv c \<and> api_store c = Some kv \<and> 0 < kv_current kv \<and> 0 < kv_target kv \<and>
     ring_ok K (map (shard_name (kv_name kv)) [0..kv_target kv - 1])"

lemma scaling_atD:
  assumes "scaling_at K kv c"
  shows "\<forall>t. \<exists>n. dial_ok K t n" and "operator_ready K c" and "well_stored c" and "api_store c = Some kv"
    and "\<forall>s \<in> set (owned_sets K kv c). ss_Replicas s = spec_Replicas (store_Spec kv) \<and> ss_ReadyReplicas s = ss_Replicas s"
    and "kv_phase kv \<in> {PhaseStoppingWrites, PhaseRedistributingKeys, PhaseResumingWrites} \<Longrightarrow>
      healthy K (build_config kv) (shard_world c) \<and>
      (\<forall>s \<in> set (owned_sets K kv c). resolves (shard_world c) (shard_target s) (\<lambda>_. True))"
    and "ring_ok K (map shard_Name (map (config_shard kv) [0..kv_target kv - 1]))"
    and "entry_codec_ok K" and "raft_steady K" and "range_ok K"
  unfolding config_shard_names using assms unfolding scaling_at_def packages_ok_def cooperating_def by blast+

lemma stop_phase_ends:
  assumes "scaling_at K kv c" and "kv_phase kv = PhaseStoppingWrites" and "kv_current kv \<noteq> kv_target kv"
  shows "\<exists>c'. Reconcile K c = (Return (Inr (RequeueAfter 1)), c') \<and> api_store c' = Some (advance kv (now c))"
proof -
  note at = scaling_atD [OF assms(1)]
  let ?w = "shard_world c"
  have "config_NewShards (build_config kv) \<noteq> []"
    using build_config_scaling [of kv] assms by (simp add: scaling_at_def)
  then have "\<forall>s \<in> set (owned_sets K kv c). gives (alike (like K) ?w) (rpc (shard_target s) (shard_PauseWrites K PauseWritesRequest))
      (\<lambda>r. \<exists>x. r = Inr x \<and> PauseWritesResponse_IsPaused x)"
    using PauseWrites_answered [OF at(8,9)] at(6) assms(2) by blast
  then obtain w where "stop_writes_loop K kv (owned_sets K kv c) (ticks 3 c) =
      transition K PhaseRedistributingKeys ''Starting to redistribute keys'' kv ((ticks 3 c)\<lparr>shard_world := w\<rparr>)"
    using stop_writes_run [OF at(1), where I = "alike (like K) ?w" and c = "ticks 3 c" and kv = kv and shards = "owned_sets K kv c"]
      steady.alike_refl [of K ?w] by auto
  from phase_ends [where loop = "stop_writes_loop K kv", OF at(2,4) _ _ _ this] show ?thesis
    using assms(2) at(5) by (simp add: advance_def phase_switch_def StopWrites_def next_phase_stored)
qed

lemma redistribute_phase_ends:
  assumes "scaling_at K kv c" and "kv_phase kv = PhaseRedistributingKeys" and "kv_current kv \<noteq> kv_target kv"
  shows "\<exists>c'. Reconcile K c = (Return (Inr (RequeueAfter 1)), c') \<and> api_store c' = Some (advance kv (now c))"
proof -
  note at = scaling_atD [OF assms(1)]
  let ?w = "shard_world c"
  have ring: "ring_ok K (map shard_Name (config_NewShards (build_config kv)))"
    using build_config_scaling [of kv] assms at(7) by (simp add: scaling_at_def)
  have "moved_away K (build_config kv) ?w" using assms(1,2) by (simp add: scaling_at_def cooperating_def)
  then have "\<forall>s \<in> set (owned_sets K kv c). gives (alike only_spawned ?w)
      (rpc (shard_target s) (shard_RedistributeKeys K RedistributeKeysRequest))
      (\<lambda>r. \<exists>x. r = Inr x \<and> RedistributeKeysResponse_PendingKeys x = 0)"
    using RedistributeKeys_answered [OF _ ring] at(6) assms(2) by blast
  then obtain w where "redistribute_loop K kv (owned_sets K kv c) 0 (ticks 3 c) =
      transition K PhaseFinalizingScale ''Starting to finalize scaling operation'' kv ((ticks 3 c)\<lparr>shard_world := w\<rparr>)"
    using redistribute_run [OF at(1), where I = "alike only_spawned ?w" and c = "ticks 3 c" and kv = kv and shards = "owned_sets K kv c"]
      counting.alike_refl [of ?w] by auto
  from phase_ends [where loop = "\<lambda>shards. redistribute_loop K kv shards 0", OF at(2,4) _ _ _ this] show ?thesis
    using assms(2) at(5) by (simp add: advance_def phase_switch_def ctl_RedistributeKeys_def next_phase_stored)
qed

lemma resume_phase_ends:
  assumes "scaling_at K kv c" and "kv_phase kv = PhaseResumingWrites" and "kv_current kv = kv_target kv"
  shows "\<exists>c'. Reconcile K c = (Return (Inr (RequeueAfter 1)), c') \<and> api_store c' = Some (advance kv (now c))"
proof -
  note at = scaling_atD [OF assms(1)]
  let ?w = "shard_world c"
  have "reloadable K (build_config kv)"
    using build_config_final [of kv] assms at(1,7) by (simp add: scaling_at_def reloadable_def)
  then have "\<forall>s \<in> set (owned_sets K kv c). gives (alike (like K) ?w) (rpc (shard_target s) (shard_ResumeWrites K ResumeWritesRequest))
      (\<lambda>r. \<exists>x. r = Inr x \<and> ResumeWritesResponse_IsResumed x)"
    using ResumeWrites_answered [OF at(8-10)] at(6) assms(2) by blast
  then obtain w where "resume_writes_loop K kv (owned_sets K kv c) (ticks 3 c) =
      transition K PhaseNormal ''Ready'' (with_counts (kv_target kv) (kv_target kv) kv) ((ticks 3 c)\<lparr>shard_world := w\<rparr>)"
    using resume_writes_run [OF at(1), where I = "alike (like K) ?w" and c = "ticks 3 c" and kv = kv and shards = "owned_sets K kv c"]
      steady.alike_refl [of K ?w] by auto
  from phase_ends [where loop = "resume_writes_loop K kv", OF at(2,4) _ _ _ this] show ?thesis
    using assms(2) at(5) by (simp add: advance_def phase_switch_def ResumeWrites_def next_phase_stored)
qed

lemma phase_advances:
  assumes "scaling_at K kv c" and "kv_phase kv \<in> scaling_phases"
    and "kv_phase kv \<in> {PhaseStoppingWrites, PhaseRedistributingKeys} \<Longrightarrow> kv_current kv \<noteq> kv_target kv"
    and "kv_phase kv = PhaseResumingWrites \<Longrightarrow> kv_current kv = kv_target kv"
  shows "\<exists>c'. Reconcile K c = (Return (Inr (RequeueAfter 1)), c') \<and> api_store c' = Some (advance kv (now c))"
proof -
  note at = scaling_atD [OF assms(1)]
  consider "kv_phase kv = PhasePreparingScale" | "kv_phase kv = PhaseStoppingWrites" | "kv_phase kv = PhaseRedistributingKeys"
    | "kv_phase kv = PhaseFinalizingScale" | "kv_phase kv = PhaseResumingWrites"
    using assms(2) by (auto simp: scaling_phases_def)
  then show ?thesis
  proof cases
    case 1
    then show ?thesis using Reconcile_prepare [OF at(2,4) 1 at(5)] assms(1) by (simp add: advance_def scaling_at_def)
  next
    case 4
    obtain y where "yaml_Marshal K (build_config (resuming kv (now c))) = Inr y"
      using assms(1) unfolding scaling_at_def packages_ok_def by blast
    then show ?thesis using Reconcile_finalize [OF at(2,4) 4 _ at(3) refl] at(5) 4 by (auto simp: advance_def)
  qed (use stop_phase_ends redistribute_phase_ends resume_phase_ends assms in blast)+
qed

section \<open>The whole operation\<close>

definition scaling_sequence :: "RedistributionPhase list" where
  "scaling_sequence = [PhasePreparingScale, PhaseStoppingWrites, PhaseRedistributingKeys, PhaseFinalizingScale,
     PhaseResumingWrites, PhaseNormal]"

text \<open>The resource at step \<open>i\<close> of the operation that began with \<open>kv\<close>.\<close>

definition scaled :: "KVStoreResource \<Rightarrow> nat \<Rightarrow> KVStoreResource \<Rightarrow> bool" where
  "scaled kv i k \<longleftrightarrow>
     kv_phase k = scaling_sequence ! i \<and> store_Meta k = store_Meta kv \<and> store_Spec k = store_Spec kv \<and>
     kv_target k = kv_target kv \<and> kv_current k = (if i < 4 then kv_current kv else kv_target kv)"

lemma scaled_advance:
  assumes "scaled kv i k" and "i < 5"
  shows "scaled kv (Suc i) (advance k t)"
proof -
  consider "i = 0" | "i = 1" | "i = 2" | "i = 3" | "i = 4" using assms(2) by linarith
  then show ?thesis
    using assms(1) by cases (simp_all add: scaled_def advance_def scaling_sequence_def enter_phase_def with_counts_def resuming_def)
qed

lemma scaled_phases:
  assumes "scaled kv i k" and "i < 5"
  shows "kv_phase k \<in> scaling_phases" and "kv_phase k \<in> {PhaseStoppingWrites, PhaseRedistributingKeys} \<longleftrightarrow> i \<in> {1, 2}"
    and "kv_phase k = PhaseResumingWrites \<longleftrightarrow> i = 4"
proof -
  consider "i = 0" | "i = 1" | "i = 2" | "i = 3" | "i = 4" using assms(2) by linarith
  then have "kv_phase k \<in> scaling_phases \<and> (kv_phase k \<in> {PhaseStoppingWrites, PhaseRedistributingKeys} \<longleftrightarrow> i \<in> {1, 2}) \<and>
      (kv_phase k = PhaseResumingWrites \<longleftrightarrow> i = 4)"
    using assms(1) by cases (simp_all add: scaled_def scaling_sequence_def scaling_phases_def)
  then show "kv_phase k \<in> scaling_phases" "kv_phase k \<in> {PhaseStoppingWrites, PhaseRedistributingKeys} \<longleftrightarrow> i \<in> {1, 2}"
    "kv_phase k = PhaseResumingWrites \<longleftrightarrow> i = 4" by blast+
qed

lemma scaled_step:
  assumes "packages_ok K" and "scaled kv i k" and "i < 5" and "api_store c = Some k" and "cooperating K k c"
    and "0 < kv_current kv" and "0 < kv_target kv" and "kv_current kv \<noteq> kv_target kv"
    and "ring_ok K (map (shard_name (kv_name kv)) [0..kv_target kv - 1])"
  shows "\<exists>c'. Reconcile K c = (Return (Inr (RequeueAfter 1)), c') \<and> api_store c' = Some (advance k (now c))"
proof (rule phase_advances)
  show "scaling_at K k c" using assms by (auto simp: scaling_at_def scaled_def)
  show "kv_phase k \<in> {PhaseStoppingWrites, PhaseRedistributingKeys} \<Longrightarrow> kv_current k \<noteq> kv_target k"
    using scaled_phases(2) [OF assms(2,3)] assms(2,8) by (auto simp: scaled_def)
  show "kv_phase k = PhaseResumingWrites \<Longrightarrow> kv_current k = kv_target k"
    using scaled_phases(3) [OF assms(2,3)] assms(2) by (auto simp: scaled_def)
qed (rule scaled_phases(1) [OF assms(2,3)])

text \<open>C11: a scaling operation ends.  Let the operator reconcile a resource that is preparing to scale, and
  let its surroundings change between reconciliations as they like, as long as they leave the resource
  alone and each time cooperate: API calls succeed, replicas are ready, and in the phases that call shards
  the names of the shards resolve to running processes that read the configuration the operator wrote, know
  a leader and have moved their keys when it comes to that.  Then every reconciliation asks for the next
  one, the resource goes through the phases in order, and after five it is at rest with the target as its
  count of shards.\<close>

theorem scaling_completes:
  assumes "packages_ok K" and "api_store (cs 0) = Some kv" and "kv_phase kv = PhasePreparingScale"
    and "0 < kv_current kv" and "0 < kv_target kv" and "kv_current kv \<noteq> kv_target kv"
    and "ring_ok K (map (shard_name (kv_name kv)) [0..kv_target kv - 1])"
    and env: "\<forall>i < 5. api_store (cs (Suc i)) = api_store (snd (Reconcile K (cs i)))"
    and coop: "\<forall>i < 5. \<forall>k. api_store (cs i) = Some k \<longrightarrow> cooperating K k (cs i)"
  shows "(\<forall>i < 5. fst (Reconcile K (cs i)) = Return (Inr (RequeueAfter 1))) \<and>
    (\<forall>i \<le> 5. \<exists>k. api_store (cs i) = Some k \<and> kv_phase k = scaling_sequence ! i) \<and>
    (\<exists>k. api_store (cs 5) = Some k \<and> kv_phase k = PhaseNormal \<and> kv_current k = kv_target kv \<and>
       store_Spec k = store_Spec kv \<and> store_Meta k = store_Meta kv)"
proof -
  note step = scaled_step [OF assms(1) _ _ _ _ assms(4-7)]
  have at: "\<exists>k. api_store (cs i) = Some k \<and> scaled kv i k" if "i \<le> 5" for i
    using that
  proof (induction i)
    case 0
    then show ?case using assms(2,3) by (simp add: scaled_def scaling_sequence_def)
  next
    case (Suc i)
    then obtain k where k: "api_store (cs i) = Some k" "scaled kv i k" by auto
    then have "api_store (cs (Suc i)) = Some (advance k (now (cs i)))" using step [OF k(2) _ k(1)] Suc.prems env coop by fastforce
    then show ?case using scaled_advance [OF k(2)] Suc.prems by simp
  qed
  have "fst (Reconcile K (cs i)) = Return (Inr (RequeueAfter 1))" if i: "i < 5" for i
  proof -
    obtain k where k: "api_store (cs i) = Some k" "scaled kv i k" using at [OF less_imp_le [OF i]] by blast
    then show ?thesis using step [OF k(2) i k(1)] coop i by fastforce
  qed
  moreover obtain k where "api_store (cs 5) = Some k" "scaled kv 5 k" using at [of 5] by auto
  ultimately show ?thesis using at by (auto simp: scaled_def scaling_sequence_def)
qed

section \<open>A concrete operation\<close>

text \<open>The resource \<open>s\<close> grows from one shard to two.  Both shards have one replica; the first holds a key
  that stays there.\<close>

definition scaling_process :: "string \<Rightarrow> KVStoreConfig \<Rightarrow> gomap \<Rightarrow> demo_node process" where
  "scaling_process sh cfg m = (demo_process sh m)\<lparr>configFile := Parsed cfg, ch := Some [''s-shard-0'']\<rparr>"

definition scaling_world :: "KVStoreConfig \<Rightarrow> demo_node world" where
  "scaling_world cfg =
     \<lparr>processes = [''p0'' \<mapsto> scaling_process ''s-shard-0'' cfg [(''kk'', ''v'')], ''p1'' \<mapsto> scaling_process ''s-shard-1'' cfg []],
      route = (\<lambda>n t. if t = host_port ''s-shard-0.default'' 8081 \<or> t = replica_id ''r-0'' ''s-shard-0'' 8083 then Some ''p0''
         else if t = host_port ''s-shard-1.default'' 8081 \<or> t = replica_id ''r-0'' ''s-shard-1'' 8083 then Some ''p1''
         else None),
      rpc_fate = (\<lambda>_. Served None), unavailable = StatusErr ''Unavailable'' [], clock = 0\<rparr>"

definition scaling_resource :: "nat \<Rightarrow> KVStoreResource" where
  "scaling_resource i = ((\<lambda>k. advance k 0) ^^ i) (demo_resource [] 2 (demo_status PhasePreparingScale 1 2))"

definition scaling_system :: "nat \<Rightarrow> demo_node system" where
  "scaling_system i =
     (demo_system (\<lambda>_. None) (Some (scaling_resource i))
        [ready_set demo_kvctl_lib (scaling_resource 0) 0, ready_set demo_kvctl_lib (scaling_resource 0) 1])
     \<lparr>shard_world := scaling_world (build_config (scaling_resource i))\<rparr>"

lemma demo_packages: "packages_ok demo_kvctl_lib"
proof -
  have "entry_codec_ok demo_kvctl_lib" using demo_shard_lib_ok(1)
    by (simp add: demo_kvctl_lib_def shard_lib.defs kvctl_lib.defs entry_codec_ok_def)
  moreover have "raft_live demo_kvctl_lib" using demo_live
    by (simp add: demo_kvctl_lib_def shard_lib.defs kvctl_lib.defs raft_live_def)
  moreover have "raft_State demo_kvctl_lib = dn_role" "raft_Apply demo_kvctl_lib = raft_Apply demo_shard_lib"
    by (simp_all add: demo_kvctl_lib_def shard_lib.defs kvctl_lib.defs demo_shard_lib_def demo_lib_def raft_lib.defs)
  ultimately show ?thesis by (simp add: packages_ok_def raft_steady_def)
qed

lemma scaling_resource_scaled: "i \<le> 5 \<Longrightarrow> scaled (scaling_resource 0) i (scaling_resource i)"
proof (induction i)
  case 0
  then show ?case by (simp add: scaling_resource_def scaled_def scaling_sequence_def)
next
  case (Suc i)
  then show ?case using scaled_advance [of "scaling_resource 0" i "scaling_resource i" 0] by (simp add: scaling_resource_def)
qed

lemma scaling_processes [simp]:
  "processes (scaling_world cfg) h = (if h = ''p0'' then Some (scaling_process ''s-shard-0'' cfg [(''kk'', ''v'')])
     else if h = ''p1'' then Some (scaling_process ''s-shard-1'' cfg []) else None)"
  "rpc_fate (scaling_world cfg) = (\<lambda>_. Served None)"
  "configFile (scaling_process sh cfg m) = Parsed cfg" "kvStore (scaling_process sh cfg m) = demo_store sh m"
  "ch (scaling_process sh cfg m) = Some [''s-shard-0'']" "flags (scaling_process sh cfg m) = demo_flags sh"
  "replicaClients (scaling_process sh cfg m) = [(replica_id ''r-0'' sh 8082, replica_id ''r-0'' sh 8083)]"
  by (simp_all add: scaling_world_def scaling_process_def)

lemma scaling_resolves:
  "resolves (scaling_world cfg) (replica_id ''r-0'' ''s-shard-0'' 8083) (leads demo_kvctl_lib (scaling_world cfg))"
  "resolves (scaling_world cfg) (replica_id ''r-0'' ''s-shard-1'' 8083) (leads demo_kvctl_lib (scaling_world cfg))"
  "resolves (scaling_world cfg) (host_port ''s-shard-0.default'' 8081) (\<lambda>_. True)"
  "resolves (scaling_world cfg) (host_port ''s-shard-1.default'' 8081) (\<lambda>_. True)"
proof -
  have lead: "leads demo_kvctl_lib (scaling_world cfg) ''p0''" "leads demo_kvctl_lib (scaling_world cfg) ''p1''"
    by (simp_all add: leads_def is_leader_def demo_store_def demo_kvctl_lib_def shard_lib.defs kvctl_lib.defs demo_shard_lib_def demo_lib_def raft_lib.defs)
  have route: "route (scaling_world cfg) n (replica_id ''r-0'' ''s-shard-0'' 8083) = Some ''p0''"
    "route (scaling_world cfg) n (replica_id ''r-0'' ''s-shard-1'' 8083) = Some ''p1''"
    "route (scaling_world cfg) n (host_port ''s-shard-0.default'' 8081) = Some ''p0''"
    "route (scaling_world cfg) n (host_port ''s-shard-1.default'' 8081) = Some ''p1''" for n
    by (simp_all add: scaling_world_def replica_id_host_port)
  show "resolves (scaling_world cfg) (replica_id ''r-0'' ''s-shard-0'' 8083) (leads demo_kvctl_lib (scaling_world cfg))"
    "resolves (scaling_world cfg) (replica_id ''r-0'' ''s-shard-1'' 8083) (leads demo_kvctl_lib (scaling_world cfg))"
    "resolves (scaling_world cfg) (host_port ''s-shard-0.default'' 8081) (\<lambda>_. True)"
    "resolves (scaling_world cfg) (host_port ''s-shard-1.default'' 8081) (\<lambda>_. True)"
    using lead route by (simp_all add: resolves_def)
qed

lemma resolves_any: "resolves w t H \<Longrightarrow> resolves w t (\<lambda>_. True)"
  unfolding resolves_def by blast

lemma scaling_healthy: "healthy demo_kvctl_lib cfg (scaling_world cfg)"
proof -
  have "answering demo_kvctl_lib cfg (scaling_world cfg) (scaling_process sh cfg m)"
    if "sh = ''s-shard-0'' \<or> sh = ''s-shard-1''" "wf_map m" for sh m
    using that scaling_resolves(1,2) [of cfg] resolves_any [OF scaling_resolves(1)] resolves_any [OF scaling_resolves(2)]
    by (auto simp: answering_def)
  then show ?thesis by (auto simp: healthy_def wf_map_def split: if_splits)
qed

lemma scaling_resource_fields:
  assumes "i \<le> 5"
  shows "kv_name (scaling_resource i) = ''s''" "kv_ns (scaling_resource i) = ''default''"
    "spec_Replicas (store_Spec (scaling_resource i)) = 1" "kv_target (scaling_resource i) = 2"
    "kv_phase (scaling_resource i) = scaling_sequence ! i" "kv_current (scaling_resource i) = (if i < 4 then 1 else 2)"
  using scaling_resource_scaled [OF assms] by (simp_all add: scaled_def scaling_resource_def)

lemma scaling_moved:
  assumes "config_NewShards cfg = map (config_shard (scaling_resource 2)) [0..1]"
  shows "moved_away demo_kvctl_lib cfg (scaling_world cfg)"
  using scaling_resource_fields(1) [of 2] assms
  by (auto simp: moved_away_def must_move_def locate_def upto.simps config_shard_def shard_name_def render_simps split: if_splits)

lemma scaling_targets: "i \<in> {0, 1} \<Longrightarrow>
  shard_target (ready_set demo_kvctl_lib (scaling_resource 0) i) \<in>
    {host_port ''s-shard-0.default'' 8081, host_port ''s-shard-1.default'' 8081}"
  by (auto simp: shard_target_def ready_set_def owned_set_def shard_set_def controlled_by_def shard_name_def render_simps
      scaling_resource_def)

lemma scaling_cooperates:
  assumes "i < 5"
  shows "cooperating demo_kvctl_lib (scaling_resource i) (scaling_system i)"
proof -
  let ?c = "scaling_system i" and ?K = demo_kvctl_lib
  note f = scaling_resource_fields [OF less_imp_le [OF assms]]
  have f0: "spec_Replicas (store_Spec (scaling_resource 0)) = 1" by (rule scaling_resource_fields) simp
  have world: "shard_world ?c = scaling_world (build_config (scaling_resource i))" by (simp add: scaling_system_def)
  have sets: "set (owned_sets ?K (scaling_resource i) ?c) \<subseteq> {ready_set ?K (scaling_resource 0) 0, ready_set ?K (scaling_resource 0) 1}"
    by (auto simp: scaling_system_def list_owned_def)
  have "resolves (shard_world ?c) (shard_target s) (\<lambda>_. True)" if "s \<in> set (owned_sets ?K (scaling_resource i) ?c)" for s
    using sets that scaling_targets [of 0] scaling_targets [of 1] scaling_resolves(3,4) unfolding world by auto
  moreover have "ss_Replicas s = 1 \<and> ss_ReadyReplicas s = ss_Replicas s" if "s \<in> set (owned_sets ?K (scaling_resource i) ?c)" for s
    using sets that f0 by auto
  moreover have "operator_ready ?K ?c" "well_stored ?c"
    by (simp_all add: scaling_system_def operator_ready_def no_faults_def well_stored_def unique_objects_def object_key_def)
  moreover have "moved_away ?K (build_config (scaling_resource i)) (shard_world ?c)" if "kv_phase (scaling_resource i) = PhaseRedistributingKeys"
  proof -
    have i: "i = 2" using scaled_phases(2,3) [OF scaling_resource_scaled [OF less_imp_le [OF assms]] assms] that f(5)
      by (auto simp: scaling_sequence_def)
    show ?thesis using build_config_scaling [of "scaling_resource 2"] scaling_moved f unfolding world by (simp add: i)
  qed
  ultimately show ?thesis using scaling_healthy f(3) by (auto simp: cooperating_def world)
qed

theorem scaling_completes_witness:
  "list_all (\<lambda>i. api_store (scaling_system (Suc i)) = api_store (snd (Reconcile demo_kvctl_lib (scaling_system i)))) [0..<5] \<and>
   (\<exists>k. api_store (scaling_system 5) = Some k \<and> kv_phase k = PhaseNormal \<and> kv_current k = 2)"
proof -
  let ?K = demo_kvctl_lib
  note f = scaling_resource_fields [of 0, simplified]
  have stored: "api_store (scaling_system i) = Some (scaling_resource i)" "now (scaling_system i) = 0" for i
    by (simp_all add: scaling_system_def)
  have steps: "api_store (scaling_system (Suc i)) = api_store (snd (Reconcile ?K (scaling_system i)))" if i: "i < 5" for i
    using scaled_step [OF demo_packages scaling_resource_scaled i stored(1) scaling_cooperates [OF i]] i f stored
    by (auto simp: scaling_resource_def upto.simps)
  then have "\<exists>k. api_store (scaling_system 5) = Some k \<and> kv_phase k = PhaseNormal \<and> kv_current k = 2"
    using scaling_completes [of ?K scaling_system "scaling_resource 0", OF demo_packages stored(1)] scaling_cooperates stored f
    by (auto simp: scaling_sequence_def upto.simps)
  then show ?thesis using steps by (auto simp: list_all_iff)
qed

end
