(* ===== verification/Grpc_Stubs.thy ===== *)
theory Grpc_Stubs
  imports Demo_World
begin

text \<open>
  The generated stubs of the three gRPC services (\<open>internal/protos/*_grpc.pb.go\<close>): the client methods,
  which name a method and hand their request to \<open>Invoke\<close>, the method handlers and service descriptors a
  server registers, and the servers whose methods are unimplemented, which those of
  \<open>cmd/shard/shard.go\<close> embed.  The gRPC library encodes messages and finds the method a name stands
  for; both are parameters.  The theorem: a call through a stub to a process that serves the service is
  the call of that process's own method.
\<close>

named_theorems stub_defs \<open>client methods, method handlers, service descriptors and servers\<close>

section \<open>Messages on the wire\<close>

text \<open>What an \<open>interface{}\<close> of the stubs holds, and the full name of its message type.\<close>

datatype message =
    MGetRequest GetRequest
  | MPutRequest PutRequest
  | MDeleteRequest DeleteRequest
  | MInternalPutRequest InternalPutRequest
  | MPauseWritesRequest PauseWritesRequest
  | MRedistributeKeysRequest RedistributeKeysRequest
  | MResumeWritesRequest ResumeWritesRequest
  | MJoinRequest JoinRequest
  | MLeaderRequest LeaderRequest
  | MDemoteVoterRequest DemoteVoterRequest
  | MReloadConfigRequest ReloadConfigRequest
  | MGetResponse GetResponse
  | MPutResponse PutResponse
  | MDeleteResponse DeleteResponse
  | MPauseWritesResponse PauseWritesResponse
  | MRedistributeKeysResponse RedistributeKeysResponse
  | MResumeWritesResponse ResumeWritesResponse
  | MJoinResponse JoinResponse
  | MLeaderResponse LeaderResponse
  | MDemoteVoterResponse DemoteVoterResponse
  | MReloadConfigResponse ReloadConfigResponse

fun message_name :: "message \<Rightarrow> string" where
  "message_name (MGetRequest x) = ''protos.GetRequest''"
| "message_name (MPutRequest x) = ''protos.PutRequest''"
| "message_name (MDeleteRequest x) = ''protos.DeleteRequest''"
| "message_name (MInternalPutRequest x) = ''protos.InternalPutRequest''"
| "message_name (MPauseWritesRequest x) = ''protos.PauseWritesRequest''"
| "message_name (MRedistributeKeysRequest x) = ''protos.RedistributeKeysRequest''"
| "message_name (MResumeWritesRequest x) = ''protos.ResumeWritesRequest''"
| "message_name (MJoinRequest x) = ''protos.JoinRequest''"
| "message_name (MLeaderRequest x) = ''protos.LeaderRequest''"
| "message_name (MDemoteVoterRequest x) = ''protos.DemoteVoterRequest''"
| "message_name (MReloadConfigRequest x) = ''protos.ReloadConfigRequest''"
| "message_name (MGetResponse x) = ''protos.GetResponse''"
| "message_name (MPutResponse x) = ''protos.PutResponse''"
| "message_name (MDeleteResponse x) = ''protos.DeleteResponse''"
| "message_name (MPauseWritesResponse x) = ''protos.PauseWritesResponse''"
| "message_name (MRedistributeKeysResponse x) = ''protos.RedistributeKeysResponse''"
| "message_name (MResumeWritesResponse x) = ''protos.ResumeWritesResponse''"
| "message_name (MJoinResponse x) = ''protos.JoinResponse''"
| "message_name (MLeaderResponse x) = ''protos.LeaderResponse''"
| "message_name (MDemoteVoterResponse x) = ''protos.DemoteVoterResponse''"
| "message_name (MReloadConfigResponse x) = ''protos.ReloadConfigResponse''"

text \<open>A message type: its values among all messages, the type assertion, and what \<open>new\<close> makes.\<close>

record 'm message_type =
  of_type :: "'m \<Rightarrow> message"
  as_type :: "message \<Rightarrow> 'm option"
  new_of :: 'm

locale typed_message =
  fixes T :: "'m message_type"
  assumes as_of: "as_type T (of_type T x) = Some x"
    and name_of: "message_name (of_type T x) = message_name (of_type T y)"
begin

lemma of_type_inject: "of_type T x = of_type T y \<longleftrightarrow> x = y"
  by (metis as_of option.inject)

end

definition GetRequest_type :: "GetRequest message_type" where
  "GetRequest_type = \<lparr>of_type = MGetRequest, as_type = (\<lambda>m. case m of MGetRequest x \<Rightarrow> Some x | _ \<Rightarrow> None), new_of = GetRequest_Reset\<rparr>"

definition PutRequest_type :: "PutRequest message_type" where
  "PutRequest_type = \<lparr>of_type = MPutRequest, as_type = (\<lambda>m. case m of MPutRequest x \<Rightarrow> Some x | _ \<Rightarrow> None), new_of = PutRequest_Reset\<rparr>"

definition DeleteRequest_type :: "DeleteRequest message_type" where
  "DeleteRequest_type = \<lparr>of_type = MDeleteRequest, as_type = (\<lambda>m. case m of MDeleteRequest x \<Rightarrow> Some x | _ \<Rightarrow> None), new_of = DeleteRequest_Reset\<rparr>"

definition InternalPutRequest_type :: "InternalPutRequest message_type" where
  "InternalPutRequest_type = \<lparr>of_type = MInternalPutRequest, as_type = (\<lambda>m. case m of MInternalPutRequest x \<Rightarrow> Some x | _ \<Rightarrow> None), new_of = InternalPutRequest_Reset\<rparr>"

definition PauseWritesRequest_type :: "PauseWritesRequest message_type" where
  "PauseWritesRequest_type = \<lparr>of_type = MPauseWritesRequest, as_type = (\<lambda>m. case m of MPauseWritesRequest x \<Rightarrow> Some x | _ \<Rightarrow> None), new_of = PauseWritesRequest_Reset\<rparr>"

definition RedistributeKeysRequest_type :: "RedistributeKeysRequest message_type" where
  "RedistributeKeysRequest_type = \<lparr>of_type = MRedistributeKeysRequest, as_type = (\<lambda>m. case m of MRedistributeKeysRequest x \<Rightarrow> Some x | _ \<Rightarrow> None), new_of = RedistributeKeysRequest_Reset\<rparr>"

definition ResumeWritesRequest_type :: "ResumeWritesRequest message_type" where
  "ResumeWritesRequest_type = \<lparr>of_type = MResumeWritesRequest, as_type = (\<lambda>m. case m of MResumeWritesRequest x \<Rightarrow> Some x | _ \<Rightarrow> None), new_of = ResumeWritesRequest_Reset\<rparr>"

definition JoinRequest_type :: "JoinRequest message_type" where
  "JoinRequest_type = \<lparr>of_type = MJoinRequest, as_type = (\<lambda>m. case m of MJoinRequest x \<Rightarrow> Some x | _ \<Rightarrow> None), new_of = JoinRequest_Reset\<rparr>"

definition LeaderRequest_type :: "LeaderRequest message_type" where
  "LeaderRequest_type = \<lparr>of_type = MLeaderRequest, as_type = (\<lambda>m. case m of MLeaderRequest x \<Rightarrow> Some x | _ \<Rightarrow> None), new_of = LeaderRequest_Reset\<rparr>"

definition DemoteVoterRequest_type :: "DemoteVoterRequest message_type" where
  "DemoteVoterRequest_type = \<lparr>of_type = MDemoteVoterRequest, as_type = (\<lambda>m. case m of MDemoteVoterRequest x \<Rightarrow> Some x | _ \<Rightarrow> None), new_of = DemoteVoterRequest_Reset\<rparr>"

definition ReloadConfigRequest_type :: "ReloadConfigRequest message_type" where
  "ReloadConfigRequest_type = \<lparr>of_type = MReloadConfigRequest, as_type = (\<lambda>m. case m of MReloadConfigRequest x \<Rightarrow> Some x | _ \<Rightarrow> None), new_of = ReloadConfigRequest_Reset\<rparr>"

definition GetResponse_type :: "GetResponse message_type" where
  "GetResponse_type = \<lparr>of_type = MGetResponse, as_type = (\<lambda>m. case m of MGetResponse x \<Rightarrow> Some x | _ \<Rightarrow> None), new_of = GetResponse_Reset\<rparr>"

definition PutResponse_type :: "PutResponse message_type" where
  "PutResponse_type = \<lparr>of_type = MPutResponse, as_type = (\<lambda>m. case m of MPutResponse x \<Rightarrow> Some x | _ \<Rightarrow> None), new_of = PutResponse_Reset\<rparr>"

definition DeleteResponse_type :: "DeleteResponse message_type" where
  "DeleteResponse_type = \<lparr>of_type = MDeleteResponse, as_type = (\<lambda>m. case m of MDeleteResponse x \<Rightarrow> Some x | _ \<Rightarrow> None), new_of = DeleteResponse_Reset\<rparr>"

definition PauseWritesResponse_type :: "PauseWritesResponse message_type" where
  "PauseWritesResponse_type = \<lparr>of_type = MPauseWritesResponse, as_type = (\<lambda>m. case m of MPauseWritesResponse x \<Rightarrow> Some x | _ \<Rightarrow> None), new_of = PauseWritesResponse_Reset\<rparr>"

definition RedistributeKeysResponse_type :: "RedistributeKeysResponse message_type" where
  "RedistributeKeysResponse_type = \<lparr>of_type = MRedistributeKeysResponse, as_type = (\<lambda>m. case m of MRedistributeKeysResponse x \<Rightarrow> Some x | _ \<Rightarrow> None), new_of = RedistributeKeysResponse_Reset\<rparr>"

definition ResumeWritesResponse_type :: "ResumeWritesResponse message_type" where
  "ResumeWritesResponse_type = \<lparr>of_type = MResumeWritesResponse, as_type = (\<lambda>m. case m of MResumeWritesResponse x \<Rightarrow> Some x | _ \<Rightarrow> None), new_of = ResumeWritesResponse_Reset\<rparr>"

definition JoinResponse_type :: "JoinResponse message_type" where
  "JoinResponse_type = \<lparr>of_type = MJoinResponse, as_type = (\<lambda>m. case m of MJoinResponse x \<Rightarrow> Some x | _ \<Rightarrow> None), new_of = JoinResponse_Reset\<rparr>"

definition LeaderResponse_type :: "LeaderResponse message_type" where
  "LeaderResponse_type = \<lparr>of_type = MLeaderResponse, as_type = (\<lambda>m. case m of MLeaderResponse x \<Rightarrow> Some x | _ \<Rightarrow> None), new_of = LeaderResponse_Reset\<rparr>"

definition DemoteVoterResponse_type :: "DemoteVoterResponse message_type" where
  "DemoteVoterResponse_type = \<lparr>of_type = MDemoteVoterResponse, as_type = (\<lambda>m. case m of MDemoteVoterResponse x \<Rightarrow> Some x | _ \<Rightarrow> None), new_of = DemoteVoterResponse_Reset\<rparr>"

definition ReloadConfigResponse_type :: "ReloadConfigResponse message_type" where
  "ReloadConfigResponse_type = \<lparr>of_type = MReloadConfigResponse, as_type = (\<lambda>m. case m of MReloadConfigResponse x \<Rightarrow> Some x | _ \<Rightarrow> None), new_of = ReloadConfigResponse_Reset\<rparr>"

interpretation GetRequest_msg: typed_message GetRequest_type
  by unfold_locales (simp_all add: GetRequest_type_def)

interpretation PutRequest_msg: typed_message PutRequest_type
  by unfold_locales (simp_all add: PutRequest_type_def)

interpretation DeleteRequest_msg: typed_message DeleteRequest_type
  by unfold_locales (simp_all add: DeleteRequest_type_def)

interpretation InternalPutRequest_msg: typed_message InternalPutRequest_type
  by unfold_locales (simp_all add: InternalPutRequest_type_def)

interpretation PauseWritesRequest_msg: typed_message PauseWritesRequest_type
  by unfold_locales (simp_all add: PauseWritesRequest_type_def)

interpretation RedistributeKeysRequest_msg: typed_message RedistributeKeysRequest_type
  by unfold_locales (simp_all add: RedistributeKeysRequest_type_def)

interpretation ResumeWritesRequest_msg: typed_message ResumeWritesRequest_type
  by unfold_locales (simp_all add: ResumeWritesRequest_type_def)

interpretation JoinRequest_msg: typed_message JoinRequest_type
  by unfold_locales (simp_all add: JoinRequest_type_def)

interpretation LeaderRequest_msg: typed_message LeaderRequest_type
  by unfold_locales (simp_all add: LeaderRequest_type_def)

interpretation DemoteVoterRequest_msg: typed_message DemoteVoterRequest_type
  by unfold_locales (simp_all add: DemoteVoterRequest_type_def)

interpretation ReloadConfigRequest_msg: typed_message ReloadConfigRequest_type
  by unfold_locales (simp_all add: ReloadConfigRequest_type_def)

interpretation GetResponse_msg: typed_message GetResponse_type
  by unfold_locales (simp_all add: GetResponse_type_def)

interpretation PutResponse_msg: typed_message PutResponse_type
  by unfold_locales (simp_all add: PutResponse_type_def)

interpretation DeleteResponse_msg: typed_message DeleteResponse_type
  by unfold_locales (simp_all add: DeleteResponse_type_def)

interpretation PauseWritesResponse_msg: typed_message PauseWritesResponse_type
  by unfold_locales (simp_all add: PauseWritesResponse_type_def)

interpretation RedistributeKeysResponse_msg: typed_message RedistributeKeysResponse_type
  by unfold_locales (simp_all add: RedistributeKeysResponse_type_def)

interpretation ResumeWritesResponse_msg: typed_message ResumeWritesResponse_type
  by unfold_locales (simp_all add: ResumeWritesResponse_type_def)

interpretation JoinResponse_msg: typed_message JoinResponse_type
  by unfold_locales (simp_all add: JoinResponse_type_def)

interpretation LeaderResponse_msg: typed_message LeaderResponse_type
  by unfold_locales (simp_all add: LeaderResponse_type_def)

interpretation DemoteVoterResponse_msg: typed_message DemoteVoterResponse_type
  by unfold_locales (simp_all add: DemoteVoterResponse_type_def)

interpretation ReloadConfigResponse_msg: typed_message ReloadConfigResponse_type
  by unfold_locales (simp_all add: ReloadConfigResponse_type_def)

section \<open>The library\<close>

text \<open>\<open>grpc_Marshal\<close> and \<open>grpc_Unmarshal\<close> encode a message and decode it into a message of a given type;
  \<open>find_method\<close> is the service and the method a full method name stands for, among registered services and
  their method names; \<open>unknown_method\<close> is the status for a name that stands for none.\<close>

record 'w grpc_lib =
  grpc_Marshal :: "message \<Rightarrow> err + 'w"
  grpc_Unmarshal :: "message \<Rightarrow> 'w \<Rightarrow> err + message"
  find_method :: "(string \<times> string list) list \<Rightarrow> string \<Rightarrow> (string \<times> string) option"
  unknown_method :: "string \<Rightarrow> err"

text \<open>Documented: a message encodes (its strings are valid UTF-8), and decoding into a message of its type
  gives it back.\<close>

definition message_codec_ok :: "('w, 'z) grpc_lib_scheme \<Rightarrow> bool" where
  "message_codec_ok G \<longleftrightarrow>
     (\<forall>m. \<exists>b. grpc_Marshal G m = Inr b) \<and>
     (\<forall>m m0 b. grpc_Marshal G m = Inr b \<and> message_name m0 = message_name m \<longrightarrow> grpc_Unmarshal G m0 b = Inr m)"

text \<open>Documented: the name \<open>/service/method\<close> stands for the method of that service, if both are registered.\<close>

definition find_method_ok :: "('w, 'z) grpc_lib_scheme \<Rightarrow> bool" where
  "find_method_ok G \<longleftrightarrow>
     (\<forall>services name. find_method G services name =
        (case [(s, m). (s, ms) \<leftarrow> services, m \<leftarrow> ms, name = ''/'' @ s @ ''/'' @ m] of [] \<Rightarrow> None | x # _ \<Rightarrow> Some x))"

section \<open>Servers\<close>

type_synonym ('r, 'q, 'p) service_method = "'q \<Rightarrow> ('r, err + 'p) act"

definition unimplemented :: "string \<Rightarrow> ('r, err + 'p) act" where
  "unimplemented name = ret (Inl (StatusErr ''Unimplemented'' (''method '' @ name @ '' not implemented'')))"

record 'r KVServer =
  KVServer_Get :: "('r, GetRequest, GetResponse) service_method"
  KVServer_Put :: "('r, PutRequest, PutResponse) service_method"
  KVServer_Delete :: "('r, DeleteRequest, DeleteResponse) service_method"

definition UnimplementedKVServer :: "'r KVServer" where [stub_defs]:
  "UnimplementedKVServer =
     \<lparr>KVServer_Get = (\<lambda>_. unimplemented ''Get''),
      KVServer_Put = (\<lambda>_. unimplemented ''Put''),
      KVServer_Delete = (\<lambda>_. unimplemented ''Delete'')\<rparr>"

record 'r ShardRPCServer =
  ShardRPCServer_Get :: "('r, GetRequest, GetResponse) service_method"
  ShardRPCServer_Put :: "('r, InternalPutRequest, PutResponse) service_method"
  ShardRPCServer_Delete :: "('r, DeleteRequest, DeleteResponse) service_method"
  ShardRPCServer_PauseWrites :: "('r, PauseWritesRequest, PauseWritesResponse) service_method"
  ShardRPCServer_RedistributeKeys :: "('r, RedistributeKeysRequest, RedistributeKeysResponse) service_method"
  ShardRPCServer_ResumeWrites :: "('r, ResumeWritesRequest, ResumeWritesResponse) service_method"

definition UnimplementedShardRPCServer :: "'r ShardRPCServer" where [stub_defs]:
  "UnimplementedShardRPCServer =
     \<lparr>ShardRPCServer_Get = (\<lambda>_. unimplemented ''Get''),
      ShardRPCServer_Put = (\<lambda>_. unimplemented ''Put''),
      ShardRPCServer_Delete = (\<lambda>_. unimplemented ''Delete''),
      ShardRPCServer_PauseWrites = (\<lambda>_. unimplemented ''PauseWrites''),
      ShardRPCServer_RedistributeKeys = (\<lambda>_. unimplemented ''RedistributeKeys''),
      ShardRPCServer_ResumeWrites = (\<lambda>_. unimplemented ''ResumeWrites'')\<rparr>"

record 'r ReplicaRPCServer =
  ReplicaRPCServer_Put :: "('r, InternalPutRequest, PutResponse) service_method"
  ReplicaRPCServer_Delete :: "('r, DeleteRequest, DeleteResponse) service_method"
  ReplicaRPCServer_Join :: "('r, JoinRequest, JoinResponse) service_method"
  ReplicaRPCServer_Leader :: "('r, LeaderRequest, LeaderResponse) service_method"
  ReplicaRPCServer_DemoteVoter :: "('r, DemoteVoterRequest, DemoteVoterResponse) service_method"
  ReplicaRPCServer_PauseWrites :: "('r, PauseWritesRequest, PauseWritesResponse) service_method"
  ReplicaRPCServer_RedistributeKeys :: "('r, RedistributeKeysRequest, RedistributeKeysResponse) service_method"
  ReplicaRPCServer_ResumeWrites :: "('r, ResumeWritesRequest, ResumeWritesResponse) service_method"
  ReplicaRPCServer_ReloadConfig :: "('r, ReloadConfigRequest, ReloadConfigResponse) service_method"

definition UnimplementedReplicaRPCServer :: "'r ReplicaRPCServer" where [stub_defs]:
  "UnimplementedReplicaRPCServer =
     \<lparr>ReplicaRPCServer_Put = (\<lambda>_. unimplemented ''Put''),
      ReplicaRPCServer_Delete = (\<lambda>_. unimplemented ''Delete''),
      ReplicaRPCServer_Join = (\<lambda>_. unimplemented ''Join''),
      ReplicaRPCServer_Leader = (\<lambda>_. unimplemented ''Leader''),
      ReplicaRPCServer_DemoteVoter = (\<lambda>_. unimplemented ''DemoteVoter''),
      ReplicaRPCServer_PauseWrites = (\<lambda>_. unimplemented ''PauseWrites''),
      ReplicaRPCServer_RedistributeKeys = (\<lambda>_. unimplemented ''RedistributeKeys''),
      ReplicaRPCServer_ResumeWrites = (\<lambda>_. unimplemented ''ResumeWrites''),
      ReplicaRPCServer_ReloadConfig = (\<lambda>_. unimplemented ''ReloadConfig'')\<rparr>"

text \<open>The servers of a shard process embed these and have methods of their own, which hide the embedded
  ones of the same name.\<close>

definition kvServer :: "('b, 'r, 'z) shard_lib_scheme \<Rightarrow> string \<Rightarrow> 'r KVServer" where [stub_defs]:
  "kvServer L h = UnimplementedKVServer
     \<lparr>KVServer_Get := (\<lambda>req. kv_Get L req h),
      KVServer_Put := (\<lambda>req. kv_Put L req h),
      KVServer_Delete := (\<lambda>req. kv_Delete L req h)\<rparr>"

definition shardRpcServer :: "('b, 'r, 'z) shard_lib_scheme \<Rightarrow> string \<Rightarrow> 'r ShardRPCServer" where [stub_defs]:
  "shardRpcServer L h = UnimplementedShardRPCServer
     \<lparr>ShardRPCServer_Get := (\<lambda>req. shard_Get req h),
      ShardRPCServer_Put := (\<lambda>req. shard_Put L req h),
      ShardRPCServer_Delete := (\<lambda>req. shard_Delete L req h),
      ShardRPCServer_PauseWrites := (\<lambda>req. shard_PauseWrites L req h),
      ShardRPCServer_RedistributeKeys := (\<lambda>req. shard_RedistributeKeys L req h),
      ShardRPCServer_ResumeWrites := (\<lambda>req. shard_ResumeWrites L req h)\<rparr>"

definition replicaRpcServer :: "('b, 'r, 'z) shard_lib_scheme \<Rightarrow> string \<Rightarrow> 'r ReplicaRPCServer" where [stub_defs]:
  "replicaRpcServer L h = UnimplementedReplicaRPCServer
     \<lparr>ReplicaRPCServer_Put := (\<lambda>req. replica_Put L req h),
      ReplicaRPCServer_Delete := (\<lambda>req. replica_Delete L req h),
      ReplicaRPCServer_Join := (\<lambda>req. replica_Join L req h),
      ReplicaRPCServer_Leader := (\<lambda>req. replica_Leader L req h),
      ReplicaRPCServer_DemoteVoter := (\<lambda>req. replica_DemoteVoter L req h),
      ReplicaRPCServer_PauseWrites := (\<lambda>req. replica_PauseWrites L req h),
      ReplicaRPCServer_RedistributeKeys := (\<lambda>req. replica_RedistributeKeys L req h),
      ReplicaRPCServer_ResumeWrites := (\<lambda>req. replica_ResumeWrites L req h),
      ReplicaRPCServer_ReloadConfig := (\<lambda>req. replica_ReloadConfig L req h)\<rparr>"

section \<open>Method handlers and service descriptors\<close>

type_synonym ('r) handler_fun = "message \<Rightarrow> ('r, err + message) act"

text \<open>An interceptor gets the decoded request, the full method name and the rest of the handler.\<close>

type_synonym 'r interceptor = "message \<Rightarrow> string \<Rightarrow> 'r handler_fun \<Rightarrow> ('r, err + message) act"
type_synonym 'r method_handler = "(message \<Rightarrow> err + message) \<Rightarrow> 'r interceptor option \<Rightarrow> ('r, err + message) act"

text \<open>\<open>srv.(XServer).M(ctx, req.(*T))\<close>: a request of another type, which only an interceptor could pass,
  panics.\<close>

definition method_on ::
  "'q message_type \<Rightarrow> 'p message_type \<Rightarrow> ('r, 'q, 'p) service_method \<Rightarrow> 'r handler_fun" where
  "method_on In Out m req =
     (case as_type In req of
        None \<Rightarrow> panic
      | Some x \<Rightarrow> bind_act (m x) (\<lambda>res. ret (case res of Inl e \<Rightarrow> Inl e | Inr y \<Rightarrow> Inr (of_type Out y))))"

definition unary_handler ::
  "'q message_type \<Rightarrow> 'p message_type \<Rightarrow> string \<Rightarrow> ('r, 'q, 'p) service_method \<Rightarrow> 'r method_handler" where
  "unary_handler In Out fullMethod m dec interceptor =
     (case dec (of_type In (new_of In)) of
        Inl e \<Rightarrow> ret (Inl e)
      | Inr req \<Rightarrow>
          (case interceptor of
             None \<Rightarrow> method_on In Out m req
           | Some ic \<Rightarrow> ic req fullMethod (method_on In Out m)))"

definition KV_Get_Handler :: "'r KVServer \<Rightarrow> 'r method_handler" where [stub_defs]:
  "KV_Get_Handler srv = unary_handler GetRequest_type GetResponse_type ''/protos.KV/Get'' (KVServer_Get srv)"

definition KV_Put_Handler :: "'r KVServer \<Rightarrow> 'r method_handler" where [stub_defs]:
  "KV_Put_Handler srv = unary_handler PutRequest_type PutResponse_type ''/protos.KV/Put'' (KVServer_Put srv)"

definition KV_Delete_Handler :: "'r KVServer \<Rightarrow> 'r method_handler" where [stub_defs]:
  "KV_Delete_Handler srv = unary_handler DeleteRequest_type DeleteResponse_type ''/protos.KV/Delete'' (KVServer_Delete srv)"

definition ShardRPC_Get_Handler :: "'r ShardRPCServer \<Rightarrow> 'r method_handler" where [stub_defs]:
  "ShardRPC_Get_Handler srv = unary_handler GetRequest_type GetResponse_type ''/protos.ShardRPC/Get'' (ShardRPCServer_Get srv)"

definition ShardRPC_Put_Handler :: "'r ShardRPCServer \<Rightarrow> 'r method_handler" where [stub_defs]:
  "ShardRPC_Put_Handler srv = unary_handler InternalPutRequest_type PutResponse_type ''/protos.ShardRPC/Put'' (ShardRPCServer_Put srv)"

definition ShardRPC_Delete_Handler :: "'r ShardRPCServer \<Rightarrow> 'r method_handler" where [stub_defs]:
  "ShardRPC_Delete_Handler srv = unary_handler DeleteRequest_type DeleteResponse_type ''/protos.ShardRPC/Delete'' (ShardRPCServer_Delete srv)"

definition ShardRPC_PauseWrites_Handler :: "'r ShardRPCServer \<Rightarrow> 'r method_handler" where [stub_defs]:
  "ShardRPC_PauseWrites_Handler srv = unary_handler PauseWritesRequest_type PauseWritesResponse_type ''/protos.ShardRPC/PauseWrites'' (ShardRPCServer_PauseWrites srv)"

definition ShardRPC_RedistributeKeys_Handler :: "'r ShardRPCServer \<Rightarrow> 'r method_handler" where [stub_defs]:
  "ShardRPC_RedistributeKeys_Handler srv = unary_handler RedistributeKeysRequest_type RedistributeKeysResponse_type ''/protos.ShardRPC/RedistributeKeys'' (ShardRPCServer_RedistributeKeys srv)"

definition ShardRPC_ResumeWrites_Handler :: "'r ShardRPCServer \<Rightarrow> 'r method_handler" where [stub_defs]:
  "ShardRPC_ResumeWrites_Handler srv = unary_handler ResumeWritesRequest_type ResumeWritesResponse_type ''/protos.ShardRPC/ResumeWrites'' (ShardRPCServer_ResumeWrites srv)"

definition ReplicaRPC_Put_Handler :: "'r ReplicaRPCServer \<Rightarrow> 'r method_handler" where [stub_defs]:
  "ReplicaRPC_Put_Handler srv = unary_handler InternalPutRequest_type PutResponse_type ''/protos.ReplicaRPC/Put'' (ReplicaRPCServer_Put srv)"

definition ReplicaRPC_Delete_Handler :: "'r ReplicaRPCServer \<Rightarrow> 'r method_handler" where [stub_defs]:
  "ReplicaRPC_Delete_Handler srv = unary_handler DeleteRequest_type DeleteResponse_type ''/protos.ReplicaRPC/Delete'' (ReplicaRPCServer_Delete srv)"

definition ReplicaRPC_Join_Handler :: "'r ReplicaRPCServer \<Rightarrow> 'r method_handler" where [stub_defs]:
  "ReplicaRPC_Join_Handler srv = unary_handler JoinRequest_type JoinResponse_type ''/protos.ReplicaRPC/Join'' (ReplicaRPCServer_Join srv)"

definition ReplicaRPC_Leader_Handler :: "'r ReplicaRPCServer \<Rightarrow> 'r method_handler" where [stub_defs]:
  "ReplicaRPC_Leader_Handler srv = unary_handler LeaderRequest_type LeaderResponse_type ''/protos.ReplicaRPC/Leader'' (ReplicaRPCServer_Leader srv)"

definition ReplicaRPC_DemoteVoter_Handler :: "'r ReplicaRPCServer \<Rightarrow> 'r method_handler" where [stub_defs]:
  "ReplicaRPC_DemoteVoter_Handler srv = unary_handler DemoteVoterRequest_type DemoteVoterResponse_type ''/protos.ReplicaRPC/DemoteVoter'' (ReplicaRPCServer_DemoteVoter srv)"

definition ReplicaRPC_PauseWrites_Handler :: "'r ReplicaRPCServer \<Rightarrow> 'r method_handler" where [stub_defs]:
  "ReplicaRPC_PauseWrites_Handler srv = unary_handler PauseWritesRequest_type PauseWritesResponse_type ''/protos.ReplicaRPC/PauseWrites'' (ReplicaRPCServer_PauseWrites srv)"

definition ReplicaRPC_RedistributeKeys_Handler :: "'r ReplicaRPCServer \<Rightarrow> 'r method_handler" where [stub_defs]:
  "ReplicaRPC_RedistributeKeys_Handler srv = unary_handler RedistributeKeysRequest_type RedistributeKeysResponse_type ''/protos.ReplicaRPC/RedistributeKeys'' (ReplicaRPCServer_RedistributeKeys srv)"

definition ReplicaRPC_ResumeWrites_Handler :: "'r ReplicaRPCServer \<Rightarrow> 'r method_handler" where [stub_defs]:
  "ReplicaRPC_ResumeWrites_Handler srv = unary_handler ResumeWritesRequest_type ResumeWritesResponse_type ''/protos.ReplicaRPC/ResumeWrites'' (ReplicaRPCServer_ResumeWrites srv)"

definition ReplicaRPC_ReloadConfig_Handler :: "'r ReplicaRPCServer \<Rightarrow> 'r method_handler" where [stub_defs]:
  "ReplicaRPC_ReloadConfig_Handler srv = unary_handler ReloadConfigRequest_type ReloadConfigResponse_type ''/protos.ReplicaRPC/ReloadConfig'' (ReplicaRPCServer_ReloadConfig srv)"

record ('r, 's) ServiceDesc =
  ServiceName :: string
  Methods :: "(string \<times> ('s \<Rightarrow> 'r method_handler)) list"
  Metadata :: string

definition KV_ServiceDesc :: "('r, 'r KVServer) ServiceDesc" where [stub_defs]:
  "KV_ServiceDesc =
     \<lparr>ServiceName = ''protos.KV'',
      Methods = [(''Get'', KV_Get_Handler),
        (''Put'', KV_Put_Handler),
        (''Delete'', KV_Delete_Handler)],
      Metadata = ''protos/kv.proto''\<rparr>"

definition ShardRPC_ServiceDesc :: "('r, 'r ShardRPCServer) ServiceDesc" where [stub_defs]:
  "ShardRPC_ServiceDesc =
     \<lparr>ServiceName = ''protos.ShardRPC'',
      Methods = [(''Get'', ShardRPC_Get_Handler),
        (''Put'', ShardRPC_Put_Handler),
        (''Delete'', ShardRPC_Delete_Handler),
        (''PauseWrites'', ShardRPC_PauseWrites_Handler),
        (''RedistributeKeys'', ShardRPC_RedistributeKeys_Handler),
        (''ResumeWrites'', ShardRPC_ResumeWrites_Handler)],
      Metadata = ''protos/shard.proto''\<rparr>"

definition ReplicaRPC_ServiceDesc :: "('r, 'r ReplicaRPCServer) ServiceDesc" where [stub_defs]:
  "ReplicaRPC_ServiceDesc =
     \<lparr>ServiceName = ''protos.ReplicaRPC'',
      Methods = [(''Put'', ReplicaRPC_Put_Handler),
        (''Delete'', ReplicaRPC_Delete_Handler),
        (''Join'', ReplicaRPC_Join_Handler),
        (''Leader'', ReplicaRPC_Leader_Handler),
        (''DemoteVoter'', ReplicaRPC_DemoteVoter_Handler),
        (''PauseWrites'', ReplicaRPC_PauseWrites_Handler),
        (''RedistributeKeys'', ReplicaRPC_RedistributeKeys_Handler),
        (''ResumeWrites'', ReplicaRPC_ResumeWrites_Handler),
        (''ReloadConfig'', ReplicaRPC_ReloadConfig_Handler)],
      Metadata = ''protos/replica.proto''\<rparr>"

section \<open>A request arrives\<close>

text \<open>The registered method of the name gets the request, without an interceptor, as the servers are made
  without options; its reply is encoded.\<close>

definition serve_method ::
  "('w, 'y) grpc_lib_scheme \<Rightarrow> ('r, 's) ServiceDesc \<Rightarrow> 's \<Rightarrow> string \<Rightarrow> 'w \<Rightarrow> ('r, err + 'w) act" where
  "serve_method G desc srv name bytes =
     (case find_method G [(ServiceName desc, map fst (Methods desc))] name of
        None \<Rightarrow> ret (Inl (unknown_method G name))
      | Some (s, m) \<Rightarrow>
          (case map_of (Methods desc) m of
             None \<Rightarrow> ret (Inl (unknown_method G name))
           | Some handler \<Rightarrow>
               bind_act (handler srv (\<lambda>msg. grpc_Unmarshal G msg bytes) None) (\<lambda>res.
               ret (case res of Inl e \<Rightarrow> Inl e | Inr reply \<Rightarrow> grpc_Marshal G reply))))"

text \<open>\<open>RegisterXServer(s, srv)\<close> makes \<open>s\<close>, which has no other service, serve the methods of \<open>srv\<close>.\<close>

definition RegisterKVServer ::
  "('w, 'y) grpc_lib_scheme \<Rightarrow> 'r KVServer \<Rightarrow> string \<Rightarrow> 'w \<Rightarrow> ('r, err + 'w) act" where [stub_defs]:
  "RegisterKVServer G srv = serve_method G KV_ServiceDesc srv"

definition RegisterShardRPCServer ::
  "('w, 'y) grpc_lib_scheme \<Rightarrow> 'r ShardRPCServer \<Rightarrow> string \<Rightarrow> 'w \<Rightarrow> ('r, err + 'w) act" where [stub_defs]:
  "RegisterShardRPCServer G srv = serve_method G ShardRPC_ServiceDesc srv"

definition RegisterReplicaRPCServer ::
  "('w, 'y) grpc_lib_scheme \<Rightarrow> 'r ReplicaRPCServer \<Rightarrow> string \<Rightarrow> 'w \<Rightarrow> ('r, err + 'w) act" where [stub_defs]:
  "RegisterReplicaRPCServer G srv = serve_method G ReplicaRPC_ServiceDesc srv"

text \<open>What a server a shard process has started does with a request.\<close>

definition registered ::
  "('w, 'y) grpc_lib_scheme \<Rightarrow> ('b, 'r, 'z) shard_lib_scheme \<Rightarrow> string \<Rightarrow> rpc_service \<Rightarrow> string \<Rightarrow> 'w \<Rightarrow> ('r, err + 'w) act" where
  "registered G L h svc =
     (case svc of
        KV \<Rightarrow> RegisterKVServer G (kvServer L h)
      | ShardRPC \<Rightarrow> RegisterShardRPCServer G (shardRpcServer L h)
      | ReplicaRPC \<Rightarrow> RegisterReplicaRPCServer G (replicaRpcServer L h))"

text \<open>The listener a connection reaches: the one at the port that was dialled.\<close>

definition listen_address :: "string \<Rightarrow> string" where
  "listen_address target = dropWhile (\<lambda>c. c \<noteq> CHR '':'') target"

definition serve_connection ::
  "('w, 'y) grpc_lib_scheme \<Rightarrow> ('b, 'r, 'z) shard_lib_scheme \<Rightarrow> string \<Rightarrow> string \<Rightarrow> 'w \<Rightarrow> string \<Rightarrow> ('r, err + 'w) act" where
  "serve_connection G L target name bytes h =
     bind_act (self h) (\<lambda>p.
     case map_of (servers p) (listen_address target) of
       None \<Rightarrow> (\<lambda>w. (Return (Inl (unavailable w)), w))
     | Some svc \<Rightarrow> registered G L h svc name bytes)"

section \<open>Clients\<close>

type_synonym 'r client_conn = "string \<Rightarrow> message \<Rightarrow> message \<Rightarrow> ('r, err + message) act"

text \<open>\<open>Invoke\<close> of a connection to \<open>target\<close>: the request is encoded and sent, the reply decoded into the
  message given for it.\<close>

definition Invoke ::
  "('w, 'y) grpc_lib_scheme \<Rightarrow> ('b, 'r, 'z) shard_lib_scheme \<Rightarrow> string \<Rightarrow> 'r client_conn" where
  "Invoke G L target name req out =
     (case grpc_Marshal G req of
        Inl e \<Rightarrow> ret (Inl e)
      | Inr bytes \<Rightarrow>
          bind_act (rpc target (serve_connection G L target name bytes)) (\<lambda>res.
          ret (case res of Inl e \<Rightarrow> Inl e | Inr b \<Rightarrow> grpc_Unmarshal G out b)))"

text \<open>A client method.  Decoding fills \<open>out\<close>, so the reply has its type.\<close>

definition client_method ::
  "'q message_type \<Rightarrow> 'p message_type \<Rightarrow> string \<Rightarrow> 'r client_conn \<Rightarrow> 'q \<Rightarrow> ('r, err + 'p) act" where
  "client_method In Out name cc req =
     bind_act (cc name (of_type In req) (of_type Out (new_of Out))) (\<lambda>res.
     case res of
       Inl e \<Rightarrow> ret (Inl e)
     | Inr out \<Rightarrow> (case as_type Out out of None \<Rightarrow> panic | Some y \<Rightarrow> ret (Inr y)))"

record 'r kVClient =
  kVClient_cc :: "'r client_conn"

definition NewKVClient :: "'r client_conn \<Rightarrow> 'r kVClient" where [stub_defs]:
  "NewKVClient cc = \<lparr>kVClient_cc = cc\<rparr>"

definition kVClient_Get :: "'r kVClient \<Rightarrow> GetRequest \<Rightarrow> ('r, err + GetResponse) act" where [stub_defs]:
  "kVClient_Get c = client_method GetRequest_type GetResponse_type ''/protos.KV/Get'' (kVClient_cc c)"

definition kVClient_Put :: "'r kVClient \<Rightarrow> PutRequest \<Rightarrow> ('r, err + PutResponse) act" where [stub_defs]:
  "kVClient_Put c = client_method PutRequest_type PutResponse_type ''/protos.KV/Put'' (kVClient_cc c)"

definition kVClient_Delete :: "'r kVClient \<Rightarrow> DeleteRequest \<Rightarrow> ('r, err + DeleteResponse) act" where [stub_defs]:
  "kVClient_Delete c = client_method DeleteRequest_type DeleteResponse_type ''/protos.KV/Delete'' (kVClient_cc c)"

record 'r shardRPCClient =
  shardRPCClient_cc :: "'r client_conn"

definition NewShardRPCClient :: "'r client_conn \<Rightarrow> 'r shardRPCClient" where [stub_defs]:
  "NewShardRPCClient cc = \<lparr>shardRPCClient_cc = cc\<rparr>"

definition shardRPCClient_Get :: "'r shardRPCClient \<Rightarrow> GetRequest \<Rightarrow> ('r, err + GetResponse) act" where [stub_defs]:
  "shardRPCClient_Get c = client_method GetRequest_type GetResponse_type ''/protos.ShardRPC/Get'' (shardRPCClient_cc c)"

definition shardRPCClient_Put :: "'r shardRPCClient \<Rightarrow> InternalPutRequest \<Rightarrow> ('r, err + PutResponse) act" where [stub_defs]:
  "shardRPCClient_Put c = client_method InternalPutRequest_type PutResponse_type ''/protos.ShardRPC/Put'' (shardRPCClient_cc c)"

definition shardRPCClient_Delete :: "'r shardRPCClient \<Rightarrow> DeleteRequest \<Rightarrow> ('r, err + DeleteResponse) act" where [stub_defs]:
  "shardRPCClient_Delete c = client_method DeleteRequest_type DeleteResponse_type ''/protos.ShardRPC/Delete'' (shardRPCClient_cc c)"

definition shardRPCClient_PauseWrites :: "'r shardRPCClient \<Rightarrow> PauseWritesRequest \<Rightarrow> ('r, err + PauseWritesResponse) act" where [stub_defs]:
  "shardRPCClient_PauseWrites c = client_method PauseWritesRequest_type PauseWritesResponse_type ''/protos.ShardRPC/PauseWrites'' (shardRPCClient_cc c)"

definition shardRPCClient_RedistributeKeys :: "'r shardRPCClient \<Rightarrow> RedistributeKeysRequest \<Rightarrow> ('r, err + RedistributeKeysResponse) act" where [stub_defs]:
  "shardRPCClient_RedistributeKeys c = client_method RedistributeKeysRequest_type RedistributeKeysResponse_type ''/protos.ShardRPC/RedistributeKeys'' (shardRPCClient_cc c)"

definition shardRPCClient_ResumeWrites :: "'r shardRPCClient \<Rightarrow> ResumeWritesRequest \<Rightarrow> ('r, err + ResumeWritesResponse) act" where [stub_defs]:
  "shardRPCClient_ResumeWrites c = client_method ResumeWritesRequest_type ResumeWritesResponse_type ''/protos.ShardRPC/ResumeWrites'' (shardRPCClient_cc c)"

record 'r replicaRPCClient =
  replicaRPCClient_cc :: "'r client_conn"

definition NewReplicaRPCClient :: "'r client_conn \<Rightarrow> 'r replicaRPCClient" where [stub_defs]:
  "NewReplicaRPCClient cc = \<lparr>replicaRPCClient_cc = cc\<rparr>"

definition replicaRPCClient_Put :: "'r replicaRPCClient \<Rightarrow> InternalPutRequest \<Rightarrow> ('r, err + PutResponse) act" where [stub_defs]:
  "replicaRPCClient_Put c = client_method InternalPutRequest_type PutResponse_type ''/protos.ReplicaRPC/Put'' (replicaRPCClient_cc c)"

definition replicaRPCClient_Delete :: "'r replicaRPCClient \<Rightarrow> DeleteRequest \<Rightarrow> ('r, err + DeleteResponse) act" where [stub_defs]:
  "replicaRPCClient_Delete c = client_method DeleteRequest_type DeleteResponse_type ''/protos.ReplicaRPC/Delete'' (replicaRPCClient_cc c)"

definition replicaRPCClient_Join :: "'r replicaRPCClient \<Rightarrow> JoinRequest \<Rightarrow> ('r, err + JoinResponse) act" where [stub_defs]:
  "replicaRPCClient_Join c = client_method JoinRequest_type JoinResponse_type ''/protos.ReplicaRPC/Join'' (replicaRPCClient_cc c)"

definition replicaRPCClient_Leader :: "'r replicaRPCClient \<Rightarrow> LeaderRequest \<Rightarrow> ('r, err + LeaderResponse) act" where [stub_defs]:
  "replicaRPCClient_Leader c = client_method LeaderRequest_type LeaderResponse_type ''/protos.ReplicaRPC/Leader'' (replicaRPCClient_cc c)"

definition replicaRPCClient_DemoteVoter :: "'r replicaRPCClient \<Rightarrow> DemoteVoterRequest \<Rightarrow> ('r, err + DemoteVoterResponse) act" where [stub_defs]:
  "replicaRPCClient_DemoteVoter c = client_method DemoteVoterRequest_type DemoteVoterResponse_type ''/protos.ReplicaRPC/DemoteVoter'' (replicaRPCClient_cc c)"

definition replicaRPCClient_PauseWrites :: "'r replicaRPCClient \<Rightarrow> PauseWritesRequest \<Rightarrow> ('r, err + PauseWritesResponse) act" where [stub_defs]:
  "replicaRPCClient_PauseWrites c = client_method PauseWritesRequest_type PauseWritesResponse_type ''/protos.ReplicaRPC/PauseWrites'' (replicaRPCClient_cc c)"

definition replicaRPCClient_RedistributeKeys :: "'r replicaRPCClient \<Rightarrow> RedistributeKeysRequest \<Rightarrow> ('r, err + RedistributeKeysResponse) act" where [stub_defs]:
  "replicaRPCClient_RedistributeKeys c = client_method RedistributeKeysRequest_type RedistributeKeysResponse_type ''/protos.ReplicaRPC/RedistributeKeys'' (replicaRPCClient_cc c)"

definition replicaRPCClient_ResumeWrites :: "'r replicaRPCClient \<Rightarrow> ResumeWritesRequest \<Rightarrow> ('r, err + ResumeWritesResponse) act" where [stub_defs]:
  "replicaRPCClient_ResumeWrites c = client_method ResumeWritesRequest_type ResumeWritesResponse_type ''/protos.ReplicaRPC/ResumeWrites'' (replicaRPCClient_cc c)"

definition replicaRPCClient_ReloadConfig :: "'r replicaRPCClient \<Rightarrow> ReloadConfigRequest \<Rightarrow> ('r, err + ReloadConfigResponse) act" where [stub_defs]:
  "replicaRPCClient_ReloadConfig c = client_method ReloadConfigRequest_type ReloadConfigResponse_type ''/protos.ReplicaRPC/ReloadConfig'' (replicaRPCClient_cc c)"

section \<open>A call through the stubs\<close>

lemma bind_bind: "bind_act (bind_act m f) g = bind_act m (\<lambda>x. bind_act (f x) g)"
  by (auto simp: bind_act_def fun_eq_iff split: prod.splits outcome.splits)

lemma rpc_encoded:
  assumes "\<And>h p. route w (clock w) t = Some h \<Longrightarrow> processes w h = Some p \<Longrightarrow>
      served h (w\<lparr>clock := Suc (clock w)\<rparr>) =
        map_prod (map_outcome (map_sum id enc)) id (handler h (w\<lparr>clock := Suc (clock w)\<rparr>))"
    and "\<And>e. k (Inl e) = ret (Inl e)" and "\<And>x. k (Inr (enc x)) = ret (Inr x)"
  shows "bind_act (rpc t served) k w = rpc t handler w"
proof (cases "route w (clock w) t")
  case (Some h)
  show ?thesis
  proof (cases "processes w h")
    case (Some p)
    note run = assms(1) [OF \<open>route w (clock w) t = Some h\<close> Some]
    obtain x w' where x: "handler h (w\<lparr>clock := Suc (clock w)\<rparr>) = (x, w')" by fastforce
    show ?thesis
      using Some \<open>route w (clock w) t = Some h\<close> run x assms(2,3)
      by (cases x) (auto simp: bind_act_def rpc_def Let_def ret_def status_result_def split: fate.splits option.splits sum.splits)
  qed (use Some assms(2) in \<open>simp add: bind_act_def rpc_def Let_def ret_def\<close>)
qed (use assms(2) in \<open>simp add: bind_act_def rpc_def Let_def ret_def\<close>)

text \<open>The encoding of a message, when it has one.\<close>

definition wire_of :: "('w, 'y) grpc_lib_scheme \<Rightarrow> message \<Rightarrow> 'w" where
  "wire_of G m = projr (grpc_Marshal G m)"

lemma codec_bytes: "message_codec_ok G \<Longrightarrow> grpc_Marshal G m = Inr (wire_of G m)"
  unfolding message_codec_ok_def wire_of_def by (metis sum.sel(2))

lemma codec_decodes:
  "message_codec_ok G \<Longrightarrow> message_name m0 = message_name m \<Longrightarrow> grpc_Unmarshal G m0 (wire_of G m) = Inr m"
  using codec_bytes [of G m] unfolding message_codec_ok_def by blast

lemma find_own_method:
  assumes "find_method_ok G" and "m \<in> set ms" and "name = ''/'' @ s @ ''/'' @ m"
  shows "find_method G [(s, ms)] name = Some (s, m)"
proof -
  have "[(s', m'). (s', ms') \<leftarrow> [(s, ms)], m' \<leftarrow> ms', name = ''/'' @ s' @ ''/'' @ m'] = map (Pair s) (filter (\<lambda>m'. m' = m) ms)"
    using assms(3) by (induction ms) auto
  moreover obtain k where "filter (\<lambda>m'. m' = m) ms = m # k"
    using assms(2) by (cases "filter (\<lambda>m'. m' = m) ms") (auto simp: filter_empty_conv filter_eq_Cons_iff)
  ultimately show ?thesis using assms(1) by (simp add: find_method_ok_def)
qed

text \<open>The process a call to \<open>target\<close> reaches now serves \<open>svc\<close> at the port dialled.\<close>

definition serves :: "string \<Rightarrow> rpc_service \<Rightarrow> 'r world \<Rightarrow> bool" where
  "serves target svc w \<longleftrightarrow>
     (\<forall>h p. route w (clock w) target = Some h \<and> processes w h = Some p \<longrightarrow>
        map_of (servers p) (listen_address target) = Some svc)"

lemma servesD: "serves target svc w \<Longrightarrow> route w (clock w) target = Some h \<Longrightarrow> processes w h = Some p \<Longrightarrow>
  map_of (servers p) (listen_address target) = Some svc"
  by (simp add: serves_def)

locale unary_method = request: typed_message In + reply: typed_message Out
  for In :: "'q message_type" and Out :: "'p message_type"
begin

lemma served_method:
  assumes "message_codec_ok G" and "find_method_ok G" and "map_of (Methods desc) m = Some handler"
    and "handler srv = unary_handler In Out name meth" and "name = ''/'' @ ServiceName desc @ ''/'' @ m"
  shows "serve_method G desc srv name (wire_of G (of_type In req)) w =
    map_prod (map_outcome (map_sum id (\<lambda>y. wire_of G (of_type Out y)))) id (meth req w)"
proof -
  have "m \<in> set (map fst (Methods desc))" using map_of_SomeD [OF assms(3)] by force
  then have "find_method G [(ServiceName desc, map fst (Methods desc))] name = Some (ServiceName desc, m)"
    by (rule find_own_method [OF assms(2) _ assms(5)])
  moreover have "grpc_Unmarshal G (of_type In (new_of In)) (wire_of G (of_type In req)) = Inr (of_type In req)"
    by (rule codec_decodes [OF assms(1) request.name_of])
  moreover note codec_bytes [OF assms(1)]
  ultimately show ?thesis
    using assms(3,4)
    by (auto simp: serve_method_def unary_handler_def method_on_def request.as_of bind_act_def ret_def
        split: prod.splits outcome.splits sum.splits)
qed

lemma stub_call:
  assumes "message_codec_ok G" and "\<And>h p. route w (clock w) target = Some h \<Longrightarrow> processes w h = Some p \<Longrightarrow>
      map_of (servers p) (listen_address target) = Some svc \<and>
      registered G L h svc name (wire_of G (of_type In req)) (w\<lparr>clock := Suc (clock w)\<rparr>) =
      map_prod (map_outcome (map_sum id (\<lambda>y. wire_of G (of_type Out y)))) id
        (meth h (w\<lparr>clock := Suc (clock w)\<rparr>))"
  shows "client_method In Out name (Invoke G L target) req w = rpc target meth w"
proof -
  let ?enc = "\<lambda>y. wire_of G (of_type Out y)"
  let ?k = "\<lambda>res. bind_act (ret (case res of Inl e \<Rightarrow> Inl e | Inr b \<Rightarrow> grpc_Unmarshal G (of_type Out (new_of Out)) b))
    (\<lambda>res. case res of Inl e \<Rightarrow> ret (Inl e) | Inr out \<Rightarrow> (case as_type Out out of None \<Rightarrow> panic | Some y \<Rightarrow> ret (Inr y)))"
  have dec: "grpc_Unmarshal G (of_type Out (new_of Out)) (?enc y) = Inr (of_type Out y)" for y
    by (rule codec_decodes [OF assms(1) reply.name_of])
  have "client_method In Out name (Invoke G L target) req w =
      bind_act (rpc target (serve_connection G L target name (wire_of G (of_type In req)))) ?k w"
    by (simp add: client_method_def Invoke_def codec_bytes [OF assms(1)] bind_bind)
  also have "\<dots> = rpc target meth w"
  proof (rule rpc_encoded [where enc = ?enc])
    fix h p
    assume h: "route w (clock w) target = Some h" "processes w h = Some p"
    then show "serve_connection G L target name (wire_of G (of_type In req)) h (w\<lparr>clock := Suc (clock w)\<rparr>) =
        map_prod (map_outcome (map_sum id ?enc)) id (meth h (w\<lparr>clock := Suc (clock w)\<rparr>))"
      using assms(2) [OF h] by (simp add: serve_connection_def bind_act_def [of "self h"] self_def)
  qed (simp_all add: bind_act_def ret_def dec reply.as_of fun_eq_iff)
  finally show ?thesis .
qed

lemma KV_call:
  assumes "message_codec_ok G" and "find_method_ok G" and "serves target KV w" and "map_of (Methods KV_ServiceDesc) m = Some handler"
    and "\<And>h. handler (kvServer L h) = unary_handler In Out name (\<lambda>req. meth req h)" and "name = ''/protos.KV/'' @ m"
  shows "client_method In Out name (Invoke G L target) req w = rpc target (meth req) w"
  by (rule stub_call [OF assms(1), where svc = KV])
    (use servesD [OF assms(3)] served_method [OF assms(1,2,4,5)] assms(6) in
      \<open>auto simp: registered_def RegisterKVServer_def KV_ServiceDesc_def\<close>)

lemma ShardRPC_call:
  assumes "message_codec_ok G" and "find_method_ok G" and "serves target ShardRPC w" and "map_of (Methods ShardRPC_ServiceDesc) m = Some handler"
    and "\<And>h. handler (shardRpcServer L h) = unary_handler In Out name (\<lambda>req. meth req h)" and "name = ''/protos.ShardRPC/'' @ m"
  shows "client_method In Out name (Invoke G L target) req w = rpc target (meth req) w"
  by (rule stub_call [OF assms(1), where svc = ShardRPC])
    (use servesD [OF assms(3)] served_method [OF assms(1,2,4,5)] assms(6) in
      \<open>auto simp: registered_def RegisterShardRPCServer_def ShardRPC_ServiceDesc_def\<close>)

lemma ReplicaRPC_call:
  assumes "message_codec_ok G" and "find_method_ok G" and "serves target ReplicaRPC w" and "map_of (Methods ReplicaRPC_ServiceDesc) m = Some handler"
    and "\<And>h. handler (replicaRpcServer L h) = unary_handler In Out name (\<lambda>req. meth req h)" and "name = ''/protos.ReplicaRPC/'' @ m"
  shows "client_method In Out name (Invoke G L target) req w = rpc target (meth req) w"
  by (rule stub_call [OF assms(1), where svc = ReplicaRPC])
    (use servesD [OF assms(3)] served_method [OF assms(1,2,4,5)] assms(6) in
      \<open>auto simp: registered_def RegisterReplicaRPCServer_def ReplicaRPC_ServiceDesc_def\<close>)

end

interpretation get_m: unary_method GetRequest_type GetResponse_type
  by unfold_locales

interpretation put_m: unary_method PutRequest_type PutResponse_type
  by unfold_locales

interpretation delete_m: unary_method DeleteRequest_type DeleteResponse_type
  by unfold_locales

interpretation internalPut_m: unary_method InternalPutRequest_type PutResponse_type
  by unfold_locales

interpretation pauseWrites_m: unary_method PauseWritesRequest_type PauseWritesResponse_type
  by unfold_locales

interpretation redistributeKeys_m: unary_method RedistributeKeysRequest_type RedistributeKeysResponse_type
  by unfold_locales

interpretation resumeWrites_m: unary_method ResumeWritesRequest_type ResumeWritesResponse_type
  by unfold_locales

interpretation join_m: unary_method JoinRequest_type JoinResponse_type
  by unfold_locales

interpretation leader_m: unary_method LeaderRequest_type LeaderResponse_type
  by unfold_locales

interpretation demoteVoter_m: unary_method DemoteVoterRequest_type DemoteVoterResponse_type
  by unfold_locales

interpretation reloadConfig_m: unary_method ReloadConfigRequest_type ReloadConfigResponse_type
  by unfold_locales

lemma KV_stubs:
  assumes "message_codec_ok G" and "find_method_ok G" and "serves target KV w"
  shows "kVClient_Get (NewKVClient (Invoke G L target)) getReq w = rpc target (kv_Get L getReq) w"
    and "kVClient_Put (NewKVClient (Invoke G L target)) putReq w = rpc target (kv_Put L putReq) w"
    and "kVClient_Delete (NewKVClient (Invoke G L target)) deleteReq w = rpc target (kv_Delete L deleteReq) w"
  unfolding kVClient_Get_def kVClient_Put_def kVClient_Delete_def NewKVClient_def kVClient.simps
  apply (rule get_m.KV_call [OF assms, where m = "''Get''" and handler = KV_Get_Handler]; simp add: stub_defs)
  apply (rule put_m.KV_call [OF assms, where m = "''Put''" and handler = KV_Put_Handler]; simp add: stub_defs)
  apply (rule delete_m.KV_call [OF assms, where m = "''Delete''" and handler = KV_Delete_Handler]; simp add: stub_defs)
  done

lemma ShardRPC_stubs:
  assumes "message_codec_ok G" and "find_method_ok G" and "serves target ShardRPC w"
  shows "shardRPCClient_Get (NewShardRPCClient (Invoke G L target)) getReq w = rpc target (shard_Get getReq) w"
    and "shardRPCClient_Put (NewShardRPCClient (Invoke G L target)) internalPutReq w = rpc target (shard_Put L internalPutReq) w"
    and "shardRPCClient_Delete (NewShardRPCClient (Invoke G L target)) deleteReq w = rpc target (shard_Delete L deleteReq) w"
    and "shardRPCClient_PauseWrites (NewShardRPCClient (Invoke G L target)) pauseWritesReq w = rpc target (shard_PauseWrites L pauseWritesReq) w"
    and "shardRPCClient_RedistributeKeys (NewShardRPCClient (Invoke G L target)) redistributeKeysReq w = rpc target (shard_RedistributeKeys L redistributeKeysReq) w"
    and "shardRPCClient_ResumeWrites (NewShardRPCClient (Invoke G L target)) resumeWritesReq w = rpc target (shard_ResumeWrites L resumeWritesReq) w"
  unfolding shardRPCClient_Get_def shardRPCClient_Put_def shardRPCClient_Delete_def shardRPCClient_PauseWrites_def shardRPCClient_RedistributeKeys_def shardRPCClient_ResumeWrites_def NewShardRPCClient_def shardRPCClient.simps
  apply (rule get_m.ShardRPC_call [OF assms, where m = "''Get''" and handler = ShardRPC_Get_Handler]; simp add: stub_defs)
  apply (rule internalPut_m.ShardRPC_call [OF assms, where m = "''Put''" and handler = ShardRPC_Put_Handler]; simp add: stub_defs)
  apply (rule delete_m.ShardRPC_call [OF assms, where m = "''Delete''" and handler = ShardRPC_Delete_Handler]; simp add: stub_defs)
  apply (rule pauseWrites_m.ShardRPC_call [OF assms, where m = "''PauseWrites''" and handler = ShardRPC_PauseWrites_Handler]; simp add: stub_defs)
  apply (rule redistributeKeys_m.ShardRPC_call [OF assms, where m = "''RedistributeKeys''" and handler = ShardRPC_RedistributeKeys_Handler]; simp add: stub_defs)
  apply (rule resumeWrites_m.ShardRPC_call [OF assms, where m = "''ResumeWrites''" and handler = ShardRPC_ResumeWrites_Handler]; simp add: stub_defs)
  done

lemma ReplicaRPC_stubs:
  assumes "message_codec_ok G" and "find_method_ok G" and "serves target ReplicaRPC w"
  shows "replicaRPCClient_Put (NewReplicaRPCClient (Invoke G L target)) internalPutReq w = rpc target (replica_Put L internalPutReq) w"
    and "replicaRPCClient_Delete (NewReplicaRPCClient (Invoke G L target)) deleteReq w = rpc target (replica_Delete L deleteReq) w"
    and "replicaRPCClient_Join (NewReplicaRPCClient (Invoke G L target)) joinReq w = rpc target (replica_Join L joinReq) w"
    and "replicaRPCClient_Leader (NewReplicaRPCClient (Invoke G L target)) leaderReq w = rpc target (replica_Leader L leaderReq) w"
    and "replicaRPCClient_DemoteVoter (NewReplicaRPCClient (Invoke G L target)) demoteVoterReq w = rpc target (replica_DemoteVoter L demoteVoterReq) w"
    and "replicaRPCClient_PauseWrites (NewReplicaRPCClient (Invoke G L target)) pauseWritesReq w = rpc target (replica_PauseWrites L pauseWritesReq) w"
    and "replicaRPCClient_RedistributeKeys (NewReplicaRPCClient (Invoke G L target)) redistributeKeysReq w = rpc target (replica_RedistributeKeys L redistributeKeysReq) w"
    and "replicaRPCClient_ResumeWrites (NewReplicaRPCClient (Invoke G L target)) resumeWritesReq w = rpc target (replica_ResumeWrites L resumeWritesReq) w"
    and "replicaRPCClient_ReloadConfig (NewReplicaRPCClient (Invoke G L target)) reloadConfigReq w = rpc target (replica_ReloadConfig L reloadConfigReq) w"
  unfolding replicaRPCClient_Put_def replicaRPCClient_Delete_def replicaRPCClient_Join_def replicaRPCClient_Leader_def replicaRPCClient_DemoteVoter_def replicaRPCClient_PauseWrites_def replicaRPCClient_RedistributeKeys_def replicaRPCClient_ResumeWrites_def replicaRPCClient_ReloadConfig_def NewReplicaRPCClient_def replicaRPCClient.simps
  apply (rule internalPut_m.ReplicaRPC_call [OF assms, where m = "''Put''" and handler = ReplicaRPC_Put_Handler]; simp add: stub_defs)
  apply (rule delete_m.ReplicaRPC_call [OF assms, where m = "''Delete''" and handler = ReplicaRPC_Delete_Handler]; simp add: stub_defs)
  apply (rule join_m.ReplicaRPC_call [OF assms, where m = "''Join''" and handler = ReplicaRPC_Join_Handler]; simp add: stub_defs)
  apply (rule leader_m.ReplicaRPC_call [OF assms, where m = "''Leader''" and handler = ReplicaRPC_Leader_Handler]; simp add: stub_defs)
  apply (rule demoteVoter_m.ReplicaRPC_call [OF assms, where m = "''DemoteVoter''" and handler = ReplicaRPC_DemoteVoter_Handler]; simp add: stub_defs)
  apply (rule pauseWrites_m.ReplicaRPC_call [OF assms, where m = "''PauseWrites''" and handler = ReplicaRPC_PauseWrites_Handler]; simp add: stub_defs)
  apply (rule redistributeKeys_m.ReplicaRPC_call [OF assms, where m = "''RedistributeKeys''" and handler = ReplicaRPC_RedistributeKeys_Handler]; simp add: stub_defs)
  apply (rule resumeWrites_m.ReplicaRPC_call [OF assms, where m = "''ResumeWrites''" and handler = ReplicaRPC_ResumeWrites_Handler]; simp add: stub_defs)
  apply (rule reloadConfig_m.ReplicaRPC_call [OF assms, where m = "''ReloadConfig''" and handler = ReplicaRPC_ReloadConfig_Handler]; simp add: stub_defs)
  done

text \<open>C15: the stubs and the servers fit together.  A call of a client method through a connection whose target
  serves the method's service does exactly what running the process's own method of that name there does,
  on every branch: names, request and response types agree, no method is left unimplemented, and encoding
  loses nothing.\<close>

theorem stub_calls_reach_methods:
  assumes "message_codec_ok G" and "find_method_ok G"
  shows "(serves target KV w \<longrightarrow>
      kVClient_Get (NewKVClient (Invoke G L target)) getReq w = rpc target (kv_Get L getReq) w \<and>
      kVClient_Put (NewKVClient (Invoke G L target)) putReq w = rpc target (kv_Put L putReq) w \<and>
      kVClient_Delete (NewKVClient (Invoke G L target)) deleteReq w = rpc target (kv_Delete L deleteReq) w) \<and>
    (serves target ShardRPC w \<longrightarrow>
      shardRPCClient_Get (NewShardRPCClient (Invoke G L target)) getReq w = rpc target (shard_Get getReq) w \<and>
      shardRPCClient_Put (NewShardRPCClient (Invoke G L target)) internalPutReq w = rpc target (shard_Put L internalPutReq) w \<and>
      shardRPCClient_Delete (NewShardRPCClient (Invoke G L target)) deleteReq w = rpc target (shard_Delete L deleteReq) w \<and>
      shardRPCClient_PauseWrites (NewShardRPCClient (Invoke G L target)) pauseWritesReq w = rpc target (shard_PauseWrites L pauseWritesReq) w \<and>
      shardRPCClient_RedistributeKeys (NewShardRPCClient (Invoke G L target)) redistributeKeysReq w = rpc target (shard_RedistributeKeys L redistributeKeysReq) w \<and>
      shardRPCClient_ResumeWrites (NewShardRPCClient (Invoke G L target)) resumeWritesReq w = rpc target (shard_ResumeWrites L resumeWritesReq) w) \<and>
    (serves target ReplicaRPC w \<longrightarrow>
      replicaRPCClient_Put (NewReplicaRPCClient (Invoke G L target)) internalPutReq w = rpc target (replica_Put L internalPutReq) w \<and>
      replicaRPCClient_Delete (NewReplicaRPCClient (Invoke G L target)) deleteReq w = rpc target (replica_Delete L deleteReq) w \<and>
      replicaRPCClient_Join (NewReplicaRPCClient (Invoke G L target)) joinReq w = rpc target (replica_Join L joinReq) w \<and>
      replicaRPCClient_Leader (NewReplicaRPCClient (Invoke G L target)) leaderReq w = rpc target (replica_Leader L leaderReq) w \<and>
      replicaRPCClient_DemoteVoter (NewReplicaRPCClient (Invoke G L target)) demoteVoterReq w = rpc target (replica_DemoteVoter L demoteVoterReq) w \<and>
      replicaRPCClient_PauseWrites (NewReplicaRPCClient (Invoke G L target)) pauseWritesReq w = rpc target (replica_PauseWrites L pauseWritesReq) w \<and>
      replicaRPCClient_RedistributeKeys (NewReplicaRPCClient (Invoke G L target)) redistributeKeysReq w = rpc target (replica_RedistributeKeys L redistributeKeysReq) w \<and>
      replicaRPCClient_ResumeWrites (NewReplicaRPCClient (Invoke G L target)) resumeWritesReq w = rpc target (replica_ResumeWrites L resumeWritesReq) w \<and>
      replicaRPCClient_ReloadConfig (NewReplicaRPCClient (Invoke G L target)) reloadConfigReq w = rpc target (replica_ReloadConfig L reloadConfigReq) w)"
  by (simp add: KV_stubs [OF assms] ShardRPC_stubs [OF assms] ReplicaRPC_stubs [OF assms])

section \<open>A name no method has\<close>

lemma find_no_method:
  assumes "find_method_ok G" and "\<forall>m \<in> set ms. name \<noteq> ''/'' @ s @ ''/'' @ m"
  shows "find_method G [(s, ms)] name = None"
proof -
  have "[(s', m'). (s', ms') \<leftarrow> [(s, ms)], m' \<leftarrow> ms', name = ''/'' @ s' @ ''/'' @ m'] = []"
    using assms(2) by (induction ms) auto
  then show ?thesis using assms(1) unfolding find_method_ok_def by (simp only: list.case)
qed

text \<open>A call of a method that the service at the port does not have, such as one of another service, is
  answered with an error and changes nothing.\<close>

lemma unknown_method_refused:
  assumes "find_method_ok G" and "\<forall>m \<in> set (map fst (Methods desc)). name \<noteq> ''/'' @ ServiceName desc @ ''/'' @ m"
  shows "serve_method G desc srv name bytes w = (Return (Inl (unknown_method G name)), w)"
  using find_no_method [OF assms] by (simp add: serve_method_def ret_def)

lemma listen_address_host_port: "CHR '':'' \<notin> set host \<Longrightarrow> listen_address (host_port host port) = host_port [] port"
  by (induction host) (auto simp: listen_address_def host_port_def)

section \<open>A concrete library\<close>

definition demo_grpc :: "message grpc_lib" where
  "demo_grpc =
     \<lparr>grpc_Marshal = Inr,
      grpc_Unmarshal = (\<lambda>m0 m. if message_name m0 = message_name m then Inr m else Inl (StatusErr ''Internal'' [])),
      find_method = (\<lambda>services name.
        case [(s, m). (s, ms) \<leftarrow> services, m \<leftarrow> ms, name = ''/'' @ s @ ''/'' @ m] of [] \<Rightarrow> None | x # _ \<Rightarrow> Some x),
      unknown_method = (\<lambda>name. StatusErr ''Unimplemented'' (''unknown method '' @ name))\<rparr>"

lemma demo_grpc_ok: "message_codec_ok demo_grpc" "find_method_ok demo_grpc"
  by (simp_all add: message_codec_ok_def find_method_ok_def demo_grpc_def)

theorem stub_calls_reach_methods_witness:
  "\<exists>w'. shardRPCClient_Get (NewShardRPCClient (Invoke demo_grpc demo_shard_lib (host_port ''s-0'' 8081))) \<lparr>GetRequest_Key = ''k''\<rparr>
     (demo_world [(''k'', ''v'')] []) = (Return (Inr \<lparr>GetResponse_Value = ''v''\<rparr>), w')"
proof -
  let ?t = "host_port ''s-0'' 8081" and ?w = "demo_world [(''k'', ''v'')] []"
  have "serves ?t ShardRPC ?w" by (simp add: serves_def listen_address_host_port) (simp add: demo_process_def)
  then have "shardRPCClient_Get (NewShardRPCClient (Invoke demo_grpc demo_shard_lib ?t)) \<lparr>GetRequest_Key = ''k''\<rparr> ?w =
      rpc ?t (shard_Get \<lparr>GetRequest_Key = ''k''\<rparr>) ?w"
    using stub_calls_reach_methods [OF demo_grpc_ok] by blast
  then show ?thesis by (simp add: shard_Get_def demo_eval)
qed

end
