(* ===== verification/Kv_Client.thy ===== *)
theory Kv_Client
  imports Shard_Correct
begin

text \<open>
  The command-line client, \<open>cmd/client/client.go\<close>: reading the manifest of the store, filling the
  store with dummy data, and the menu over the key-value service of one shard.  A session is the
  unread input, what was printed so far and the world of shard processes the calls go to.  How
  \<open>fmt.Scanln\<close> splits the input is a parameter; the client only relies on whether a call assigned its
  variable.  The menu is a loop that may never end, so it is a \<open>partial_function\<close>.
\<close>

section \<open>The manifest\<close>

record KvctlSpec =
  kspec_Shards :: int
  kspec_Replicas :: int
  kspec_IngressDomain :: string
  kspec_PodSpec :: string

record KvctlMetadata =
  kmeta_Name :: string
  kmeta_Namespace :: string
  kmeta_Labels :: "(string \<times> string) list"

record KvctlConfig =
  kcfg_ApiVersion :: string
  kcfg_Kind :: string
  kcfg_Metadata :: KvctlMetadata
  kcfg_Spec :: KvctlSpec

section \<open>Sessions\<close>

record ('i, 'r) session =
  stdin :: 'i
  stdout :: "string list"
  net :: "'r world"

text \<open>A \<open>Scanln\<close> returns the value it assigned, if any, and the input it left unread.\<close>

record 'i client_lib =
  yaml_Unmarshal :: "string \<Rightarrow> err + KvctlConfig"
  grpc_Dial :: "string \<Rightarrow> err option"
  Scanln_int :: "'i \<Rightarrow> int option \<times> 'i"
  Scanln_string :: "'i \<Rightarrow> string option \<times> 'i"

definition print_out :: "string \<Rightarrow> (('i, 'r) session, unit) prog" where
  "print_out t c = (Return (), c\<lparr>stdout := stdout c @ [t]\<rparr>)"

definition println :: "string \<Rightarrow> (('i, 'r) session, unit) prog" where
  "println t = print_out (t @ [CHR 0x0A])"

definition scan_int :: "'i client_lib \<Rightarrow> int \<Rightarrow> (('i, 'r) session, int) prog" where
  "scan_int K old c =
     (case Scanln_int K (stdin c) of (x, rest) \<Rightarrow> (Return (case x of None \<Rightarrow> old | Some n \<Rightarrow> n), c\<lparr>stdin := rest\<rparr>))"

definition scan_string :: "'i client_lib \<Rightarrow> (('i, 'r) session, string) prog" where
  "scan_string K c =
     (case Scanln_string K (stdin c) of (x, rest) \<Rightarrow> (Return (case x of None \<Rightarrow> [] | Some t \<Rightarrow> t), c\<lparr>stdin := rest\<rparr>))"

definition on_net :: "('r, 'a) act \<Rightarrow> (('i, 'r) session, 'a) prog" where
  "on_net m c = (case m (net c) of (x, w) \<Rightarrow> (x, c\<lparr>net := w\<rparr>))"

section \<open>The client\<close>

definition client_address :: "KvctlConfig \<Rightarrow> int \<Rightarrow> string" where
  "client_address cfg i =
     kmeta_Name (kcfg_Metadata cfg) @ ''-shard-'' @ itoa i @ ''.'' @ kspec_IngressDomain (kcfg_Spec cfg) @ '':80''"

definition dummy_put :: "('b, 'r, 'z) shard_lib_scheme \<Rightarrow> string \<Rightarrow> int \<Rightarrow> (('i, 'r) session, unit) prog" where
  "dummy_put L address i =
     bind_act (println (''Setting key '' @ itoa i)) (\<lambda>_.
     bind_act (on_net (rpc address (kv_Put L \<lparr>PutRequest_Key = itoa i, PutRequest_Value = itoa (100 - i)\<rparr>))) (\<lambda>res.
     case res of Inl e \<Rightarrow> println (Error e) | Inr _ \<Rightarrow> ret ()))"

fun dummy_loop :: "('b, 'r, 'z) shard_lib_scheme \<Rightarrow> string \<Rightarrow> int list \<Rightarrow> (('i, 'r) session, unit) prog" where
  "dummy_loop L address [] = ret ()"
| "dummy_loop L address (i # is) = bind_act (dummy_put L address i) (\<lambda>_. dummy_loop L address is)"

definition menu_get :: "('b, 'r, 'z) shard_lib_scheme \<Rightarrow> 'i client_lib \<Rightarrow> string \<Rightarrow> (('i, 'r) session, unit) prog" where
  "menu_get L K address =
     bind_act (print_out ''Enter key to get: '') (\<lambda>_.
     bind_act (scan_string K) (\<lambda>key.
     bind_act (on_net (rpc address (kv_Get L \<lparr>GetRequest_Key = key\<rparr>))) (\<lambda>res.
     case res of Inl e \<Rightarrow> println (Error e) | Inr resp \<Rightarrow> println (GetResponse_Value resp))))"

definition menu_put :: "('b, 'r, 'z) shard_lib_scheme \<Rightarrow> 'i client_lib \<Rightarrow> string \<Rightarrow> (('i, 'r) session, unit) prog" where
  "menu_put L K address =
     bind_act (print_out ''Enter key to put: '') (\<lambda>_.
     bind_act (scan_string K) (\<lambda>key.
     bind_act (print_out ''Enter value to put: '') (\<lambda>_.
     bind_act (scan_string K) (\<lambda>value.
     bind_act (on_net (rpc address (kv_Put L \<lparr>PutRequest_Key = key, PutRequest_Value = value\<rparr>))) (\<lambda>res.
     case res of Inl e \<Rightarrow> println (Error e) | Inr _ \<Rightarrow> ret ())))))"

definition menu_delete :: "('b, 'r, 'z) shard_lib_scheme \<Rightarrow> 'i client_lib \<Rightarrow> string \<Rightarrow> (('i, 'r) session, unit) prog" where
  "menu_delete L K address =
     bind_act (print_out ''Enter key to delete: '') (\<lambda>_.
     bind_act (scan_string K) (\<lambda>key.
     bind_act (on_net (rpc address (kv_Delete L \<lparr>DeleteRequest_Key = key\<rparr>))) (\<lambda>res.
     case res of Inl e \<Rightarrow> println (Error e) | Inr _ \<Rightarrow> ret ())))"

fun println_all :: "string list \<Rightarrow> (('i, 'r) session, unit) prog" where
  "println_all [] = ret ()"
| "println_all (t # ts) = bind_act (println t) (\<lambda>_. println_all ts)"

definition read_choice :: "'i client_lib \<Rightarrow> int \<Rightarrow> (('i, 'r) session, int) prog" where
  "read_choice K choice =
     bind_act (println_all [''Menu:'', ''1. Get'', ''2. Put'', ''3. Delete'', ''4. Quit'']) (\<lambda>_.
     bind_act (print_out ''Enter your choice: '') (\<lambda>_. scan_int K choice))"

definition menu_case :: "('b, 'r, 'z) shard_lib_scheme \<Rightarrow> 'i client_lib \<Rightarrow> string \<Rightarrow> int \<Rightarrow> (('i, 'r) session, unit) prog" where
  "menu_case L K address choice =
     (if choice = 1 then menu_get L K address
      else if choice = 2 then menu_put L K address
      else if choice = 3 then menu_delete L K address
      else if choice = 4 then println ''Quitting...''
      else println ''Invalid choice. Please enter a valid option.'')"

definition menu_step :: "('b, 'r, 'z) shard_lib_scheme \<Rightarrow> 'i client_lib \<Rightarrow> string \<Rightarrow> int \<Rightarrow> (('i, 'r) session, int) prog" where
  "menu_step L K address choice =
     bind_act (read_choice K choice) (\<lambda>choice'. bind_act (menu_case L K address choice') (\<lambda>_. ret choice'))"

partial_function (option) menu_loop ::
  "('b, 'r, 'z) shard_lib_scheme \<Rightarrow> 'i client_lib \<Rightarrow> string \<Rightarrow> int \<Rightarrow> ('i, 'r) session \<Rightarrow> (unit outcome \<times> ('i, 'r) session) option" where
  "menu_loop L K address choice c =
     (case menu_step L K address choice c of
        (Return choice', c') \<Rightarrow> if choice' = 4 then Some (Return (), c') else menu_loop L K address choice' c'
      | (Panic, c') \<Rightarrow> Some (Panic, c')
      | (Diverge, c') \<Rightarrow> Some (Diverge, c'))"

definition run_menu :: "('b, 'r, 'z) shard_lib_scheme \<Rightarrow> 'i client_lib \<Rightarrow> string \<Rightarrow> int \<Rightarrow> (('i, 'r) session, unit) prog" where
  "run_menu L K address choice c = (case menu_loop L K address choice c of None \<Rightarrow> (Diverge, c) | Some res \<Rightarrow> res)"

datatype client_exit = Finished | Fatal string

definition read_manifest :: "'i client_lib \<Rightarrow> string \<Rightarrow> err + string \<Rightarrow> string + KvctlConfig" where
  "read_manifest K path file =
     (case file of
        Inl e \<Rightarrow> Inl (''Unable to read config file at '' @ path @ '': '' @ Error e)
      | Inr buf \<Rightarrow>
          (case yaml_Unmarshal K buf of
             Inl e \<Rightarrow> Inl (''Unable to parse config file at '' @ path @ '': '' @ Error e)
           | Inr cfg \<Rightarrow> Inr cfg))"

definition dial :: "'i client_lib \<Rightarrow> string \<Rightarrow> (('i, 'r) session, unit) prog" where
  "dial K address = (case grpc_Dial K address of None \<Rightarrow> ret () | Some e \<Rightarrow> panic)"

definition shard_line :: "KvctlConfig \<Rightarrow> int \<Rightarrow> string" where
  "shard_line cfg i = itoa i @ ''. '' @ kmeta_Name (kcfg_Metadata cfg) @ ''-shard-'' @ itoa i"

definition client_main ::
  "('b, 'r, 'z) shard_lib_scheme \<Rightarrow> 'i client_lib \<Rightarrow> string \<Rightarrow> err + string \<Rightarrow> bool \<Rightarrow> (('i, 'r) session, client_exit) prog" where
  "client_main L K path file dummyData =
     (case read_manifest K path file of
        Inl msg \<Rightarrow> ret (Fatal msg)
      | Inr cfg \<Rightarrow>
          if dummyData then
            bind_act (dial K (client_address cfg 0)) (\<lambda>_.
            bind_act (dummy_loop L (client_address cfg 0) [0..99]) (\<lambda>_. ret Finished))
          else
            bind_act (println_all ([kcfg_ApiVersion cfg, ''Select shard to communicate: ''] @
              map (shard_line cfg) [0..kspec_Shards (kcfg_Spec cfg) - 1])) (\<lambda>_.
            bind_act (print_out ''Choice: '') (\<lambda>_.
            bind_act (scan_int K 0) (\<lambda>choice.
            bind_act (dial K (client_address cfg choice)) (\<lambda>_.
            bind_act (run_menu L K (client_address cfg choice) choice) (\<lambda>_. ret Finished))))))"

section \<open>Writing and reading through the menu\<close>

text \<open>The process that answers for a key when a client calls the service at \<open>address\<close>.\<close>

definition client_destination :: "('b, 'r, 'z) shard_lib_scheme \<Rightarrow> string \<Rightarrow> string \<Rightarrow> 'r world \<Rightarrow> string option" where
  "client_destination L address key w =
     (case route w (clock w) address of
        None \<Rightarrow> None
      | Some s \<Rightarrow> destination L s key (w\<lparr>clock := Suc (clock w)\<rparr>))"

lemma rpc_not_Panic: "rpc target handler w \<noteq> (Panic, w')"
  by (auto simp: rpc_def Let_def split: option.splits fate.splits prod.splits outcome.splits)

lemma reachable_clock:
  assumes "reachable L w"
  shows "reachable L (w\<lparr>clock := n\<rparr>)"
proof -
  have "world_step L w (w\<lparr>clock := n\<rparr>)" by (rule step_network) simp
  then show ?thesis using assms unfolding reachable_def by (blast intro: rtranclp.rtrancl_into_rtrancl)
qed

lemma session_simps [simp]:
  "println t c = (Return (), c\<lparr>stdout := stdout c @ [t @ [CHR 0x0A]]\<rparr>)"
  "print_out t c = (Return (), c\<lparr>stdout := stdout c @ [t]\<rparr>)"
  by (simp_all add: println_def print_out_def)

lemma menu_put_silent:
  assumes "menu_put L K address c = (Return (), c1)"
    and "Scanln_string K (stdin c) = (Some key, i1)" and "Scanln_string K i1 = (Some v, i2)"
    and "stdout c1 = stdout c @ [''Enter key to put: '', ''Enter value to put: '']"
  shows "\<exists>x. rpc address (kv_Put L \<lparr>PutRequest_Key = key, PutRequest_Value = v\<rparr>) (net c) = (Return (Inr x), net c1)"
  using assms
  by (auto simp: menu_put_def bind_act_def scan_string_def on_net_def ret_def
      split: prod.splits outcome.splits sum.splits)

text \<open>When the menu's Put of a value printed no error, a Get of the same key that the service answers
  prints that value, as long as both calls end at the same replica.\<close>

theorem menu_put_then_get:
  assumes "raft_apply_ok L" and "entry_codec_ok L" and "reachable L (net c)" and "all_procs store_shared (net c)"
    and "Scanln_string K (stdin c) = (Some key, i1)" and "Scanln_string K i1 = (Some v, i2)"
    and "menu_put L K address c = (Return (), c1)"
    and "stdout c1 = stdout c @ [''Enter key to put: '', ''Enter value to put: '']"
    and "Scanln_string K (stdin c1) = (Some key, i3)"
    and "client_destination L address key (net c1) = client_destination L address key (net c)"
    and "rpc address (kv_Get L \<lparr>GetRequest_Key = key\<rparr>) (net c1) = (Return (Inr g), w2)"
  shows "\<exists>c2. menu_get L K address c1 = (Return (), c2) \<and>
    stdout c2 = stdout c1 @ [''Enter key to get: '', v @ [CHR 0x0A]]"
proof -
  let ?tick = "\<lambda>w. w\<lparr>clock := Suc (clock w)\<rparr>"
  from menu_put_silent [OF assms(7,5,6,8)] obtain x s where
    s: "route (net c) (clock (net c)) address = Some s"
    and put: "kv_Put L \<lparr>PutRequest_Key = key, PutRequest_Value = v\<rparr> s (?tick (net c)) = (Return (Inr x), net c1)"
    by (blast dest: rpc_Inr)
  from rpc_Inr [OF assms(11)] obtain s' where
    s': "route (net c1) (clock (net c1)) address = Some s'"
    and get: "kv_Get L \<lparr>GetRequest_Key = key\<rparr> s' (?tick (net c1)) = (Return (Inr g), w2)"
    by blast
  have "GetResponse_Value g = v"
  proof (rule put_get_value [OF assms(1,2) reachable_clock [OF assms(3)] _ put _ _ get])
    show "destination L s' key (?tick (net c1)) = destination L s key (?tick (net c))"
      using assms(10) s s' by (simp add: client_destination_def)
  qed (use assms(4) in simp_all)
  then show ?thesis
    using assms(9,11) by (simp add: menu_get_def bind_act_def scan_string_def on_net_def)
qed

text \<open>A console for evaluation: the input is the list of values the calls of \<open>Scanln\<close> are given.\<close>

definition demo_manifest :: KvctlConfig where
  "demo_manifest =
     \<lparr>kcfg_ApiVersion = ''kvctl.captainirs.dev/v1'', kcfg_Kind = ''KVStore'',
      kcfg_Metadata = \<lparr>kmeta_Name = ''s'', kmeta_Namespace = ''default'', kmeta_Labels = []\<rparr>,
      kcfg_Spec = \<lparr>kspec_Shards = 1, kspec_Replicas = 1, kspec_IngressDomain = ''localho.st'', kspec_PodSpec = []\<rparr>\<rparr>"

definition demo_console :: "(int + string) list client_lib" where
  "demo_console =
     \<lparr>yaml_Unmarshal = (\<lambda>_. Inr demo_manifest), grpc_Dial = (\<lambda>_. None),
      Scanln_int = (\<lambda>i. case i of Inl n # r \<Rightarrow> (Some n, r) | _ \<Rightarrow> (None, tl i)),
      Scanln_string = (\<lambda>i. case i of Inr t # r \<Rightarrow> (Some t, r) | _ \<Rightarrow> (None, tl i))\<rparr>"

text \<open>The Ingress host of the first shard leads to its replica.\<close>

definition demo_ingress :: "gomap \<Rightarrow> demo_node world" where
  "demo_ingress m =
     (demo_world m [])\<lparr>route := (\<lambda>n t. if t = ''s-shard-0.localho.st:80'' then Some ''r-0.s-0'' else demo_route n t)\<rparr>"

definition demo_session :: "(int + string) list \<Rightarrow> ((int + string) list, demo_node) session" where
  "demo_session i = \<lparr>stdin = i, stdout = [], net = demo_ingress []\<rparr>"

lemma demo_ingress_simps [simp]:
  "processes (demo_ingress m) = processes (demo_world m [])" "rpc_fate (demo_ingress m) n = Served None"
  "clock (demo_ingress m) = 0" "unavailable (demo_ingress m) = StatusErr ''Unavailable'' []"
  "route (demo_ingress m) n ''s-shard-0.localho.st:80'' = Some ''r-0.s-0''"
  "route (demo_ingress m) n (host_port ''s-0'' 8081) = Some ''r-0.s-0''"
  "set_process ''r-0.s-0'' (demo_process ''s-0'' m') ((demo_ingress m)\<lparr>clock := n\<rparr>) = (demo_ingress m')\<lparr>clock := n\<rparr>"
  by (auto simp: demo_ingress_def set_process_def demo_world_def host_port_def render_simps demo_route_def fun_eq_iff)

lemma demo_ingress_reachable [simp]: "reachable demo_shard_lib (demo_ingress [])"
proof -
  have "world_step demo_shard_lib (demo_world [] []) (demo_ingress [])" by (rule step_network) simp
  then show ?thesis using demo_reachable unfolding reachable_def by (blast intro: rtranclp.rtrancl_into_rtrancl)
qed

lemma demo_ingress_shared [simp]: "all_procs store_shared (demo_ingress []) "
  using demo_shared [of "[]" "[]"] by (simp add: all_procs_def wf_map_def)

lemma demo_client_eval:
  "rpc ''s-shard-0.localho.st:80'' (kv_Put demo_shard_lib \<lparr>PutRequest_Key = ''k'', PutRequest_Value = ''v''\<rparr>) (demo_ingress []) =
     (Return (Inr PutResponse), (demo_ingress [(''k'', ''v'')])\<lparr>clock := 2\<rparr>)"
  "rpc ''s-shard-0.localho.st:80'' (kv_Get demo_shard_lib \<lparr>GetRequest_Key = ''k''\<rparr>) ((demo_ingress [(''k'', ''v'')])\<lparr>clock := 2\<rparr>) =
     (Return (Inr \<lparr>GetResponse_Value = ''v''\<rparr>), (demo_ingress [(''k'', ''v'')])\<lparr>clock := 4\<rparr>)"
  by (simp_all add: kv_Put_def kv_Get_def via_shard_def shard_Put_def shard_Get_def demo_eval)

theorem menu_put_then_get_witness:
  "\<exists>c1 c2. menu_put demo_shard_lib demo_console ''s-shard-0.localho.st:80'' (demo_session [Inr ''k'', Inr ''v'', Inr ''k'']) = (Return (), c1) \<and>
     menu_get demo_shard_lib demo_console ''s-shard-0.localho.st:80'' c1 = (Return (), c2) \<and>
     stdout c2 = stdout c1 @ [''Enter key to get: '', ''v'' @ [CHR 0x0A]]"
proof -
  let ?a = "''s-shard-0.localho.st:80''" and ?c = "demo_session [Inr ''k'', Inr ''v'', Inr ''k'']"
  let ?c1 = "\<lparr>stdin = [Inr ''k''], stdout = [''Enter key to put: '', ''Enter value to put: ''],
    net = (demo_ingress [(''k'', ''v'')])\<lparr>clock := 2\<rparr>\<rparr> :: ((int + string) list, demo_node) session"
  have put: "menu_put demo_shard_lib demo_console ?a ?c = (Return (), ?c1)"
    by (simp add: menu_put_def bind_act_def scan_string_def on_net_def demo_console_def demo_session_def demo_client_eval ret_def)
  have "client_destination demo_shard_lib ?a ''k'' (net ?c1) = client_destination demo_shard_lib ?a ''k'' (net ?c)"
    by (simp add: client_destination_def destination_def locate_def demo_session_def)
  moreover have "Scanln_string demo_console (stdin ?c) = (Some ''k'', [Inr ''v'', Inr ''k''])"
    "Scanln_string demo_console [Inr ''v'', Inr ''k''] = (Some ''v'', [Inr ''k''])"
    "Scanln_string demo_console (stdin ?c1) = (Some ''k'', [])"
    by (simp_all add: demo_console_def demo_session_def)
  ultimately have "\<exists>c2. menu_get demo_shard_lib demo_console ?a ?c1 = (Return (), c2) \<and>
      stdout c2 = stdout ?c1 @ [''Enter key to get: '', ''v'' @ [CHR 0x0A]]"
    using menu_put_then_get [OF _ _ _ _ _ _ put, of "''k''" _ "''v''"] demo_client_eval(2) by (simp add: demo_session_def)
  with put show ?thesis by blast
qed

section \<open>End of input\<close>

definition at_end :: "'i client_lib \<Rightarrow> 'i \<Rightarrow> bool" where
  "at_end K i \<longleftrightarrow> Scanln_int K i = (None, i) \<and> Scanln_string K i = (None, i)"

lemma menu_case_stuck:
  assumes "at_end K (stdin c)" and "menu_case L K address choice c = (x, c')"
  shows "x \<noteq> Panic \<and> stdin c' = stdin c"
  using assms
  by (auto simp: menu_case_def menu_get_def menu_put_def menu_delete_def at_end_def bind_act_def scan_string_def
      on_net_def ret_def rpc_not_Panic split: if_splits prod.splits outcome.splits sum.splits)

lemma read_choice_stuck:
  "at_end K (stdin c) \<Longrightarrow> \<exists>out. read_choice K choice c = (Return choice, c\<lparr>stdout := out\<rparr>)"
  by (simp add: read_choice_def bind_act_def scan_int_def at_end_def ret_def) (metis session.surjective session.update_convs(2))

lemma menu_step_stuck:
  assumes "at_end K (stdin c)" and "menu_step L K address choice c = (x, c')"
  shows "(x = Return choice \<or> x = Diverge) \<and> stdin c' = stdin c"
proof -
  obtain out where r: "read_choice K choice c = (Return choice, c\<lparr>stdout := out\<rparr>)"
    using read_choice_stuck [OF assms(1)] by blast
  then show ?thesis
    using assms(2) menu_case_stuck [of K "c\<lparr>stdout := out\<rparr>" L address choice] assms(1)
    by (auto simp: menu_step_def bind_act_def ret_def split: prod.splits outcome.splits)
qed

lemma menu_loop_stuck:
  assumes "menu_loop L K address choice c = Some res" and "at_end K (stdin c)" and "choice \<noteq> 4"
  shows "fst res = Diverge"
proof -
  have "at_end K (stdin c) \<and> choice \<noteq> 4 \<longrightarrow> fst res = Diverge"
    using assms(1)
  proof (rule menu_loop.raw_induct [where P = "\<lambda>L K a n c res. at_end K (stdin c) \<and> n \<noteq> 4 \<longrightarrow> fst res = Diverge", rotated],
      goal_cases)
    case (1 f L K a n c res)
    obtain x c' where step: "menu_step L K a n c = (x, c')" by (cases "menu_step L K a n c")
    show ?case
    proof
      assume stuck: "at_end K (stdin c) \<and> n \<noteq> 4"
      with menu_step_stuck [OF _ step] have "x = Return n \<or> x = Diverge" "stdin c' = stdin c" by auto
      with 1(2) step stuck 1(1) [of L K a n c' res] show "fst res = Diverge" by auto
    qed
  qed
  with assms(2,3) show ?thesis by simp
qed

lemma run_menu_stuck:
  assumes "at_end K (stdin c)"
  shows "fst (run_menu L K address choice c) = (if choice = 4 then Return () else Diverge)"
proof (cases "choice = 4")
  case True
  obtain out where "read_choice K 4 c = (Return 4, c\<lparr>stdout := out\<rparr>)" using read_choice_stuck [OF assms] by blast
  with True show ?thesis
    by (subst run_menu_def, subst menu_loop.simps) (simp add: menu_step_def bind_act_def menu_case_def ret_def)
next
  case False
  then show ?thesis
    using menu_loop_stuck [OF _ assms] by (auto simp: run_menu_def split: option.splits)
qed

lemma bind_then: "m w = (Return x, w') \<Longrightarrow> bind_act m f w = f x w'"
  by (simp add: bind_act_def)

lemma ret_then: "ret x w = (Return x, w)"
  by (simp add: ret_def)

lemma println_all_Return: "\<exists>out. println_all ts c = (Return (), c\<lparr>stdout := out\<rparr>)"
proof (induction ts arbitrary: c)
  case Nil
  have "println_all [] c = (Return (), c\<lparr>stdout := stdout c\<rparr>)" by (simp add: ret_def)
  then show ?case by blast
next
  case (Cons t ts)
  from Cons [of "c\<lparr>stdout := stdout c @ [t @ [CHR 0x0A]]\<rparr>"] show ?case by (auto simp: bind_act_def)
qed

text \<open>C32: the menu's choice is read into the variable that holds the shard's number, and a read that fails
  leaves it alone.  So when the input ends after shard \<open>n\<close> was chosen, the client quits if \<open>n\<close> is 4, the
  number of Quit, and otherwise never ends.\<close>

theorem client_at_end_of_input:
  assumes "read_manifest K path file = Inr cfg" and "grpc_Dial K (client_address cfg n) = None"
    and "Scanln_int K (stdin c) = (Some n, i)" and "at_end K i"
  shows "fst (client_main L K path file False c) = (if n = 4 then Return Finished else Diverge)"
proof -
  define ls where "ls = [kcfg_ApiVersion cfg, ''Select shard to communicate: ''] @
    map (shard_line cfg) [0..kspec_Shards (kcfg_Spec cfg) - 1]"
  obtain out where out: "println_all ls c = (Return (), c\<lparr>stdout := out\<rparr>)" using println_all_Return by blast
  let ?c = "c\<lparr>stdout := out @ [''Choice: ''], stdin := i\<rparr>"
  have "client_main L K path file False c = bind_act (run_menu L K (client_address cfg n) n) (\<lambda>_. ret Finished) ?c"
    unfolding client_main_def assms(1) sum.case if_False ls_def [symmetric]
    by (simp add: bind_then [where m = "println_all ls", OF out] bind_then [where m = "print_out t" for t, OF session_simps(2)]
        bind_then [where m = "scan_int K 0"] bind_then [where m = "ret x" for x, OF ret_then] scan_int_def assms(2,3) dial_def)
  with run_menu_stuck [of K ?c L "client_address cfg n" n] assms(4) show ?thesis
    by (auto simp: bind_act_def ret_def split: prod.splits outcome.splits)
qed

theorem client_at_end_of_input_witness:
  "fst (client_main demo_shard_lib demo_console ''kvstore.yaml'' (Inr []) False (demo_session [Inl 1])) = Diverge \<and>
   fst (client_main demo_shard_lib demo_console ''kvstore.yaml'' (Inr []) False (demo_session [Inl 4])) = Return Finished"
proof -
  have "fst (client_main demo_shard_lib demo_console ''kvstore.yaml'' (Inr []) False (demo_session [Inl n])) =
      (if n = 4 then Return Finished else Diverge)" for n
    by (rule client_at_end_of_input [where cfg = demo_manifest and i = "[]"])
      (simp_all add: read_manifest_def demo_console_def demo_session_def at_end_def)
  then show ?thesis by simp
qed

end
