(* ===== verification/Kvctl_Main.thy ===== *)
theory Kvctl_Main
  imports Kvctl_Api
begin

text \<open>
  The entry point of the operator (\<open>kvctl/cmd/main.go\<close>) with the registrations it calls:
  \<open>SetupWithManager\<close> of the controller, \<open>SetupKVStoreWebhookWithManager\<close>, and the types the API
  package adds to the scheme.  The manager and the certificate watchers belong to the controller
  runtime and are parameters; the model records what was registered with the manager, in order.  The
  lists of TLS options are Go slices over shared arrays, because the servers' lists start from the same
  slice.
\<close>

section \<open>Slices\<close>

record 'a arrays =
  array_elems :: "nat \<Rightarrow> nat \<Rightarrow> 'a"
  array_next :: nat

record slice =
  slice_array :: nat
  slice_len :: nat
  slice_cap :: nat

definition nil_slice :: slice where
  "nil_slice = \<lparr>slice_array = 0, slice_len = 0, slice_cap = 0\<rparr>"

definition elems :: "'a arrays \<Rightarrow> slice \<Rightarrow> 'a list" where
  "elems h s = map (array_elems h (slice_array s)) [0..<slice_len s]"

text \<open>\<open>append(s, x)\<close> writes behind the last element when the array has room, and otherwise copies to a
  new array with at least the room needed; how much more it takes (\<open>grow\<close>) the language leaves open.\<close>

definition slice_append :: "(nat \<Rightarrow> nat) \<Rightarrow> slice \<Rightarrow> 'a \<Rightarrow> 'a arrays \<Rightarrow> slice \<times> 'a arrays" where
  "slice_append grow s x h =
     (let n = slice_len s in
      if n < slice_cap s then
        (s\<lparr>slice_len := Suc n\<rparr>,
         h\<lparr>array_elems := (array_elems h)(slice_array s := (array_elems h (slice_array s))(n := x))\<rparr>)
      else
        (\<lparr>slice_array = array_next h, slice_len = Suc n, slice_cap = max (Suc n) (grow (Suc n))\<rparr>,
         h\<lparr>array_elems := (array_elems h)(array_next h := (array_elems h (slice_array s))(n := x)),
           array_next := Suc (array_next h)\<rparr>))"

section \<open>TLS options\<close>

text \<open>A path built by \<open>filepath.Join\<close> is kept as its two elements.\<close>

datatype path = Join string string

record CertWatcher =
  watcher_Cert :: path
  watcher_Key :: path

record tls_Config =
  NextProtos :: "string list"
  GetCertificate :: "CertWatcher option"

datatype tls_opt = DisableHTTP2 | WatchedCertificate CertWatcher

fun apply_tls_opt :: "tls_opt \<Rightarrow> tls_Config \<Rightarrow> tls_Config" where
  "apply_tls_opt DisableHTTP2 c = c\<lparr>NextProtos := [''http/1.1'']\<rparr>"
| "apply_tls_opt (WatchedCertificate w) c = c\<lparr>GetCertificate := Some w\<rparr>"

section \<open>The manager\<close>

record operator_flags =
  metricsAddr :: string
  probeAddr :: string
  enableLeaderElection :: bool
  secureMetrics :: bool
  webhookCertPath :: string
  webhookCertName :: string
  webhookCertKey :: string
  metricsCertPath :: string
  metricsCertName :: string
  metricsCertKey :: string
  enableHTTP2 :: bool

definition default_operator_flags :: operator_flags where
  "default_operator_flags =
     \<lparr>metricsAddr = ''0'', probeAddr = '':8081'', enableLeaderElection = False, secureMetrics = True,
      webhookCertPath = [], webhookCertName = ''tls.crt'', webhookCertKey = ''tls.key'',
      metricsCertPath = [], metricsCertName = ''tls.crt'', metricsCertKey = ''tls.key'', enableHTTP2 = False\<rparr>"

record metrics_Options =
  BindAddress :: string
  SecureServing :: bool
  metrics_TLSOpts :: slice
  FilterProvider :: bool

record manager_Options =
  opt_Metrics :: metrics_Options
  opt_WebhookTLSOpts :: slice
  opt_HealthProbeBindAddress :: string
  opt_LeaderElection :: bool
  opt_LeaderElectionID :: string

datatype registration =
    ClientGoTypes
  | SchemeTypes GroupVersion "string list"
  | IndexField string string
  | ControllerFor string "string list" string
  | WebhookFor string
  | RunWatcher CertWatcher
  | HealthzCheck
  | ReadyzCheck
  | ManagerStart

text \<open>The calls of the controller runtime and their errors.\<close>

record manager_lib =
  append_grow :: "nat \<Rightarrow> nat"
  certwatcher_New :: "path \<Rightarrow> path \<Rightarrow> err option"
  GetConfig :: "err option"
  NewManager :: "manager_Options \<Rightarrow> err option"
  mgr_register :: "registration \<Rightarrow> err option"
  mgr_Start :: "err option"

record startup =
  tls_arrays :: "tls_opt arrays"
  registered :: "registration list"

text \<open>A step goes on, or ends the process: \<open>os.Exit(1)\<close> after logging a message, or a panic.\<close>

datatype startup_exit = ExitOne string err | MustPanic err

type_synonym 'a startup_act = "startup \<Rightarrow> (startup_exit + 'a) \<times> startup"

definition done_act :: "'a \<Rightarrow> 'a startup_act" where
  "done_act x s = (Inr x, s)"

definition then_act :: "'a startup_act \<Rightarrow> ('a \<Rightarrow> 'b startup_act) \<Rightarrow> 'b startup_act" where
  "then_act m f s = (case m s of (Inl e, s') \<Rightarrow> (Inl e, s') | (Inr x, s') \<Rightarrow> f x s')"

definition or_exit :: "(err \<Rightarrow> startup_exit) \<Rightarrow> err option \<Rightarrow> unit startup_act" where
  "or_exit k e s = (case e of None \<Rightarrow> (Inr (), s) | Some e' \<Rightarrow> (Inl (k e'), s))"

definition register :: "manager_lib \<Rightarrow> (err \<Rightarrow> startup_exit) \<Rightarrow> registration \<Rightarrow> unit startup_act" where
  "register R k r =
     then_act (or_exit k (mgr_register R r)) (\<lambda>_ s. (Inr (), s\<lparr>registered := registered s @ [r]\<rparr>))"

fun register_all :: "manager_lib \<Rightarrow> (err \<Rightarrow> startup_exit) \<Rightarrow> registration list \<Rightarrow> unit startup_act" where
  "register_all R k [] = done_act ()"
| "register_all R k (r # rs) = then_act (register R k r) (\<lambda>_. register_all R k rs)"

definition append_opt :: "manager_lib \<Rightarrow> slice \<Rightarrow> tls_opt \<Rightarrow> slice startup_act" where
  "append_opt R sl x s =
     (case slice_append (append_grow R) sl x (tls_arrays s) of (sl', h) \<Rightarrow> (Inr sl', s\<lparr>tls_arrays := h\<rparr>))"

section \<open>Registrations\<close>

definition registered_types :: "string list" where
  "registered_types = [''KVStore'', ''KVStoreList'']"

definition operator_init :: "manager_lib \<Rightarrow> unit startup_act" where
  "operator_init R = register_all R MustPanic [ClientGoTypes, SchemeTypes kvctl_GroupVersion registered_types]"

definition shardOwnerKey :: string where
  "shardOwnerKey = ''.metadata.controller''"

definition SetupWithManager :: "manager_lib \<Rightarrow> (err \<Rightarrow> startup_exit) \<Rightarrow> unit startup_act" where
  "SetupWithManager R k =
     register_all R k
       [IndexField ''StatefulSet'' shardOwnerKey, IndexField ''Ingress'' shardOwnerKey, IndexField ''Service'' shardOwnerKey,
        ControllerFor ''KVStore'' [''StatefulSet'', ''Service'', ''Ingress'', ''ConfigMap''] ''kvstore'']"

definition SetupKVStoreWebhookWithManager :: "manager_lib \<Rightarrow> (err \<Rightarrow> startup_exit) \<Rightarrow> unit startup_act" where
  "SetupKVStoreWebhookWithManager R k = register R k (WebhookFor ''KVStore'')"

section \<open>The entry point\<close>

definition cert_watcher ::
  "manager_lib \<Rightarrow> string \<Rightarrow> string \<Rightarrow> string \<Rightarrow> string \<Rightarrow> CertWatcher option startup_act" where
  "cert_watcher R msg dir cert key =
     (if dir = [] then done_act None
      else then_act (or_exit (ExitOne msg) (certwatcher_New R (Join dir cert) (Join dir key)))
             (\<lambda>_. done_act (Some \<lparr>watcher_Cert = Join dir cert, watcher_Key = Join dir key\<rparr>)))"

definition with_watcher :: "manager_lib \<Rightarrow> CertWatcher option \<Rightarrow> slice \<Rightarrow> slice startup_act" where
  "with_watcher R w sl = (case w of None \<Rightarrow> done_act sl | Some x \<Rightarrow> append_opt R sl (WatchedCertificate x))"

definition run_watcher :: "manager_lib \<Rightarrow> string \<Rightarrow> CertWatcher option \<Rightarrow> unit startup_act" where
  "run_watcher R msg w = (case w of None \<Rightarrow> done_act () | Some x \<Rightarrow> register R (ExitOne msg) (RunWatcher x))"

definition server_options ::
  "manager_lib \<Rightarrow> operator_flags \<Rightarrow> (manager_Options \<times> CertWatcher option \<times> CertWatcher option) startup_act" where
  "server_options R fl =
     then_act (if enableHTTP2 fl then done_act nil_slice else append_opt R nil_slice DisableHTTP2) (\<lambda>tlsOpts.
     then_act (cert_watcher R ''Failed to initialize webhook certificate watcher''
       (webhookCertPath fl) (webhookCertName fl) (webhookCertKey fl)) (\<lambda>webhookCertWatcher.
     then_act (with_watcher R webhookCertWatcher tlsOpts) (\<lambda>webhookTLSOpts.
     then_act (cert_watcher R ''to initialize metrics certificate watcher''
       (metricsCertPath fl) (metricsCertName fl) (metricsCertKey fl)) (\<lambda>metricsCertWatcher.
     then_act (with_watcher R metricsCertWatcher tlsOpts) (\<lambda>metricsTLSOpts.
     done_act
       (\<lparr>opt_Metrics = \<lparr>BindAddress = metricsAddr fl, SecureServing = secureMetrics fl,
           metrics_TLSOpts = metricsTLSOpts, FilterProvider = secureMetrics fl\<rparr>,
         opt_WebhookTLSOpts = webhookTLSOpts, opt_HealthProbeBindAddress = probeAddr fl,
         opt_LeaderElection = enableLeaderElection fl, opt_LeaderElectionID = ''093d25fb.captainirs.dev''\<rparr>,
        webhookCertWatcher, metricsCertWatcher))))))"

definition register_operator ::
  "manager_lib \<Rightarrow> string \<Rightarrow> CertWatcher option \<Rightarrow> CertWatcher option \<Rightarrow> unit startup_act" where
  "register_operator R enableWebhooks webhookCertWatcher metricsCertWatcher =
     then_act (SetupWithManager R (ExitOne ''unable to create controller'')) (\<lambda>_.
     then_act (if enableWebhooks \<noteq> ''false'' then SetupKVStoreWebhookWithManager R (ExitOne ''unable to create webhook'')
               else done_act ()) (\<lambda>_.
     then_act (run_watcher R ''unable to add metrics certificate watcher to manager'' metricsCertWatcher) (\<lambda>_.
     then_act (run_watcher R ''unable to add webhook certificate watcher to manager'' webhookCertWatcher) (\<lambda>_.
     then_act (register R (ExitOne ''unable to set up health check'') HealthzCheck) (\<lambda>_.
     register R (ExitOne ''unable to set up ready check'') ReadyzCheck)))))"

definition operator_setup :: "manager_lib \<Rightarrow> operator_flags \<Rightarrow> string \<Rightarrow> manager_Options startup_act" where
  "operator_setup R fl enableWebhooks =
     then_act (operator_init R) (\<lambda>_.
     then_act (server_options R fl) (\<lambda>(opts, webhookCertWatcher, metricsCertWatcher).
     then_act (or_exit (ExitOne ''GetConfigOrDie'') (GetConfig R)) (\<lambda>_.
     then_act (or_exit (ExitOne ''unable to start manager'') (NewManager R opts)) (\<lambda>_.
     then_act (register_operator R enableWebhooks webhookCertWatcher metricsCertWatcher) (\<lambda>_. done_act opts)))))"

text \<open>\<open>Start\<close> runs the manager until it is told to stop or something fails; an error it returns comes after
  the call, when controllers may have run.\<close>

definition start_manager :: "manager_lib \<Rightarrow> unit startup_act" where
  "start_manager R =
     then_act (\<lambda>s. (Inr (), s\<lparr>registered := registered s @ [ManagerStart]\<rparr>)) (\<lambda>_.
     or_exit (ExitOne ''problem running manager'') (mgr_Start R))"

definition operator_main :: "manager_lib \<Rightarrow> operator_flags \<Rightarrow> string \<Rightarrow> manager_Options startup_act" where
  "operator_main R fl enableWebhooks =
     then_act (operator_setup R fl enableWebhooks) (\<lambda>opts.
     then_act (start_manager R) (\<lambda>_. done_act opts))"

section \<open>What is registered\<close>

definition watcher_of :: "string \<Rightarrow> string \<Rightarrow> string \<Rightarrow> CertWatcher option" where
  "watcher_of dir cert key =
     (if dir = [] then None else Some \<lparr>watcher_Cert = Join dir cert, watcher_Key = Join dir key\<rparr>)"

definition webhook_watcher :: "operator_flags \<Rightarrow> CertWatcher option" where
  "webhook_watcher fl = watcher_of (webhookCertPath fl) (webhookCertName fl) (webhookCertKey fl)"

definition metrics_watcher :: "operator_flags \<Rightarrow> CertWatcher option" where
  "metrics_watcher fl = watcher_of (metricsCertPath fl) (metricsCertName fl) (metricsCertKey fl)"

definition watcher_runs :: "CertWatcher option \<Rightarrow> registration list" where
  "watcher_runs w = (case w of None \<Rightarrow> [] | Some x \<Rightarrow> [RunWatcher x])"

text \<open>Everything the operator registers before it starts the manager, in order.\<close>

definition start_plan :: "operator_flags \<Rightarrow> string \<Rightarrow> registration list" where
  "start_plan fl enableWebhooks =
     [ClientGoTypes, SchemeTypes \<lparr>gv_Group = ''kvctl.captainirs.dev'', gv_Version = ''v1''\<rparr> [''KVStore'', ''KVStoreList''],
      IndexField ''StatefulSet'' ''.metadata.controller'', IndexField ''Ingress'' ''.metadata.controller'',
      IndexField ''Service'' ''.metadata.controller'',
      ControllerFor ''KVStore'' [''StatefulSet'', ''Service'', ''Ingress'', ''ConfigMap''] ''kvstore''] @
     (if enableWebhooks = ''false'' then [] else [WebhookFor ''KVStore'']) @
     watcher_runs (metrics_watcher fl) @ watcher_runs (webhook_watcher fl) @ [HealthzCheck, ReadyzCheck]"

text \<open>An action follows a list of registrations when it makes all of them, or fails after some first ones
  and before the last one.\<close>

definition follows :: "'a startup_act \<Rightarrow> registration list \<Rightarrow> bool" where
  "follows m rs \<longleftrightarrow>
     (\<forall>s. case m s of
        (Inr x, s') \<Rightarrow> registered s' = registered s @ rs
      | (Inl e, s') \<Rightarrow> (\<exists>n \<le> length rs - 1. registered s' = registered s @ take n rs))"

lemma followsI:
  assumes "\<And>s x s'. m s = (Inr x, s') \<Longrightarrow> registered s' = registered s @ rs"
    and "\<And>s e s'. m s = (Inl e, s') \<Longrightarrow> \<exists>n \<le> length rs - 1. registered s' = registered s @ take n rs"
  shows "follows m rs"
  unfolding follows_def using assms by (auto split: prod.split sum.split)

lemma followsD:
  assumes "follows m rs"
  shows "m s = (Inr x, s') \<Longrightarrow> registered s' = registered s @ rs"
    and "m s = (Inl e, s') \<Longrightarrow> \<exists>n \<le> length rs - 1. registered s' = registered s @ take n rs"
  using assms [unfolded follows_def, rule_format, of s] by auto

lemma follows_done [intro]: "follows (done_act x) []"
  by (rule followsI) (auto simp: done_act_def)

lemma follows_or_exit [intro]: "follows (or_exit k e) []"
  by (rule followsI) (auto simp: or_exit_def split: option.splits)

lemma follows_append [intro]: "follows (append_opt R sl x) []"
  by (rule followsI) (auto simp: append_opt_def split: prod.splits)

lemma follows_register [intro]: "follows (register R k r) [r]"
  by (rule followsI) (auto simp: register_def then_act_def or_exit_def split: option.splits)

lemma follows_then:
  assumes "follows m rs" and "\<And>s x s'. m s = (Inr x, s') \<Longrightarrow> follows (f x) rs'" and "rs' \<noteq> [] \<or> rs = []"
  shows "follows (then_act m f) (rs @ rs')"
proof (rule followsI)
  fix s x s'
  assume "then_act m f s = (Inr x, s')"
  then obtain y s1 where m: "m s = (Inr y, s1)" and f: "f y s1 = (Inr x, s')"
    by (auto simp: then_act_def split: prod.splits sum.splits)
  show "registered s' = registered s @ rs @ rs'"
    using followsD(1) [OF assms(1) m] followsD(1) [OF assms(2) [OF m] f] by simp
next
  fix s e s'
  assume "then_act m f s = (Inl e, s')"
  then consider "m s = (Inl e, s')" | y s1 where "m s = (Inr y, s1)" "f y s1 = (Inl e, s')"
    by (auto simp: then_act_def split: prod.splits sum.splits)
  then show "\<exists>n \<le> length (rs @ rs') - 1. registered s' = registered s @ take n (rs @ rs')"
  proof cases
    case 1
    then obtain n where "n \<le> length rs - 1" "registered s' = registered s @ take n rs"
      using followsD(2) [OF assms(1)] by blast
    then show ?thesis by (intro exI [of _ n]) auto
  next
    case 2
    obtain n where "n \<le> length rs' - 1" "registered s' = registered s @ rs @ take n rs'"
      using followsD(1) [OF assms(1) 2(1)] followsD(2) [OF assms(2) [OF 2(1)] 2(2)] by auto
    then show ?thesis using assms(3) by (intro exI [of _ "length rs + n"]) (cases rs', auto)
  qed
qed

lemma follows_then_done:
  assumes "follows m rs"
  shows "follows (then_act m (\<lambda>y. done_act (g y))) rs"
proof (rule followsI)
  fix s e s'
  assume "then_act m (\<lambda>y. done_act (g y)) s = (Inl e, s')"
  then have "m s = (Inl e, s')" by (auto simp: then_act_def done_act_def split: prod.splits sum.splits)
  then show "\<exists>n \<le> length rs - 1. registered s' = registered s @ take n rs" by (rule followsD(2) [OF assms])
qed (auto simp: then_act_def done_act_def dest: followsD(1) [OF assms] split: prod.splits sum.splits)

lemma follows_register_all [intro]: "follows (register_all R k rs) rs"
proof (induction rs)
  case (Cons r rs)
  show ?case
  proof (cases "rs = []")
    case True
    then show ?thesis using follows_then_done [OF follows_register, where g = "\<lambda>y. y"] by simp
  next
    case False
    then show ?thesis using follows_then [where f = "\<lambda>_. register_all R k rs", OF follows_register Cons] by simp
  qed
qed auto

lemma cert_watcher_Inr:
  "cert_watcher R msg dir cert key s = (Inr w, s') \<Longrightarrow> w = watcher_of dir cert key \<and> s' = s"
  by (auto simp: cert_watcher_def watcher_of_def then_act_def or_exit_def done_act_def split: if_splits option.splits)

lemma follows_cert_watcher [intro]: "follows (cert_watcher R msg dir cert key) []"
  using follows_then_done [OF follows_or_exit] by (auto simp: cert_watcher_def)

lemma follows_with_watcher [intro]: "follows (with_watcher R w sl) []"
  by (auto simp: with_watcher_def split: option.splits)

lemma follows_run_watcher [intro]: "follows (run_watcher R msg w) (watcher_runs w)"
  by (auto simp: run_watcher_def watcher_runs_def split: option.splits)

lemmas follows_quietly = follows_then [where rs = "[]", simplified]

lemma follows_server_options: "follows (server_options R fl) []"
  unfolding server_options_def
  by (intro follows_quietly [where rs' = "[]"] follows_cert_watcher follows_with_watcher follows_done) auto

lemma follows_register_operator:
  "follows (register_operator R enableWebhooks ww mw)
     ([IndexField ''StatefulSet'' shardOwnerKey, IndexField ''Ingress'' shardOwnerKey, IndexField ''Service'' shardOwnerKey,
       ControllerFor ''KVStore'' [''StatefulSet'', ''Service'', ''Ingress'', ''ConfigMap''] ''kvstore''] @
      (if enableWebhooks = ''false'' then [] else [WebhookFor ''KVStore'']) @ watcher_runs mw @ watcher_runs ww @
      [HealthzCheck] @ [ReadyzCheck])"
  unfolding register_operator_def SetupWithManager_def SetupKVStoreWebhookWithManager_def
  by (intro follows_then follows_register_all follows_run_watcher follows_register) auto

lemma then_act_Inr:
  "then_act m f s = (Inr y, s') \<longleftrightarrow> (\<exists>x s1. m s = (Inr x, s1) \<and> f x s1 = (Inr y, s'))"
  by (auto simp: then_act_def split: prod.splits sum.splits)

lemma server_options_watchers:
  "server_options R fl s = (Inr (opts, ww, mw), s') \<Longrightarrow> ww = webhook_watcher fl \<and> mw = metrics_watcher fl"
  unfolding server_options_def webhook_watcher_def metrics_watcher_def
  by (auto simp: then_act_Inr done_act_def dest!: cert_watcher_Inr)

lemma follows_operator_setup: "follows (operator_setup R fl enableWebhooks) (start_plan fl enableWebhooks)"
proof -
  let ?rs = "drop 2 (start_plan fl enableWebhooks)"
  have plan: "follows (register_operator R enableWebhooks (webhook_watcher fl) (metrics_watcher fl)) ?rs" and ne: "?rs \<noteq> []"
    using follows_register_operator [of R enableWebhooks "webhook_watcher fl" "metrics_watcher fl"]
    by (simp_all add: start_plan_def shardOwnerKey_def)
  have "follows (operator_setup R fl enableWebhooks) ([ClientGoTypes, SchemeTypes kvctl_GroupVersion registered_types] @ ?rs)"
    unfolding operator_setup_def operator_init_def
    by (rule follows_then [OF follows_register_all], rule follows_quietly [OF follows_server_options])
      (use ne in \<open>auto dest!: server_options_watchers intro!: follows_quietly follows_or_exit follows_then_done plan\<close>)
  then show ?thesis by (simp add: start_plan_def kvctl_GroupVersion_def registered_types_def)
qed

lemma start_plan_no_start: "ManagerStart \<notin> set (start_plan fl enableWebhooks)"
  by (auto simp: start_plan_def watcher_runs_def split: option.splits)

text \<open>C30: when the operator calls \<open>Start\<close> of its manager, it has registered its types, the three owner indexes
  its lists use, the controller, the webhook unless \<open>ENABLE_WEBHOOKS\<close> is \<open>false\<close>, its certificate watchers and
  both checks, in this order.  \<open>main\<close> returns when the manager ended without error; it exits with status 1
  either after the manager ran and failed, or before, when it has registered only first ones of these, not
  all, and has not called \<open>Start\<close>.\<close>

theorem operator_starts_complete:
  "case operator_main R fl enableWebhooks s of
     (Inr opts, s') \<Rightarrow> mgr_Start R = None \<and> registered s' = registered s @ start_plan fl enableWebhooks @ [ManagerStart]
   | (Inl e, s') \<Rightarrow>
       (\<exists>e'. mgr_Start R = Some e' \<and> e = ExitOne ''problem running manager'' e' \<and>
          registered s' = registered s @ start_plan fl enableWebhooks @ [ManagerStart]) \<or>
       (\<exists>n < length (start_plan fl enableWebhooks). registered s' = registered s @ take n (start_plan fl enableWebhooks) \<and>
          ManagerStart \<notin> set (take n (start_plan fl enableWebhooks)))"
proof -
  let ?p = "start_plan fl enableWebhooks"
  obtain x s1 where prep: "operator_setup R fl enableWebhooks s = (x, s1)" by fastforce
  show ?thesis
  proof (cases x)
    case (Inl e)
    then obtain n where n: "n \<le> length ?p - 1" "registered s1 = registered s @ take n ?p"
      using followsD(2) [OF follows_operator_setup] prep by blast
    have "n < length ?p" using n(1) by (auto simp: start_plan_def)
    moreover have "ManagerStart \<notin> set (take n ?p)" using start_plan_no_start by (blast dest: in_set_takeD)
    ultimately show ?thesis using prep Inl n(2) by (auto simp: operator_main_def then_act_def)
  next
    case (Inr opts)
    then have "registered s1 = registered s @ ?p" using followsD(1) [OF follows_operator_setup] prep by blast
    then show ?thesis
      using prep Inr by (auto simp: operator_main_def start_manager_def then_act_def or_exit_def done_act_def split: option.splits)
  qed
qed

section \<open>Certificates of the servers\<close>

text \<open>A server applies its options in order to the configuration it starts from.\<close>

definition server_tls :: "startup \<Rightarrow> slice \<Rightarrow> tls_Config \<Rightarrow> tls_Config" where
  "server_tls s sl = fold apply_tls_opt (elems (tls_arrays s) sl)"

lemma register_arrays: "register R k r s = (Inr x, s') \<Longrightarrow> tls_arrays s' = tls_arrays s"
  by (auto simp: register_def then_act_def or_exit_def split: option.splits)

lemma register_all_arrays: "register_all R k rs s = (Inr x, s') \<Longrightarrow> tls_arrays s' = tls_arrays s"
  by (induction rs arbitrary: s) (auto simp: then_act_Inr done_act_def dest!: register_arrays)

lemma register_operator_arrays:
  "register_operator R enableWebhooks ww mw s = (Inr x, s') \<Longrightarrow> tls_arrays s' = tls_arrays s"
  by (auto simp: register_operator_def SetupWithManager_def SetupKVStoreWebhookWithManager_def run_watcher_def then_act_Inr done_act_def
      dest!: register_arrays register_all_arrays split: if_splits option.splits)

lemma operator_main_options:
  assumes "operator_main R fl enableWebhooks s = (Inr opts, s')"
  shows "\<exists>s1 s2. server_options R fl s1 = (Inr (opts, webhook_watcher fl, metrics_watcher fl), s2) \<and> tls_arrays s' = tls_arrays s2"
proof -
  obtain s3 where prep: "operator_setup R fl enableWebhooks s = (Inr opts, s3)" and s3: "tls_arrays s' = tls_arrays s3"
    using assms by (auto simp: operator_main_def start_manager_def then_act_Inr done_act_def or_exit_def split: option.splits)
  obtain s1 s2 ww mw where o: "server_options R fl s1 = (Inr (opts, ww, mw), s2)"
    and r: "register_operator R enableWebhooks ww mw s2 = (Inr (), s3)"
    using prep by (auto simp: operator_setup_def then_act_Inr done_act_def or_exit_def split: option.splits)
  then show ?thesis using server_options_watchers [OF o] register_operator_arrays [OF r] s3 by auto
qed

text \<open>The two lists of options as the appends leave them: both start from the shared slice, so when the
  first append left room behind its element, the second list overwrites the end of the first.\<close>

lemma server_options_appends:
  assumes "server_options R fl s = (Inr (opts, ww, mw), s')"
  shows "\<exists>t s1 s2. (if enableHTTP2 fl then done_act nil_slice else append_opt R nil_slice DisableHTTP2) s = (Inr t, s1) \<and>
    with_watcher R ww t s1 = (Inr (opt_WebhookTLSOpts opts), s2) \<and>
    with_watcher R mw t s2 = (Inr (metrics_TLSOpts (opt_Metrics opts)), s')"
proof -
  obtain t s1 w s1' s2 y s2' m s3 where
    "(if enableHTTP2 fl then done_act nil_slice else append_opt R nil_slice DisableHTTP2) s = (Inr t, s1)"
    "cert_watcher R ''Failed to initialize webhook certificate watcher'' (webhookCertPath fl) (webhookCertName fl) (webhookCertKey fl) s1 = (Inr ww, s1')"
    "with_watcher R ww t s1' = (Inr w, s2)"
    "cert_watcher R ''to initialize metrics certificate watcher'' (metricsCertPath fl) (metricsCertName fl) (metricsCertKey fl) s2 = (Inr mw, s2')"
    "with_watcher R mw t s2' = (Inr m, s3)"
    and opts: "opt_WebhookTLSOpts opts = w" "metrics_TLSOpts (opt_Metrics opts) = m" "s' = s3"
    using assms unfolding server_options_def then_act_Inr by (auto simp: done_act_def)
  then show ?thesis using cert_watcher_Inr by blast
qed

lemmas append_eval = done_act_def with_watcher_def append_opt_def slice_append_def nil_slice_def elems_def Let_def

lemma server_options_tls:
  assumes "server_options R fl s = (Inr (opts, ww, mw), s')"
  shows "elems (tls_arrays s') (opt_WebhookTLSOpts opts) =
      (if enableHTTP2 fl then [] else [DisableHTTP2]) @
      (case ww of None \<Rightarrow> [] | Some x \<Rightarrow>
         [WatchedCertificate (case mw of Some y \<Rightarrow> if enableHTTP2 fl \<or> append_grow R 1 \<le> 1 then x else y | None \<Rightarrow> x)])" (is ?web)
    and "elems (tls_arrays s') (metrics_TLSOpts (opt_Metrics opts)) =
      (if enableHTTP2 fl then [] else [DisableHTTP2]) @ (case mw of None \<Rightarrow> [] | Some y \<Rightarrow> [WatchedCertificate y])" (is ?met)
proof -
  define w m where "w = opt_WebhookTLSOpts opts" and "m = metrics_TLSOpts (opt_Metrics opts)"
  obtain t s1 s2 where 1: "(if enableHTTP2 fl then done_act nil_slice else append_opt R nil_slice DisableHTTP2) s = (Inr t, s1)"
    and 2: "with_watcher R ww t s1 = (Inr w, s2)" and 3: "with_watcher R mw t s2 = (Inr m, s')"
    using server_options_appends [OF assms] unfolding w_def m_def by blast
  have "?web \<and> ?met"
  proof (cases "enableHTTP2 fl")
    case True
    with 1 have "t = nil_slice" "s1 = s" by (simp_all add: done_act_def)
    with True 2 3 show ?thesis
      unfolding w_def [symmetric] m_def [symmetric] by (cases ww; cases mw) (auto simp: append_eval)
  next
    case False
    define a where "a = array_next (tls_arrays s)"
    from False 1 have t: "t = \<lparr>slice_array = a, slice_len = 1, slice_cap = max 1 (append_grow R 1)\<rparr>"
      and h: "array_elems (tls_arrays s1) a 0 = DisableHTTP2" "array_next (tls_arrays s1) = Suc a"
      by (auto simp: append_eval a_def)
    show ?thesis
      unfolding w_def [symmetric] m_def [symmetric]
      using False 2 3 h unfolding t by (cases ww; cases mw; cases "append_grow R 1 \<le> 1") (auto simp: append_eval)
  qed
  then show ?web ?met by blast+
qed

text \<open>C29: in an operator whose manager ran, HTTP/2 is off at both servers exactly when it was not enabled, and the
  metrics server uses its own certificate.  The webhook server uses its own certificate too, unless HTTP/2 is
  off, both certificates are configured and the first append left room in its array: then the list of the
  metrics server overwrites it and the webhook server presents the certificate of the metrics server.\<close>

theorem operator_certificates:
  assumes "operator_main R fl enableWebhooks s = (Inr opts, s')"
  shows "NextProtos (server_tls s' (opt_WebhookTLSOpts opts) c) = (if enableHTTP2 fl then NextProtos c else [''http/1.1'']) \<and>
    NextProtos (server_tls s' (metrics_TLSOpts (opt_Metrics opts)) c) = (if enableHTTP2 fl then NextProtos c else [''http/1.1'']) \<and>
    GetCertificate (server_tls s' (metrics_TLSOpts (opt_Metrics opts)) c) =
      (if metrics_watcher fl = None then GetCertificate c else metrics_watcher fl) \<and>
    GetCertificate (server_tls s' (opt_WebhookTLSOpts opts) c) =
      (if webhook_watcher fl = None then GetCertificate c
       else if metrics_watcher fl \<noteq> None \<and> \<not> enableHTTP2 fl \<and> 1 < append_grow R 1 then metrics_watcher fl
       else webhook_watcher fl)"
proof -
  obtain s1 s2 where o: "server_options R fl s1 = (Inr (opts, webhook_watcher fl, metrics_watcher fl), s2)"
    and s': "tls_arrays s' = tls_arrays s2"
    using operator_main_options [OF assms] by blast
  show ?thesis
    unfolding server_tls_def s' server_options_tls [OF o] by (auto split: option.splits)
qed

definition demo_manager :: "(nat \<Rightarrow> nat) \<Rightarrow> manager_lib" where
  "demo_manager grow = \<lparr>append_grow = grow, certwatcher_New = (\<lambda>_ _. None), GetConfig = None, NewManager = (\<lambda>_. None),
     mgr_register = (\<lambda>_. None), mgr_Start = None\<rparr>"

definition demo_operator_flags :: operator_flags where
  "demo_operator_flags = default_operator_flags\<lparr>webhookCertPath := ''/webhook'', metricsCertPath := ''/metrics''\<rparr>"

definition demo_startup :: startup where
  "demo_startup = \<lparr>tls_arrays = \<lparr>array_elems = (\<lambda>_ _. DisableHTTP2), array_next = 1\<rparr>, registered = []\<rparr>"

lemma demo_operator_main: "\<exists>opts s'. operator_main (demo_manager grow) demo_operator_flags [] demo_startup = (Inr opts, s')"
  by (simp add: operator_main_def operator_setup_def start_manager_def operator_init_def register_operator_def SetupWithManager_def SetupKVStoreWebhookWithManager_def
      register_def then_act_def or_exit_def done_act_def server_options_def cert_watcher_def with_watcher_def run_watcher_def
      append_opt_def demo_manager_def split: prod.splits)

text \<open>Growing to exactly what is needed keeps the certificates apart; doubling does not.\<close>

theorem operator_certificates_witness:
  "(\<exists>opts s'. operator_main (demo_manager (\<lambda>n. n)) demo_operator_flags [] demo_startup = (Inr opts, s') \<and>
      GetCertificate (server_tls s' (opt_WebhookTLSOpts opts) \<lparr>NextProtos = [''h2''], GetCertificate = None\<rparr>) =
        Some \<lparr>watcher_Cert = Join ''/webhook'' ''tls.crt'', watcher_Key = Join ''/webhook'' ''tls.key''\<rparr>) \<and>
   (\<exists>opts s'. operator_main (demo_manager (\<lambda>n. 2 * n)) demo_operator_flags [] demo_startup = (Inr opts, s') \<and>
      GetCertificate (server_tls s' (opt_WebhookTLSOpts opts) \<lparr>NextProtos = [''h2''], GetCertificate = None\<rparr>) =
        Some \<lparr>watcher_Cert = Join ''/metrics'' ''tls.crt'', watcher_Key = Join ''/metrics'' ''tls.key''\<rparr>)"
proof -
  let ?c = "\<lparr>NextProtos = [''h2''], GetCertificate = None\<rparr>"
  have watchers: "webhook_watcher demo_operator_flags = Some \<lparr>watcher_Cert = Join ''/webhook'' ''tls.crt'', watcher_Key = Join ''/webhook'' ''tls.key''\<rparr>"
    "metrics_watcher demo_operator_flags = Some \<lparr>watcher_Cert = Join ''/metrics'' ''tls.crt'', watcher_Key = Join ''/metrics'' ''tls.key''\<rparr>"
    "\<not> enableHTTP2 demo_operator_flags"
    by (simp_all add: webhook_watcher_def metrics_watcher_def watcher_of_def demo_operator_flags_def default_operator_flags_def)
  obtain o1 s1 o2 s2 where run: "operator_main (demo_manager (\<lambda>n. n)) demo_operator_flags [] demo_startup = (Inr o1, s1)"
    "operator_main (demo_manager (\<lambda>n. 2 * n)) demo_operator_flags [] demo_startup = (Inr o2, s2)"
    using demo_operator_main by blast
  have "append_grow (demo_manager g) = g" for g by (simp add: demo_manager_def)
  with operator_certificates [OF run(1), of ?c] operator_certificates [OF run(2), of ?c] run watchers show ?thesis by auto
qed

end
