(* ===== verification/Kvctl_DeepCopy.thy ===== *)
theory Kvctl_DeepCopy
  imports Kvctl_Main
begin

text \<open>
  The deep copies of the custom resource (\<open>kvctl/api/v1/zz_generated.deepcopy.go\<close>) on objects with
  references: metadata and pod templates refer to cells of a store, the items of a list are a slice.
  The copies of the Kubernetes types are parameters; \<open>copier_ok\<close> is what they promise.  The theorem
  shows that a copied list looks like the original and that no write through the copy reaches it, which
  is why the other theories may treat resources as values.
\<close>

section \<open>Stores and copiers\<close>

record 'c store_cells =
  cells :: "nat \<Rightarrow> 'c"
  next_cell :: nat

text \<open>A type with its deep copy, the cells a value refers to, and what can be seen of it.\<close>

record ('a, 'c, 'v) copier =
  copy_into :: "'a \<Rightarrow> 'c store_cells \<Rightarrow> 'a \<times> 'c store_cells"
  refs :: "'a \<Rightarrow> nat set"
  seen :: "'c store_cells \<Rightarrow> 'a \<Rightarrow> 'v"

definition extends :: "'c store_cells \<Rightarrow> 'c store_cells \<Rightarrow> bool" where
  "extends h h' \<longleftrightarrow> next_cell h \<le> next_cell h' \<and> (\<forall>a < next_cell h. cells h' a = cells h a)"

definition fresh_copy :: "('a, 'c, 'v) copier \<Rightarrow> 'c store_cells \<Rightarrow> 'a \<Rightarrow> 'c store_cells \<Rightarrow> 'a \<Rightarrow> bool" where
  "fresh_copy C h x h' y \<longleftrightarrow> seen C h' y = seen C h x \<and> refs C y \<subseteq> {next_cell h..<next_cell h'}"

text \<open>Documented: a deep copy looks like the original, refers only to new cells and changes no old one; what
  is seen of a value depends on the cells it refers to.\<close>

definition copier_ok :: "('a, 'c, 'v) copier \<Rightarrow> bool" where
  "copier_ok C \<longleftrightarrow>
     (\<forall>x h y h'. refs C x \<subseteq> {..<next_cell h} \<longrightarrow> copy_into C x h = (y, h') \<longrightarrow> extends h h' \<and> fresh_copy C h x h' y) \<and>
     (\<forall>x h h'. (\<forall>a \<in> refs C x. cells h a = cells h' a) \<longrightarrow> seen C h x = seen C h' x)"

section \<open>The objects\<close>

record 'p KVStoreSpec_obj =
  ospec_Shards :: "32 word"
  ospec_Replicas :: "32 word"
  ospec_IngressDomain :: string
  ospec_PodSpec :: 'p

text \<open>A \<open>metav1.Time\<close> is immutable, so its copy is the value.\<close>

type_synonym KVStoreStatus_obj = KVStoreStatus

record TypeMeta =
  type_Kind :: string
  type_APIVersion :: string

record ('m, 'p) KVStore_obj =
  okv_TypeMeta :: TypeMeta
  okv_ObjectMeta :: 'm
  okv_Spec :: "'p KVStoreSpec_obj"
  okv_Status :: KVStoreStatus_obj

record 'l KVStoreList_obj =
  olist_TypeMeta :: TypeMeta
  olist_ListMeta :: 'l
  olist_Items :: "slice option"

record ('m, 'l, 'p, 'c, 'v) copy_lib =
  ObjectMeta_copier :: "('m, 'c, 'v) copier"
  ListMeta_copier :: "('l, 'c, 'v) copier"
  PodSpec_copier :: "('p, 'c, 'v) copier"

record ('m, 'p, 'c) memory =
  mem_cells :: "'c store_cells"
  mem_arrays :: "('m, 'p) KVStore_obj arrays"

section \<open>The generated functions\<close>

definition KVStoreSpec_DeepCopyInto ::
  "('m, 'l, 'p, 'c, 'v) copy_lib \<Rightarrow> 'p KVStoreSpec_obj \<Rightarrow> 'c store_cells \<Rightarrow> 'p KVStoreSpec_obj \<times> 'c store_cells" where
  "KVStoreSpec_DeepCopyInto C x h =
     (case copy_into (PodSpec_copier C) (ospec_PodSpec x) h of (p, h') \<Rightarrow> (x\<lparr>ospec_PodSpec := p\<rparr>, h'))"

definition KVStoreSpec_DeepCopy ::
  "('m, 'l, 'p, 'c, 'v) copy_lib \<Rightarrow> 'p KVStoreSpec_obj option \<Rightarrow> 'c store_cells \<Rightarrow> 'p KVStoreSpec_obj option \<times> 'c store_cells" where
  "KVStoreSpec_DeepCopy C x h =
     (case x of None \<Rightarrow> (None, h) | Some y \<Rightarrow> apfst Some (KVStoreSpec_DeepCopyInto C y h))"

definition KVStoreStatus_DeepCopyInto :: "KVStoreStatus_obj \<Rightarrow> KVStoreStatus_obj" where
  "KVStoreStatus_DeepCopyInto x = x\<lparr>status_LastTransition := status_LastTransition x\<rparr>"

definition KVStoreStatus_DeepCopy :: "KVStoreStatus_obj option \<Rightarrow> KVStoreStatus_obj option" where
  "KVStoreStatus_DeepCopy x = (case x of None \<Rightarrow> None | Some y \<Rightarrow> Some (KVStoreStatus_DeepCopyInto y))"

definition KVStore_DeepCopyInto ::
  "('m, 'l, 'p, 'c, 'v) copy_lib \<Rightarrow> ('m, 'p) KVStore_obj \<Rightarrow> 'c store_cells \<Rightarrow> ('m, 'p) KVStore_obj \<times> 'c store_cells" where
  "KVStore_DeepCopyInto C x h =
     (case copy_into (ObjectMeta_copier C) (okv_ObjectMeta x) h of (m, h1) \<Rightarrow>
      case KVStoreSpec_DeepCopyInto C (okv_Spec x) h1 of (sp, h2) \<Rightarrow>
        (x\<lparr>okv_ObjectMeta := m, okv_Spec := sp, okv_Status := KVStoreStatus_DeepCopyInto (okv_Status x)\<rparr>, h2))"

definition KVStore_DeepCopy ::
  "('m, 'l, 'p, 'c, 'v) copy_lib \<Rightarrow> ('m, 'p) KVStore_obj option \<Rightarrow> 'c store_cells \<Rightarrow> ('m, 'p) KVStore_obj option \<times> 'c store_cells" where
  "KVStore_DeepCopy C x h = (case x of None \<Rightarrow> (None, h) | Some y \<Rightarrow> apfst Some (KVStore_DeepCopyInto C y h))"

text \<open>An interface value that holds a copied object, or the nil interface: a nil pointer does not become an
  interface with a nil inside.\<close>

definition KVStore_DeepCopyObject ::
  "('m, 'l, 'p, 'c, 'v) copy_lib \<Rightarrow> ('m, 'p) KVStore_obj option \<Rightarrow> 'c store_cells \<Rightarrow> ('m, 'p) KVStore_obj option \<times> 'c store_cells" where
  "KVStore_DeepCopyObject C x h =
     (case KVStore_DeepCopy C x h of (Some c, h') \<Rightarrow> (Some c, h') | (None, h') \<Rightarrow> (None, h'))"

definition copy_item ::
  "('m, 'l, 'p, 'c, 'v) copy_lib \<Rightarrow> nat \<Rightarrow> nat \<Rightarrow> nat \<Rightarrow> ('m, 'p, 'c) memory \<Rightarrow> ('m, 'p, 'c) memory" where
  "copy_item C src dst i mem =
     (case KVStore_DeepCopyInto C (array_elems (mem_arrays mem) src i) (mem_cells mem) of (y, h) \<Rightarrow>
        mem\<lparr>mem_cells := h,
          mem_arrays := (mem_arrays mem)\<lparr>array_elems := (array_elems (mem_arrays mem))
            (dst := (array_elems (mem_arrays mem) dst)(i := y))\<rparr>\<rparr>)"

definition KVStoreList_DeepCopyInto ::
  "('m, 'l, 'p, 'c, 'v) copy_lib \<Rightarrow> 'l KVStoreList_obj \<Rightarrow> ('m, 'p, 'c) memory \<Rightarrow> 'l KVStoreList_obj \<times> ('m, 'p, 'c) memory" where
  "KVStoreList_DeepCopyInto C x mem =
     (case copy_into (ListMeta_copier C) (olist_ListMeta x) (mem_cells mem) of (l, h) \<Rightarrow>
      let out = x\<lparr>olist_ListMeta := l\<rparr>; mem1 = mem\<lparr>mem_cells := h\<rparr> in
      case olist_Items x of
        None \<Rightarrow> (out, mem1)
      | Some sl \<Rightarrow>
          let dst = array_next (mem_arrays mem1);
              mem2 = mem1\<lparr>mem_arrays := (mem_arrays mem1)\<lparr>array_next := Suc dst\<rparr>\<rparr> in
          (out\<lparr>olist_Items := Some \<lparr>slice_array = dst, slice_len = slice_len sl, slice_cap = slice_len sl\<rparr>\<rparr>,
           fold (copy_item C (slice_array sl) dst) [0..<slice_len sl] mem2))"

definition KVStoreList_DeepCopy ::
  "('m, 'l, 'p, 'c, 'v) copy_lib \<Rightarrow> 'l KVStoreList_obj option \<Rightarrow> ('m, 'p, 'c) memory \<Rightarrow> 'l KVStoreList_obj option \<times> ('m, 'p, 'c) memory" where
  "KVStoreList_DeepCopy C x mem = (case x of None \<Rightarrow> (None, mem) | Some y \<Rightarrow> apfst Some (KVStoreList_DeepCopyInto C y mem))"

definition KVStoreList_DeepCopyObject ::
  "('m, 'l, 'p, 'c, 'v) copy_lib \<Rightarrow> 'l KVStoreList_obj option \<Rightarrow> ('m, 'p, 'c) memory \<Rightarrow> 'l KVStoreList_obj option \<times> ('m, 'p, 'c) memory" where
  "KVStoreList_DeepCopyObject C x mem =
     (case KVStoreList_DeepCopy C x mem of (Some c, mem') \<Rightarrow> (Some c, mem') | (None, mem') \<Rightarrow> (None, mem'))"

section \<open>Copies are copies\<close>

definition KVStore_copier :: "('m, 'l, 'p, 'c, 'v) copy_lib \<Rightarrow>
    (('m, 'p) KVStore_obj, 'c, TypeMeta \<times> 'v \<times> 32 word \<times> 32 word \<times> string \<times> 'v \<times> KVStoreStatus) copier" where
  "KVStore_copier C =
     \<lparr>copy_into = KVStore_DeepCopyInto C,
      refs = (\<lambda>x. refs (ObjectMeta_copier C) (okv_ObjectMeta x) \<union> refs (PodSpec_copier C) (ospec_PodSpec (okv_Spec x))),
      seen = (\<lambda>h x. (okv_TypeMeta x, seen (ObjectMeta_copier C) h (okv_ObjectMeta x), ospec_Shards (okv_Spec x),
        ospec_Replicas (okv_Spec x), ospec_IngressDomain (okv_Spec x),
        seen (PodSpec_copier C) h (ospec_PodSpec (okv_Spec x)), okv_Status x))\<rparr>"

lemma copier_copy:
  assumes "copier_ok C" and "refs C x \<subseteq> {..<next_cell h}" and "copy_into C x h = (y, h')"
  shows "extends h h'" "seen C h' y = seen C h x" "refs C y \<subseteq> {next_cell h..<next_cell h'}"
  using assms unfolding copier_ok_def fresh_copy_def by blast+

lemma copier_seen: "copier_ok C \<Longrightarrow> (\<And>a. a \<in> refs C x \<Longrightarrow> cells h a = cells h' a) \<Longrightarrow> seen C h x = seen C h' x"
  unfolding copier_ok_def by blast

lemma extends_trans: "extends h h1 \<Longrightarrow> extends h1 h2 \<Longrightarrow> extends h h2"
  unfolding extends_def by auto

lemma extends_seen: "copier_ok C \<Longrightarrow> refs C x \<subseteq> {..<next_cell h} \<Longrightarrow> extends h h' \<Longrightarrow> seen C h' x = seen C h x"
  by (rule copier_seen) (auto simp: extends_def)

lemma KVStore_copier_ok:
  assumes "copier_ok (ObjectMeta_copier C)" and "copier_ok (PodSpec_copier C)"
  shows "copier_ok (KVStore_copier C)"
proof -
  let ?M = "ObjectMeta_copier C" and ?P = "PodSpec_copier C"
  have "extends h h' \<and> fresh_copy (KVStore_copier C) h x h' y"
    if ref: "refs (KVStore_copier C) x \<subseteq> {..<next_cell h}" and copy: "KVStore_DeepCopyInto C x h = (y, h')" for x h y h'
  proof -
    obtain m h1 p where m: "copy_into ?M (okv_ObjectMeta x) h = (m, h1)"
      and p: "copy_into ?P (ospec_PodSpec (okv_Spec x)) h1 = (p, h')"
      and y: "y = x\<lparr>okv_ObjectMeta := m, okv_Spec := (okv_Spec x)\<lparr>ospec_PodSpec := p\<rparr>\<rparr>"
      using copy by (auto simp: KVStore_DeepCopyInto_def KVStoreSpec_DeepCopyInto_def KVStoreStatus_DeepCopyInto_def split: prod.splits)
    have rm: "refs ?M (okv_ObjectMeta x) \<subseteq> {..<next_cell h}" and rp: "refs ?P (ospec_PodSpec (okv_Spec x)) \<subseteq> {..<next_cell h}"
      using ref by (simp_all add: KVStore_copier_def)
    note 1 = copier_copy [OF assms(1) rm m]
    have rp1: "refs ?P (ospec_PodSpec (okv_Spec x)) \<subseteq> {..<next_cell h1}" using rp 1(1) by (auto simp: extends_def)
    note 2 = copier_copy [OF assms(2) rp1 p]
    have "seen ?M h' m = seen ?M h1 m" by (rule extends_seen [OF assms(1) _ 2(1)]) (use 1(3) in auto)
    moreover have "seen ?P h1 (ospec_PodSpec (okv_Spec x)) = seen ?P h (ospec_PodSpec (okv_Spec x))"
      by (rule extends_seen [OF assms(2) rp 1(1)])
    ultimately show ?thesis
      using 1 2 extends_trans [OF 1(1) 2(1)] by (auto simp: fresh_copy_def KVStore_copier_def y extends_def)
  qed
  moreover have "seen (KVStore_copier C) h x = seen (KVStore_copier C) h' x"
    if "\<forall>a \<in> refs (KVStore_copier C) x. cells h a = cells h' a" for x h h'
    using that copier_seen [OF assms(1), of "okv_ObjectMeta x" h h'] copier_seen [OF assms(2), of "ospec_PodSpec (okv_Spec x)" h h']
    by (simp add: KVStore_copier_def)
  ultimately show ?thesis unfolding copier_ok_def by (simp add: KVStore_copier_def [of C])
qed

text \<open>The loop over the items: after any number of steps the source array is as before and the elements
  copied so far are fresh copies.\<close>

definition items_copied ::
  "('m, 'l, 'p, 'c, 'v) copy_lib \<Rightarrow> nat \<Rightarrow> nat \<Rightarrow> nat \<Rightarrow> ('m, 'p, 'c) memory \<Rightarrow> ('m, 'p, 'c) memory \<Rightarrow> bool" where
  "items_copied C src dst n mem mem' \<longleftrightarrow>
     extends (mem_cells mem) (mem_cells mem') \<and>
     (\<forall>b. b \<noteq> dst \<longrightarrow> array_elems (mem_arrays mem') b = array_elems (mem_arrays mem) b) \<and>
     (\<forall>i < n. fresh_copy (KVStore_copier C) (mem_cells mem) (array_elems (mem_arrays mem) src i)
        (mem_cells mem') (array_elems (mem_arrays mem') dst i))"

lemma fresh_copy_extends:
  assumes "copier_ok C" and "fresh_copy C h x h1 y" and "extends h1 h2"
  shows "fresh_copy C h x h2 y"
proof -
  have "refs C y \<subseteq> {..<next_cell h1}" using assms(2) by (auto simp: fresh_copy_def)
  then have "seen C h2 y = seen C h1 y" by (rule extends_seen [OF assms(1) _ assms(3)])
  with assms(2,3) show ?thesis by (auto simp: fresh_copy_def extends_def)
qed

lemma fresh_copy_later:
  assumes "copier_ok C" and "refs C x \<subseteq> {..<next_cell h}" and "extends h h1" and "fresh_copy C h1 x h2 y"
  shows "fresh_copy C h x h2 y"
  using assms extends_seen [OF assms(1-3)] by (auto simp: fresh_copy_def extends_def)

lemma copy_items_copied:
  assumes C: "copier_ok (KVStore_copier C)" and "src \<noteq> dst"
    and valid: "\<And>i. i < n \<Longrightarrow> refs (KVStore_copier C) (array_elems (mem_arrays mem) src i) \<subseteq> {..<next_cell (mem_cells mem)}"
  shows "items_copied C src dst n mem (fold (copy_item C src dst) [0..<n] mem)"
  using valid
proof (induction n)
  case 0
  show ?case by (simp add: items_copied_def extends_def)
next
  case (Suc n)
  let ?m = "fold (copy_item C src dst) [0..<n] mem" and ?x = "array_elems (mem_arrays mem) src n"
  have IH: "items_copied C src dst n mem ?m" using Suc by simp
  then have ext: "extends (mem_cells mem) (mem_cells ?m)" and src: "array_elems (mem_arrays ?m) src = array_elems (mem_arrays mem) src"
    using assms(2) by (auto simp: items_copied_def)
  obtain y h where y: "KVStore_DeepCopyInto C ?x (mem_cells ?m) = (y, h)" by (cases "KVStore_DeepCopyInto C ?x (mem_cells ?m)")
  have x: "refs (KVStore_copier C) ?x \<subseteq> {..<next_cell (mem_cells mem)}" using Suc.prems by simp
  then have "refs (KVStore_copier C) ?x \<subseteq> {..<next_cell (mem_cells ?m)}" using ext by (auto simp: extends_def)
  from copier_copy [OF C this, of y h] y have h: "extends (mem_cells ?m) h" and "fresh_copy (KVStore_copier C) (mem_cells ?m) ?x h y"
    by (simp_all add: KVStore_copier_def fresh_copy_def)
  then have "fresh_copy (KVStore_copier C) (mem_cells mem) ?x h y" using fresh_copy_later [OF C x ext] by blast
  moreover have "fresh_copy (KVStore_copier C) (mem_cells mem) (array_elems (mem_arrays mem) src i) h (array_elems (mem_arrays ?m) dst i)"
    if "i < n" for i
    using IH that fresh_copy_extends [OF C _ h] by (simp add: items_copied_def)
  moreover have "copy_item C src dst n ?m = ?m\<lparr>mem_cells := h, mem_arrays := (mem_arrays ?m)\<lparr>array_elems := (array_elems (mem_arrays ?m))
      (dst := (array_elems (mem_arrays ?m) dst)(n := y))\<rparr>\<rparr>"
    using y src by (simp add: copy_item_def)
  ultimately show ?case
    using IH extends_trans [OF ext h] by (auto simp: items_copied_def less_Suc_eq)
qed

section \<open>Lists\<close>

definition items :: "('m, 'p, 'c) memory \<Rightarrow> 'l KVStoreList_obj \<Rightarrow> ('m, 'p) KVStore_obj list option" where
  "items mem x = map_option (elems (mem_arrays mem)) (olist_Items x)"

definition list_seen where
  "list_seen C mem x =
     (olist_TypeMeta x, seen (ListMeta_copier C) (mem_cells mem) (olist_ListMeta x),
      map_option (map (seen (KVStore_copier C) (mem_cells mem))) (items mem x))"

definition list_refs where
  "list_refs C mem x = refs (ListMeta_copier C) (olist_ListMeta x) \<union>
     (case items mem x of None \<Rightarrow> {} | Some ks \<Rightarrow> \<Union> (refs (KVStore_copier C) ` set ks))"

text \<open>All references of a list lead to cells and an array that exist.\<close>

definition list_valid where
  "list_valid C mem x \<longleftrightarrow> list_refs C mem x \<subseteq> {..<next_cell (mem_cells mem)} \<and>
     (case olist_Items x of None \<Rightarrow> True | Some sl \<Rightarrow> slice_array sl < array_next (mem_arrays mem))"

text \<open>What a holder of the list can write: the cells it refers to and the array of its items.\<close>

definition written_through where
  "written_through C x mem mem' \<longleftrightarrow>
     (\<forall>a. a \<notin> list_refs C mem x \<longrightarrow> cells (mem_cells mem') a = cells (mem_cells mem) a) \<and>
     (\<forall>b. (case olist_Items x of None \<Rightarrow> True | Some sl \<Rightarrow> b \<noteq> slice_array sl) \<longrightarrow>
        array_elems (mem_arrays mem') b = array_elems (mem_arrays mem) b)"

lemma list_seen_eq:
  assumes "copier_ok (ListMeta_copier C)" and "copier_ok (KVStore_copier C)"
    and "\<And>a. a \<in> list_refs C mem x \<Longrightarrow> cells (mem_cells mem') a = cells (mem_cells mem) a"
    and "items mem' x = items mem x"
  shows "list_seen C mem' x = list_seen C mem x"
proof -
  have "seen (ListMeta_copier C) (mem_cells mem') (olist_ListMeta x) = seen (ListMeta_copier C) (mem_cells mem) (olist_ListMeta x)"
    by (rule copier_seen [OF assms(1)]) (use assms(3) in \<open>auto simp: list_refs_def\<close>)
  moreover have "seen (KVStore_copier C) (mem_cells mem') k = seen (KVStore_copier C) (mem_cells mem) k"
    if "items mem x = Some ks" "k \<in> set ks" for k ks
    by (rule copier_seen [OF assms(2)]) (use assms(3) that in \<open>auto simp: list_refs_def\<close>)
  ultimately show ?thesis using assms(4) by (cases "items mem x") (auto simp: list_seen_def)
qed

lemma DeepCopyInto_parts:
  assumes "copier_ok (ListMeta_copier C)" and "copier_ok (KVStore_copier C)" and "list_valid C mem x"
    and "KVStoreList_DeepCopyInto C x mem = (out, mem')"
  shows "\<exists>l. olist_TypeMeta out = olist_TypeMeta x \<and> olist_ListMeta out = l \<and>
    extends (mem_cells mem) (mem_cells mem') \<and> fresh_copy (ListMeta_copier C) (mem_cells mem) (olist_ListMeta x) (mem_cells mem') l \<and>
    (case olist_Items x of
       None \<Rightarrow> olist_Items out = None \<and> mem_arrays mem' = mem_arrays mem
     | Some sl \<Rightarrow> let dst = array_next (mem_arrays mem) in
         olist_Items out = Some \<lparr>slice_array = dst, slice_len = slice_len sl, slice_cap = slice_len sl\<rparr> \<and>
         items_copied C (slice_array sl) dst (slice_len sl) mem mem')"
proof -
  obtain l h where l: "copy_into (ListMeta_copier C) (olist_ListMeta x) (mem_cells mem) = (l, h)"
    by (cases "copy_into (ListMeta_copier C) (olist_ListMeta x) (mem_cells mem)")
  have "refs (ListMeta_copier C) (olist_ListMeta x) \<subseteq> {..<next_cell (mem_cells mem)}"
    using assms(3) by (auto simp: list_valid_def list_refs_def)
  note meta = copier_copy [OF assms(1) this l]
  then have fresh: "fresh_copy (ListMeta_copier C) (mem_cells mem) (olist_ListMeta x) h l" by (simp add: fresh_copy_def)
  show ?thesis
  proof (cases "olist_Items x")
    case None
    then show ?thesis using assms(4) l meta(1) fresh by (auto simp: KVStoreList_DeepCopyInto_def)
  next
    case (Some sl)
    let ?src = "slice_array sl" and ?dst = "array_next (mem_arrays mem)" and ?n = "slice_len sl"
    define mem2 where "mem2 = mem\<lparr>mem_cells := h, mem_arrays := (mem_arrays mem)\<lparr>array_next := Suc ?dst\<rparr>\<rparr>"
    have out: "out = x\<lparr>olist_ListMeta := l, olist_Items := Some \<lparr>slice_array = ?dst, slice_len = ?n, slice_cap = ?n\<rparr>\<rparr>"
      and mem': "mem' = fold (copy_item C ?src ?dst) [0..<?n] mem2"
      using assms(4) l Some by (auto simp: KVStoreList_DeepCopyInto_def Let_def mem2_def)
    have valid: "refs (KVStore_copier C) (array_elems (mem_arrays mem) ?src i) \<subseteq> {..<next_cell (mem_cells mem)}" if "i < ?n" for i
      using assms(3) Some that by (fastforce simp: list_valid_def list_refs_def items_def elems_def)
    have copied: "items_copied C ?src ?dst ?n mem2 mem'"
      unfolding mem'
    proof (rule copy_items_copied [OF assms(2)])
      show "?src \<noteq> ?dst" using assms(3) Some by (auto simp: list_valid_def)
      show "refs (KVStore_copier C) (array_elems (mem_arrays mem2) ?src i) \<subseteq> {..<next_cell (mem_cells mem2)}" if "i < ?n" for i
        using valid [OF that] meta(1) by (auto simp: mem2_def extends_def)
    qed
    then have ext: "extends h (mem_cells mem')" by (simp add: items_copied_def mem2_def)
    have "items_copied C ?src ?dst ?n mem mem'"
      using copied extends_trans [OF meta(1) ext] fresh_copy_later [OF assms(2) valid meta(1)]
      by (auto simp: items_copied_def mem2_def)
    then show ?thesis
      using Some out fresh_copy_extends [OF assms(1) fresh ext] extends_trans [OF meta(1) ext] by (simp add: Let_def)
  qed
qed

lemma DeepCopyInto_refs:
  assumes "copier_ok (ListMeta_copier C)" and "copier_ok (KVStore_copier C)" and "list_valid C mem x"
    and "KVStoreList_DeepCopyInto C x mem = (out, mem')"
  shows "list_refs C mem' out \<inter> {..<next_cell (mem_cells mem)} = {}"
  using DeepCopyInto_parts [OF assms]
  by (cases "olist_Items x") (fastforce simp: list_refs_def items_def elems_def fresh_copy_def items_copied_def Let_def)+

lemma DeepCopyInto_seen:
  assumes "copier_ok (ListMeta_copier C)" and "copier_ok (KVStore_copier C)" and "list_valid C mem x"
    and "KVStoreList_DeepCopyInto C x mem = (out, mem')"
  shows "list_seen C mem' out = list_seen C mem x"
  using DeepCopyInto_parts [OF assms]
  by (cases "olist_Items x") (auto simp: list_seen_def items_def elems_def fresh_copy_def items_copied_def Let_def)

lemma DeepCopyInto_apart:
  assumes "copier_ok (ListMeta_copier C)" and "copier_ok (KVStore_copier C)" and valid: "list_valid C mem x"
    and copy: "KVStoreList_DeepCopyInto C x mem = (out, mem')" and through: "written_through C out mem' mem''"
  shows "list_seen C mem'' x = list_seen C mem x"
proof (rule list_seen_eq [OF assms(1,2)])
  note parts = DeepCopyInto_parts [OF assms(1-4)]
  fix a
  assume "a \<in> list_refs C mem x"
  then have "a < next_cell (mem_cells mem)" using valid by (auto simp: list_valid_def)
  moreover from this have "a \<notin> list_refs C mem' out" using DeepCopyInto_refs [OF assms(1-4)] by auto
  ultimately show "cells (mem_cells mem'') a = cells (mem_cells mem) a"
    using parts through by (auto simp: written_through_def extends_def)
next
  show "items mem'' x = items mem x"
    using DeepCopyInto_parts [OF assms(1-4)] valid through
    by (cases "olist_Items x") (auto simp: items_def elems_def written_through_def items_copied_def list_valid_def Let_def)
qed

text \<open>C31: a deep copy of a list of resources looks like the list it copies, and whatever is later written through
  the copy (its cells, the array of its items), the original still looks as it did.\<close>

theorem list_deep_copy_independent:
  assumes "copier_ok (ObjectMeta_copier C)" and "copier_ok (ListMeta_copier C)" and "copier_ok (PodSpec_copier C)"
    and "list_valid C mem x" and "KVStoreList_DeepCopyObject C (Some x) mem = (Some out, mem')"
  shows "list_seen C mem' out = list_seen C mem x \<and>
    (\<forall>mem''. written_through C out mem' mem'' \<longrightarrow> list_seen C mem'' x = list_seen C mem x)"
proof -
  have "KVStoreList_DeepCopyInto C x mem = (out, mem')"
    using assms(5) by (auto simp: KVStoreList_DeepCopyObject_def KVStoreList_DeepCopy_def apfst_def map_prod_def split: prod.splits)
  then show ?thesis
    using DeepCopyInto_seen [OF assms(2) KVStore_copier_ok [OF assms(1,3)] assms(4)]
      DeepCopyInto_apart [OF assms(2) KVStore_copier_ok [OF assms(1,3)] assms(4)] by blast
qed

text \<open>Values that refer to one cell each.\<close>

definition cell_copier :: "(nat, string, string) copier" where
  "cell_copier =
     \<lparr>copy_into = (\<lambda>r h. (next_cell h, h\<lparr>cells := (cells h)(next_cell h := cells h r), next_cell := Suc (next_cell h)\<rparr>)),
      refs = (\<lambda>r. {r}), seen = cells\<rparr>"

lemma cell_copier_ok: "copier_ok cell_copier"
  by (auto simp: copier_ok_def cell_copier_def extends_def fresh_copy_def)

definition demo_copies :: "(nat, nat, nat, string, string) copy_lib" where
  "demo_copies = \<lparr>ObjectMeta_copier = cell_copier, ListMeta_copier = cell_copier, PodSpec_copier = cell_copier\<rparr>"

definition demo_item :: "(nat, nat) KVStore_obj" where
  "demo_item = \<lparr>okv_TypeMeta = \<lparr>type_Kind = ''KVStore'', type_APIVersion = ''v1''\<rparr>, okv_ObjectMeta = 1,
     okv_Spec = \<lparr>ospec_Shards = 1, ospec_Replicas = 1, ospec_IngressDomain = ''localho.st'', ospec_PodSpec = 2\<rparr>,
     okv_Status = zero_status\<rparr>"

definition demo_list :: "nat KVStoreList_obj" where
  "demo_list = \<lparr>olist_TypeMeta = \<lparr>type_Kind = ''KVStoreList'', type_APIVersion = ''v1''\<rparr>, olist_ListMeta = 0,
     olist_Items = Some \<lparr>slice_array = 0, slice_len = 1, slice_cap = 1\<rparr>\<rparr>"

definition demo_memory :: "(nat, nat, string) memory" where
  "demo_memory = \<lparr>mem_cells = \<lparr>cells = (\<lambda>_. ''old''), next_cell = 3\<rparr>, mem_arrays = \<lparr>array_elems = (\<lambda>_ _. demo_item), array_next = 1\<rparr>\<rparr>"

text \<open>The cell of the copied item's metadata is rewritten; the original list does not change.\<close>

theorem list_deep_copy_independent_witness:
  "\<exists>out mem'. KVStoreList_DeepCopyObject demo_copies (Some demo_list) demo_memory = (Some out, mem') \<and>
     list_seen demo_copies mem' out = list_seen demo_copies demo_memory demo_list \<and>
     list_seen demo_copies (mem'\<lparr>mem_cells := (mem_cells mem')\<lparr>cells := (cells (mem_cells mem'))(4 := ''new'')\<rparr>\<rparr>) out \<noteq>
       list_seen demo_copies demo_memory demo_list \<and>
     list_seen demo_copies (mem'\<lparr>mem_cells := (mem_cells mem')\<lparr>cells := (cells (mem_cells mem'))(4 := ''new'')\<rparr>\<rparr>) demo_list =
       list_seen demo_copies demo_memory demo_list"
proof -
  obtain out mem' where run: "KVStoreList_DeepCopyObject demo_copies (Some demo_list) demo_memory = (Some out, mem')"
    by (cases "KVStoreList_DeepCopyInto demo_copies demo_list demo_memory")
      (simp add: KVStoreList_DeepCopyObject_def KVStoreList_DeepCopy_def)
  let ?mem = "mem'\<lparr>mem_cells := (mem_cells mem')\<lparr>cells := (cells (mem_cells mem'))(4 := ''new'')\<rparr>\<rparr>"
  note eval = KVStoreList_DeepCopyObject_def KVStoreList_DeepCopy_def KVStoreList_DeepCopyInto_def KVStore_DeepCopyInto_def
    KVStoreSpec_DeepCopyInto_def copy_item_def demo_copies_def cell_copier_def demo_list_def demo_memory_def Let_def
  have out: "out = demo_list\<lparr>olist_ListMeta := 3, olist_Items := Some \<lparr>slice_array = 1, slice_len = 1, slice_cap = 1\<rparr>\<rparr>"
    and item: "array_elems (mem_arrays mem') 1 0 = demo_item\<lparr>okv_ObjectMeta := 4, okv_Spec := (okv_Spec demo_item)\<lparr>ospec_PodSpec := 5\<rparr>\<rparr>"
    and old: "cells (mem_cells mem') = (\<lambda>_. ''old'')"
    using run by (auto simp: eval demo_item_def KVStoreStatus_DeepCopyInto_def fun_eq_iff)
  have valid: "list_valid demo_copies demo_memory demo_list"
    by (simp add: list_valid_def list_refs_def items_def elems_def demo_copies_def cell_copier_def KVStore_copier_def demo_list_def demo_memory_def demo_item_def)
  have through: "written_through demo_copies out mem' ?mem"
    using item by (auto simp: written_through_def list_refs_def items_def elems_def out demo_copies_def cell_copier_def KVStore_copier_def)
  have "list_seen demo_copies ?mem out \<noteq> list_seen demo_copies demo_memory demo_list"
    using item by (simp add: list_seen_def items_def elems_def out demo_copies_def cell_copier_def KVStore_copier_def demo_list_def demo_memory_def)
  moreover have "copier_ok (ObjectMeta_copier demo_copies)" "copier_ok (ListMeta_copier demo_copies)" "copier_ok (PodSpec_copier demo_copies)"
    by (simp_all add: demo_copies_def cell_copier_ok)
  note list_deep_copy_independent [OF this valid run]
  ultimately show ?thesis using run through by blast
qed

end
