(* ===== verification/Capture.thy ===== *)
theory Capture
  imports Shard_Process "HOL-Library.Sublist"
begin

text \<open>
  The packet capture (\<open>internal/capture.go\<close>): finding addresses in text and replacing them by host
  names through a cache, rendering the Raft requests, reading the requests of a TCP stream, and the loop
  over captured packets.  Name lookups, the decoder of the stream, the packet library and the printers of
  the Raft types are parameters.  The capture prints; nothing else of the program reads what it does.
\<close>

section \<open>Addresses\<close>

definition is_digit :: "char \<Rightarrow> bool" where
  "is_digit c \<longleftrightarrow> 48 \<le> (of_char c :: nat) \<and> (of_char c :: nat) \<le> 57"

fun digits_upto :: "nat \<Rightarrow> string \<Rightarrow> string \<times> string" where
  "digits_upto (Suc n) (c # s) = (if is_digit c then apfst (Cons c) (digits_upto n s) else ([], c # s))"
| "digits_upto n s = ([], s)"

text \<open>The expression \<open>\d{1,3}\.\d{1,3}\.\d{1,3}\.\d{1,3}\<close> at the start of a text, matched greedily:
  \<open>match_octets k\<close> is a group of digits and \<open>k\<close> more after dots.\<close>

fun match_octets :: "nat \<Rightarrow> string \<Rightarrow> (string \<times> string) option" where
  "match_octets k s =
     (case digits_upto 3 s of
        ([], _) \<Rightarrow> None
      | (d, r) \<Rightarrow>
          (case k of
             0 \<Rightarrow> Some (d, r)
           | Suc j \<Rightarrow>
               (case r of
                  [] \<Rightarrow> None
                | c # r' \<Rightarrow>
                    if c = CHR ''.'' then map_option (apfst (\<lambda>m. d @ c # m)) (match_octets j r') else None)))"

declare match_octets.simps [simp del]

definition ipRegex_match :: "string \<Rightarrow> (string \<times> string) option" where
  "ipRegex_match = match_octets 3"

text \<open>The language of the expression, used to show that the matcher finds the longest match.\<close>

definition octet :: "string \<Rightarrow> bool" where
  "octet d \<longleftrightarrow> d \<noteq> [] \<and> length d \<le> 3 \<and> list_all is_digit d"

fun octets :: "nat \<Rightarrow> string \<Rightarrow> bool" where
  "octets 0 m = octet m"
| "octets (Suc k) m = (\<exists>d m'. m = d @ CHR ''.'' # m' \<and> octet d \<and> octets k m')"

lemma digits_upto_split: "digits_upto n s = (d, r) \<Longrightarrow> s = d @ r \<and> length d \<le> n \<and> list_all is_digit d"
  by (induction n s arbitrary: d rule: digits_upto.induct) (auto simp: apfst_def map_prod_def split: if_splits prod.splits)

lemma digits_upto_longest:
  assumes "digits_upto n s = (d, r)" and "s = d' @ r'" and "length d' \<le> n" and "list_all is_digit d'"
  shows "length d' \<le> length d"
  using assms
proof (induction n s arbitrary: d d' rule: digits_upto.induct)
  case (1 n c s)
  then show ?case by (cases d') (auto simp: apfst_def map_prod_def split: if_splits prod.splits)
qed auto

lemma dot_no_digit [simp]: "\<not> is_digit (CHR ''.'')"
  by (simp add: is_digit_def)

lemma digits_upto_dot:
  assumes "octet d"
  shows "digits_upto 3 (d @ CHR ''.'' # r) = (d, CHR ''.'' # r)"
proof -
  have "digits_upto n (d @ CHR ''.'' # r) = (d, CHR ''.'' # r)" if "length d \<le> n" "list_all is_digit d" for n
    using that by (induction d arbitrary: n) (case_tac [!] n, auto)
  then show ?thesis using assms by (simp add: octet_def)
qed

lemma match_octets_sound: "match_octets k s = Some (m, r) \<Longrightarrow> s = m @ r \<and> octets k m"
proof (induction k arbitrary: s m)
  case 0
  then show ?case
    by (subst (asm) match_octets.simps) (auto simp: octet_def split: prod.splits list.splits dest!: digits_upto_split)
next
  case (Suc k)
  then obtain d r' m' where "digits_upto 3 s = (d, CHR ''.'' # r')" "d \<noteq> []" "match_octets k r' = Some (m', r)" "m = d @ CHR ''.'' # m'"
    by (subst (asm) (2) match_octets.simps) (auto split: prod.splits list.splits if_splits)
  then show ?case using Suc.IH digits_upto_split by (fastforce simp: octet_def)
qed

lemma match_octets_longest:
  "octets k m \<Longrightarrow> \<exists>m' r'. match_octets k (m @ r) = Some (m', r') \<and> length m \<le> length m'"
proof (induction k arbitrary: m)
  case 0
  obtain d r' where d: "digits_upto 3 (m @ r) = (d, r')" by (cases "digits_upto 3 (m @ r)")
  with 0 digits_upto_longest [OF d refl] have "length m \<le> length d" "d \<noteq> []" by (auto simp: octet_def)
  with d show ?case by (subst match_octets.simps) (auto split: list.splits)
next
  case (Suc k)
  then obtain d n where m: "m = d @ CHR ''.'' # n" "octet d" "octets k n" by auto
  with Suc.IH obtain n' r' where "match_octets k (n @ r) = Some (n', r')" "length n \<le> length n'" by blast
  with m digits_upto_dot [OF m(2), of "n @ r"] show ?case
    by (subst match_octets.simps) (auto simp: octet_def split: list.splits)
qed

lemma ipRegex_match_shorter: "ipRegex_match s = Some (m, r) \<Longrightarrow> length r < length s"
  using match_octets_sound [of 3 s m r] by (auto simp: ipRegex_match_def numeral_3_eq_3 octet_def)

section \<open>Requests\<close>

text \<open>The fields of the Raft requests that are printed.  \<open>'b\<close> is encoded data.\<close>

datatype LogType = LogCommand | LogConfiguration | LogOther nat

record 'b LogEntry =
  log_Index :: "64 word"
  log_Term :: "64 word"
  log_Type :: LogType
  log_Data :: 'b

record 'b AppendEntriesRequest =
  ae_Term :: "64 word"
  ae_Leader :: string
  ae_PrevLogEntry :: "64 word"
  ae_PrevLogTerm :: "64 word"
  ae_LeaderCommitIndex :: "64 word"
  ae_Entries :: "'b LogEntry list"

record RequestVoteRequest =
  rv_Term :: "64 word"
  rv_Candidate :: string
  rv_LastLogIndex :: "64 word"
  rv_LastLogTerm :: "64 word"
  rv_LeadershipTransfer :: bool

record 'b InstallSnapshotRequest =
  is_Term :: "64 word"
  is_Leader :: string
  is_SnapshotVersion :: int
  is_LastLogIndex :: "64 word"
  is_LastLogTerm :: "64 word"
  is_Configuration :: 'b
  is_ConfigurationIndex :: "64 word"
  is_Size :: int

record raft_Server =
  rs_ID :: string
  rs_Address :: string
  rs_Suffrage :: string

text \<open>The parameters: the answer of the n-th reverse lookup; the entry that unmarshalling leaves (also when it
  fails) and its text; decoding a configuration, which panics on data it cannot read, and its text; the name
  of a log type; reading a byte and decoding a request, with the reader each leaves.\<close>

record ('b, 'i) capture_lib =
  LookupAddr :: "nat \<Rightarrow> string \<Rightarrow> err + string list"
  Unmarshal_KVFSMLogEntry :: "'b \<Rightarrow> err option \<times> KVFSMLogEntry"
  KVFSMLogEntry_String :: "KVFSMLogEntry \<Rightarrow> string"
  DecodeConfiguration :: "'b \<Rightarrow> raft_Server list option"
  Configuration_text :: "raft_Server list \<Rightarrow> string"
  LogType_String :: "LogType \<Rightarrow> string"
  ReadByte :: "'i \<Rightarrow> (err + 8 word) \<times> 'i"
  Decode_AppendEntries :: "'i \<Rightarrow> (err + 'b AppendEntriesRequest) \<times> 'i"
  Decode_RequestVote :: "'i \<Rightarrow> (err + RequestVoteRequest) \<times> 'i"
  Decode_InstallSnapshot :: "'i \<Rightarrow> (err + 'b InstallSnapshotRequest) \<times> 'i"
  Decode_TimeoutNow :: "'i \<Rightarrow> (err + unit) \<times> 'i"

text \<open>What a capture prints: lines of the log, and text on standard output.\<close>

datatype printed = Logged string | Stdout string

record 'i capture =
  hostnameCache :: "(string \<times> string) list"
  lookups :: nat
  logged :: "printed list"
  reader :: 'i

section \<open>Host names\<close>

definition getHostFromIp :: "('b, 'i) capture_lib \<Rightarrow> string \<Rightarrow> ('i capture, string) prog" where
  "getHostFromIp K ip c =
     (let c' = c\<lparr>lookups := Suc (lookups c)\<rparr> in
      case LookupAddr K (lookups c) ip of
        Inl e \<Rightarrow> (Return ip, c')
      | Inr [] \<Rightarrow> (Panic, c')
      | Inr (h # _) \<Rightarrow> (Return h, c'))"

text \<open>\<open>strings.Replace\<close> of the first occurrence.\<close>

fun replace_first :: "string \<Rightarrow> string \<Rightarrow> string \<Rightarrow> string" where
  "replace_first old new s =
     (if prefix old s then new @ drop (length old) s
      else case s of [] \<Rightarrow> [] | c # t \<Rightarrow> c # replace_first old new t)"

declare replace_first.simps [simp del]

definition strip_domain :: "string \<Rightarrow> string" where
  "strip_domain h = (if suffix ''.kvs.svc.localho.st.'' h then replace_first ''.kvs.svc.localho.st.'' [] h else h)"

definition cached_host :: "('b, 'i) capture_lib \<Rightarrow> string \<Rightarrow> ('i capture, string) prog" where
  "cached_host K ip c =
     (case map_of (hostnameCache c) ip of
        Some h \<Rightarrow> (Return h, c)
      | None \<Rightarrow>
          bind_act (getHostFromIp K ip) (\<lambda>host c'.
            (Return (strip_domain host), c'\<lparr>hostnameCache := AList.update ip (strip_domain host) (hostnameCache c')\<rparr>)) c)"

text \<open>\<open>ReplaceAllStringFunc\<close>: the leftmost match is replaced, and the search goes on behind it.\<close>

function replace_all :: "(string \<Rightarrow> ('s, string) prog) \<Rightarrow> string \<Rightarrow> ('s, string) prog" where
  "replace_all f s =
     (case ipRegex_match s of
        Some (m, r) \<Rightarrow> bind_act (f m) (\<lambda>h. bind_act (replace_all f r) (\<lambda>t. ret (h @ t)))
      | None \<Rightarrow> (case s of [] \<Rightarrow> ret [] | c # t \<Rightarrow> bind_act (replace_all f t) (\<lambda>u. ret (c # u))))"
  by pat_completeness auto
termination
  by (relation "measure (\<lambda>(f, s). length s)") (auto dest: ipRegex_match_shorter)

declare replace_all.simps [simp del]

definition replaceIpsWithHostnames :: "('b, 'i) capture_lib \<Rightarrow> string \<Rightarrow> ('i capture, string) prog" where
  "replaceIpsWithHostnames K = replace_all (cached_host K)"

section \<open>Rendering requests\<close>

definition field :: "string \<Rightarrow> string \<Rightarrow> string" where
  "field name v = name @ v @ [CHR 0x0A]"

definition d64 :: "64 word \<Rightarrow> string" where
  "d64 w = utoa (unat w)"

definition indexed :: "'a list \<Rightarrow> (nat \<times> 'a) list" where
  "indexed xs = zip [0..<length xs] xs"

definition server_text :: "nat \<times> raft_Server \<Rightarrow> string" where
  "server_text = (\<lambda>(i, server).
     field ''        Server '' (utoa i @ '':'') @ field ''          ID: '' (rs_ID server) @
     field ''          Address: '' (rs_Address server) @ field ''          Suffrage: '' (rs_Suffrage server))"

definition log_line :: "string \<Rightarrow> ('i capture, unit) prog" where
  "log_line t c = (Return (), c\<lparr>logged := logged c @ [Logged t]\<rparr>)"

definition fmt_Printf :: "string \<Rightarrow> ('i capture, unit) prog" where
  "fmt_Printf t c = (Return (), c\<lparr>logged := logged c @ [Stdout t]\<rparr>)"

definition entry_data :: "('b, 'i) capture_lib \<Rightarrow> 'b LogEntry \<Rightarrow> ('i capture, string) prog" where
  "entry_data K e =
     (case log_Type e of
        LogCommand \<Rightarrow>
          (case Unmarshal_KVFSMLogEntry K (log_Data e) of (failed, kvLogEntry) \<Rightarrow>
             bind_act (case failed of None \<Rightarrow> ret () | Some x \<Rightarrow> fmt_Printf (''Failed to unmarshal KVFSMLogEntry: '' @ Error x)) (\<lambda>_.
             ret (field ''      Data: '' (KVFSMLogEntry_String K kvLogEntry))))
      | LogConfiguration \<Rightarrow>
          (case DecodeConfiguration K (log_Data e) of
             None \<Rightarrow> panic
           | Some config \<Rightarrow> ret (field ''      Data:'' [] @ concat (map server_text (indexed config))))
      | LogOther _ \<Rightarrow> ret [])"

fun entries_text :: "('b, 'i) capture_lib \<Rightarrow> (nat \<times> 'b LogEntry) list \<Rightarrow> ('i capture, string) prog" where
  "entries_text K [] = ret []"
| "entries_text K ((i, e) # es) =
     bind_act (entry_data K e) (\<lambda>t. bind_act (entries_text K es) (\<lambda>ts.
       ret (field ''    Entry '' (utoa i @ '':'') @ field ''      Index: '' (d64 (log_Index e)) @
         field ''      Term: '' (d64 (log_Term e)) @ field ''      Type: '' (LogType_String K (log_Type e)) @ t @ ts)))"

definition appendEntriesToString :: "('b, 'i) capture_lib \<Rightarrow> 'b AppendEntriesRequest \<Rightarrow> ('i capture, string) prog" where
  "appendEntriesToString K r =
     bind_act (replaceIpsWithHostnames K (ae_Leader r)) (\<lambda>leader.
     bind_act (entries_text K (indexed (ae_Entries r))) (\<lambda>entries.
     ret (field ''  Term: '' (d64 (ae_Term r)) @ field ''  Leader: '' leader @ field ''  PrevLogEntry: '' (d64 (ae_PrevLogEntry r)) @
       field ''  PrevLogTerm: '' (d64 (ae_PrevLogTerm r)) @ field ''  LeaderCommitIndex: '' (d64 (ae_LeaderCommitIndex r)) @
       field ''  Entries:'' [] @ entries)))"

definition requestVoteToString :: "('b, 'i) capture_lib \<Rightarrow> RequestVoteRequest \<Rightarrow> ('i capture, string) prog" where
  "requestVoteToString K r =
     bind_act (replaceIpsWithHostnames K (rv_Candidate r)) (\<lambda>candidate.
     ret (field ''  Term: '' (d64 (rv_Term r)) @ field ''  Candidate: '' candidate @
       field ''  LastLogIndex: '' (d64 (rv_LastLogIndex r)) @ field ''  LastLogTerm: '' (d64 (rv_LastLogTerm r)) @
       field ''  LeadershipTransfer: '' (if rv_LeadershipTransfer r then ''true'' else ''false'')))"

definition installSnapshotToString :: "('b, 'i) capture_lib \<Rightarrow> 'b InstallSnapshotRequest \<Rightarrow> ('i capture, string) prog" where
  "installSnapshotToString K r =
     (case DecodeConfiguration K (is_Configuration r) of
        None \<Rightarrow> panic
      | Some config \<Rightarrow>
          bind_act (replaceIpsWithHostnames K (is_Leader r)) (\<lambda>leader.
          ret (field ''  Term: '' (d64 (is_Term r)) @ field ''  Leader: '' leader @
            field ''  SnapshotVersion: '' (itoa (is_SnapshotVersion r)) @ field ''  LastLogIndex: '' (d64 (is_LastLogIndex r)) @
            field ''  LastLogTerm: '' (d64 (is_LastLogTerm r)) @ field ''  Configuration: '' (Configuration_text K config) @
            field ''  ConfigurationIndex: '' (d64 (is_ConfigurationIndex r)) @ field ''  Size: '' (itoa (is_Size r)))))"

section \<open>Reading a stream\<close>

definition rpcAppendEntries :: "8 word" where "rpcAppendEntries = 0"
definition rpcRequestVote :: "8 word" where "rpcRequestVote = 1"
definition rpcInstallSnapshot :: "8 word" where "rpcInstallSnapshot = 2"
definition rpcTimeoutNow :: "8 word" where "rpcTimeoutNow = 3"

definition io_EOF :: err where
  "io_EOF = LibErr ''EOF''"

definition read_with :: "('i \<Rightarrow> (err + 'a) \<times> 'i) \<Rightarrow> ('i capture, err + 'a) prog" where
  "read_with op c = (case op (reader c) of (res, i) \<Rightarrow> (Return res, c\<lparr>reader := i\<rparr>))"

definition decoded ::
  "string \<Rightarrow> ('i \<Rightarrow> (err + 'a) \<times> 'i) \<Rightarrow> ('a \<Rightarrow> ('i capture, unit) prog) \<Rightarrow> ('i capture, unit) prog" where
  "decoded name op use =
     bind_act (read_with op) (\<lambda>res.
     case res of Inl e \<Rightarrow> log_line (''Failed to decode '' @ name @ '': '' @ Error e) | Inr req \<Rightarrow> use req)"

text \<open>The switch over the type of the request; \<open>dst\<close> is the receiver of the stream.\<close>

definition handle_rpc :: "('b, 'i) capture_lib \<Rightarrow> string \<Rightarrow> 8 word \<Rightarrow> ('i capture, unit) prog" where
  "handle_rpc K dst rpcType =
     (if rpcType = rpcAppendEntries then
        decoded ''AppendEntriesRequest'' (Decode_AppendEntries K) (\<lambda>req.
          bind_act (replaceIpsWithHostnames K dst) (\<lambda>host.
          if ae_Entries req = [] then log_line (''Sending heartbeat to '' @ host)
          else bind_act (appendEntriesToString K req) (\<lambda>t.
            log_line (field (''Sending AppendEntriesRequest to '' @ host) '':'' @ t))))
      else if rpcType = rpcRequestVote then
        decoded ''RequestVoteRequest'' (Decode_RequestVote K) (\<lambda>req.
          bind_act (replaceIpsWithHostnames K dst) (\<lambda>host.
          bind_act (requestVoteToString K req) (\<lambda>t. log_line (field (''Sending RequestVoteRequest to '' @ host) '':'' @ t))))
      else if rpcType = rpcInstallSnapshot then
        decoded ''InstallSnapshotRequest'' (Decode_InstallSnapshot K) (\<lambda>req.
          bind_act (replaceIpsWithHostnames K dst) (\<lambda>host.
          bind_act (installSnapshotToString K req) (\<lambda>t. log_line (field (''Sending InstallSnapshotRequest to '' @ host) '':'' @ t))))
      else if rpcType = rpcTimeoutNow then
        decoded ''TimeoutNowRequest'' (Decode_TimeoutNow K) (\<lambda>_.
          bind_act (replaceIpsWithHostnames K dst) (\<lambda>host. log_line (''Sending TimeoutNowRequest '' @ host)))
      else log_line (''Unknown RPC type: '' @ utoa (unat rpcType)))"

text \<open>One turn of the loop; the result says whether it returns.\<close>

definition run_step :: "('b, 'i) capture_lib \<Rightarrow> string \<Rightarrow> ('i capture, bool) prog" where
  "run_step K dst =
     bind_act (read_with (ReadByte K)) (\<lambda>res.
     case res of
       Inl e \<Rightarrow>
         if e = io_EOF then ret True
         else bind_act (log_line (''Failed to read RPC type: '' @ Error e)) (\<lambda>_. ret False)
     | Inr rpcType \<Rightarrow> bind_act (handle_rpc K dst rpcType) (\<lambda>_. ret False))"

partial_function (option) stream_run ::
  "('b, 'i) capture_lib \<Rightarrow> string \<Rightarrow> 'i capture \<Rightarrow> (unit outcome \<times> 'i capture) option" where
  "stream_run K dst c =
     (case run_step K dst c of
        (Return stop, c') \<Rightarrow> if stop then Some (Return (), c') else stream_run K dst c'
      | (Panic, c') \<Rightarrow> Some (Panic, c')
      | (Diverge, c') \<Rightarrow> Some (Diverge, c'))"

section \<open>The capture loop\<close>

text \<open>What the \<open>select\<close> receives: the cancelled context, a packet, the end of the packet channel (a nil
  packet, on which the first method call panics), or a tick.  The assembler is a parameter.\<close>

record 'f packet =
  packet_TCP :: "'f option"
  packet_Network :: "string option"

datatype 'f capture_event = ContextDone | PacketIn "'f packet" | ChannelClosed | Ticked

record ('f, 'a) capture_tools =
  OpenLive :: "string \<Rightarrow> err option"
  SetBPFFilter :: "string \<Rightarrow> err option"
  AssembleWithTimestamp :: "string \<Rightarrow> 'f \<Rightarrow> 'a \<Rightarrow> 'a"
  FlushOlderThan :: "'a \<Rightarrow> 'a"

fun capture_loop :: "('f, 'a) capture_tools \<Rightarrow> 'f capture_event list \<Rightarrow> ('a, unit) prog" where
  "capture_loop T [] a = (Diverge, a)"
| "capture_loop T (ContextDone # es) a = (Return (), a)"
| "capture_loop T (ChannelClosed # es) a = (Panic, a)"
| "capture_loop T (Ticked # es) a = capture_loop T es (FlushOlderThan T a)"
| "capture_loop T (PacketIn p # es) a =
     (case packet_TCP p of
        None \<Rightarrow> capture_loop T es a
      | Some tcp \<Rightarrow>
          (case packet_Network p of
             None \<Rightarrow> (Panic, a)
           | Some flow \<Rightarrow> capture_loop T es (AssembleWithTimestamp T flow tcp a)))"

text \<open>\<open>log.Fatal\<close> ends the process.\<close>

definition RunPacketCapture :: "('f, 'a) capture_tools \<Rightarrow> string \<Rightarrow> string \<Rightarrow> 'f capture_event list \<Rightarrow> ('a, unit) prog" where
  "RunPacketCapture T srcIp dstPort events =
     (case OpenLive T ''eth0'' of
        Some e \<Rightarrow> panic
      | None \<Rightarrow>
          (case SetBPFFilter T (''src host '' @ srcIp @ '' and tcp dst port '' @ dstPort) of
             Some e \<Rightarrow> panic
           | None \<Rightarrow> capture_loop T events))"

section \<open>A concrete capture\<close>

definition demo_capture_lib :: "(unit, 8 word list) capture_lib" where
  "demo_capture_lib =
     \<lparr>LookupAddr = (\<lambda>_ ip. if ip = ''10.0.0.1'' then Inr [''r-0.s-0.kvs.svc.localho.st.''] else Inl (LibErr ''no such host'')),
      Unmarshal_KVFSMLogEntry = (\<lambda>_. (None, KVFSMLogEntry_Reset)), KVFSMLogEntry_String = (\<lambda>_. []),
      DecodeConfiguration = (\<lambda>_. Some []), Configuration_text = (\<lambda>_. []), LogType_String = (\<lambda>_. ''LogNoop''),
      ReadByte = (\<lambda>i. case i of [] \<Rightarrow> (Inl io_EOF, []) | b # r \<Rightarrow> (Inr b, r)),
      Decode_AppendEntries = (\<lambda>i. (Inl io_EOF, [])), Decode_RequestVote = (\<lambda>i. (Inl io_EOF, [])),
      Decode_InstallSnapshot = (\<lambda>i. (Inl io_EOF, [])), Decode_TimeoutNow = (\<lambda>i. (Inr (), i))\<rparr>"

definition demo_capture :: "8 word list \<Rightarrow> 8 word list capture" where
  "demo_capture i = \<lparr>hostnameCache = [], lookups = 0, logged = [], reader = i\<rparr>"

section \<open>The end of a stream\<close>

text \<open>An action that always ends and leaves no more input than there was.\<close>

definition tame :: "('i \<Rightarrow> nat) \<Rightarrow> ('i capture, 'a) prog \<Rightarrow> bool" where
  "tame sz m \<longleftrightarrow> (\<forall>c. fst (m c) \<noteq> Diverge \<and> sz (reader (snd (m c))) \<le> sz (reader c))"

lemma tame_ret [intro]: "tame sz (ret x)"
  by (simp add: tame_def ret_def)

lemma tame_panic [intro]: "tame sz panic"
  by (simp add: tame_def panic_def)

lemma tame_log [intro]: "tame sz (log_line t)" "tame sz (fmt_Printf t)"
  by (simp_all add: tame_def log_line_def fmt_Printf_def)

lemma tame_bind [intro]:
  assumes "tame sz m" and "\<And>x. tame sz (f x)"
  shows "tame sz (bind_act m f)"
  unfolding tame_def
proof
  fix c
  obtain x c' where m: "m c = (x, c')" by (cases "m c")
  with assms(1) have "x \<noteq> Diverge" "sz (reader c') \<le> sz (reader c)" unfolding tame_def by (metis fst_conv, metis snd_conv)
  then show "fst (bind_act m f c) \<noteq> Diverge \<and> sz (reader (snd (bind_act m f c))) \<le> sz (reader c)"
    using m assms(2) unfolding tame_def by (cases x) (auto simp: bind_act_def intro: le_trans)
qed

lemma tame_if: "tame sz m \<Longrightarrow> tame sz m' \<Longrightarrow> tame sz (if b then m else m')"
  by simp

lemma tame_host: "tame sz (cached_host K ip)"
  by (auto simp: tame_def cached_host_def bind_act_def getHostFromIp_def Let_def split: option.splits sum.splits list.splits)

lemma tame_replace [intro]: "tame sz (replaceIpsWithHostnames K s)"
  unfolding replaceIpsWithHostnames_def
proof (induction "length s" arbitrary: s rule: less_induct)
  case less
  then show ?case
    by (subst replace_all.simps)
      (auto intro!: tame_bind tame_host dest: ipRegex_match_shorter split: option.splits list.splits)
qed

lemma tame_entries [intro]: "tame sz (entries_text K es)"
  by (induction K es rule: entries_text.induct)
    (auto simp: entry_data_def intro!: tame_bind split: LogType.splits option.splits prod.splits)

lemma tame_text [intro]:
  "tame sz (appendEntriesToString K r)" "tame sz (requestVoteToString K v)" "tame sz (installSnapshotToString K q)"
  by (auto simp: appendEntriesToString_def requestVoteToString_def installSnapshotToString_def split: option.splits)

text \<open>What is read is gone: a read shortens what is left unless it reports the end, and decoding never adds.\<close>

definition reader_ok :: "('b, 'i) capture_lib \<Rightarrow> ('i \<Rightarrow> nat) \<Rightarrow> bool" where
  "reader_ok K sz \<longleftrightarrow>
     (\<forall>i. fst (ReadByte K i) = Inl io_EOF \<or> sz (snd (ReadByte K i)) < sz i) \<and>
     (\<forall>i. sz (snd (Decode_AppendEntries K i)) \<le> sz i \<and> sz (snd (Decode_RequestVote K i)) \<le> sz i \<and>
        sz (snd (Decode_InstallSnapshot K i)) \<le> sz i \<and> sz (snd (Decode_TimeoutNow K i)) \<le> sz i)"

lemma tame_decoded:
  assumes "\<And>i. sz (snd (op i)) \<le> sz i" and "\<And>r. tame sz (use r)"
  shows "tame sz (decoded name op use)"
proof -
  have "tame sz (read_with op)" using assms(1) by (auto simp: tame_def read_with_def split: prod.splits) (metis snd_conv)
  then show ?thesis unfolding decoded_def by (rule tame_bind) (use assms(2) in \<open>auto split: sum.splits\<close>)
qed

lemma tame_handle: "reader_ok K sz \<Longrightarrow> tame sz (handle_rpc K dst b)"
  unfolding handle_rpc_def
  by (intro tame_if tame_decoded tame_bind tame_replace tame_text tame_log) (simp_all add: reader_ok_def)

lemma run_step_shrinks:
  assumes "reader_ok K sz" and "run_step K dst c = (x, c')"
  shows "x \<noteq> Diverge \<and> (x = Return False \<longrightarrow> sz (reader c') < sz (reader c))"
proof -
  obtain res i where read: "ReadByte K (reader c) = (res, i)" by (cases "ReadByte K (reader c)")
  then have sz: "res = Inl io_EOF \<or> sz i < sz (reader c)" using assms(1) unfolding reader_ok_def by (metis fst_conv snd_conv)
  show ?thesis
  proof (cases res)
    case (Inl e)
    with read sz assms(2) show ?thesis
      by (auto simp: run_step_def bind_act_def read_with_def log_line_def ret_def split: if_splits)
  next
    case (Inr b)
    let ?c = "c\<lparr>reader := i\<rparr>"
    have "fst (handle_rpc K dst b ?c) \<noteq> Diverge" "sz (reader (snd (handle_rpc K dst b ?c))) \<le> sz i"
      using tame_handle [OF assms(1), unfolded tame_def, rule_format, of dst b ?c] by simp_all
    with read sz assms(2) Inr show ?thesis
      by (auto simp: run_step_def bind_act_def read_with_def ret_def split: prod.splits outcome.splits)
  qed
qed

text \<open>Reading a stream comes to an end, by returning at the end of the input or by a panic, whenever reads
  use up the input; no request, known or unknown, decodable or not, keeps it from getting there.\<close>

theorem stream_run_ends:
  assumes "reader_ok K sz"
  shows "\<exists>x c'. stream_run K dst c = Some (x, c') \<and> x \<noteq> Diverge"
proof (induction "sz (reader c)" arbitrary: c rule: less_induct)
  case less
  obtain x c' where step: "run_step K dst c = (x, c')" by (cases "run_step K dst c")
  note shrinks = run_step_shrinks [OF assms step]
  show ?case
  proof (cases "x = Return False")
    case True
    with less.hyps [of c'] shrinks step show ?thesis by (subst stream_run.simps) simp
  next
    case False
    with shrinks step show ?thesis by (subst stream_run.simps) (cases x, auto)
  qed
qed

theorem stream_run_ends_witness:
  "\<exists>x c'. stream_run demo_capture_lib ''10.0.0.1'' (demo_capture [7, 3, 0]) = Some (x, c') \<and> x \<noteq> Diverge"
  by (rule stream_run_ends [where sz = length]) (simp add: reader_ok_def demo_capture_lib_def split: list.splits)

section \<open>The end of the capture\<close>

text \<open>A capture ends when its context is cancelled; when the packet source ends before, the loop panics.\<close>

lemma capture_loop_end:
  assumes "\<forall>e \<in> set es. e = Ticked \<or> (\<exists>p. e = PacketIn p \<and> (packet_TCP p = None \<or> packet_Network p \<noteq> None))"
  shows "fst (capture_loop T (es @ ContextDone # rest) a) = Return ()" "fst (capture_loop T (es @ ChannelClosed # rest) a) = Panic"
  using assms by (induction es arbitrary: a) (auto split: option.splits)

end
