(* ===== verification/Capture_Streams.thy ===== *)
theory Capture_Streams
  imports Capture
begin

text \<open>
  The streams of a packet capture run at the same time.  \<open>tcpStreamFactory.New\<close> starts a goroutine for every
  stream, and all of them share the cache of host names.  Two step relations: \<open>pool_step\<close> interleaves whole
  turns of the reading loops, \<open>access_step\<close> the single accesses to the cache, of which the code protects
  none.  Nothing is assumed of the answers of reverse lookups, which may differ from one lookup of an address
  to the next.  Under the first relation an entry never changes; under the second two goroutines can be about to
  write the map, and an entry is final only when no goroutine is on its way to write it.
\<close>

section \<open>Streams\<close>

record Flow =
  flow_Src :: string
  flow_Dst :: string

text \<open>\<open>stream_r\<close> is the reader of the stream, \<open>stream_running\<close> whether its goroutine still runs.\<close>

record 'i tcpStream =
  stream_net :: Flow
  stream_transport :: Flow
  stream_r :: 'i
  stream_running :: bool

record 'i pool =
  pool_cache :: "(string \<times> string) list"
  pool_lookups :: nat
  pool_logged :: "printed list"
  pool_streams :: "'i tcpStream list"

text \<open>\<open>New\<close> with the reader that \<open>NewReaderStream\<close> makes; the assembler gets a reference to it, the index of the
  stream.\<close>

definition tcpStreamFactory_New :: "'i \<Rightarrow> Flow \<Rightarrow> Flow \<Rightarrow> 'i pool \<Rightarrow> nat \<times> 'i pool" where
  "tcpStreamFactory_New newReader net transport s =
     (let tstream = \<lparr>stream_net = net, stream_transport = transport, stream_r = newReader, stream_running = True\<rparr> in
      (length (pool_streams s), s\<lparr>pool_streams := pool_streams s @ [tstream]\<rparr>))"

definition stream_view :: "'i tcpStream \<Rightarrow> 'i pool \<Rightarrow> 'i capture" where
  "stream_view t s =
     \<lparr>hostnameCache = pool_cache s, lookups = pool_lookups s, logged = pool_logged s, reader = stream_r t\<rparr>"

definition stream_turned :: "nat \<Rightarrow> bool \<Rightarrow> 'i capture \<Rightarrow> 'i pool \<Rightarrow> 'i pool" where
  "stream_turned i stop c s =
     s\<lparr>pool_cache := hostnameCache c, pool_lookups := lookups c, pool_logged := logged c,
       pool_streams := (pool_streams s)[i := (pool_streams s ! i)\<lparr>stream_r := reader c, stream_running := \<not> stop\<rparr>]\<rparr>"

text \<open>A new stream; a turn of the loop of a running stream; data that the assembler hands to a reader.  A panic
  in a goroutine ends the process.\<close>

inductive pool_step :: "('b, 'i) capture_lib \<Rightarrow> 'i pool \<Rightarrow> 'i pool \<Rightarrow> bool" for K where
  step_new: "tcpStreamFactory_New r net transport s = (i, s') \<Longrightarrow> pool_step K s s'"
| step_turn: "i < length (pool_streams s) \<Longrightarrow> t = pool_streams s ! i \<Longrightarrow> stream_running t \<Longrightarrow>
     run_step K (flow_Dst (stream_net t)) (stream_view t s) = (Return stop, c) \<Longrightarrow> pool_step K s (stream_turned i stop c s)"
| step_data: "i < length (pool_streams s) \<Longrightarrow>
     pool_step K s (s\<lparr>pool_streams := (pool_streams s)[i := (pool_streams s ! i)\<lparr>stream_r := r\<rparr>]\<rparr>)"

definition empty_pool :: "'i pool" where
  "empty_pool = \<lparr>pool_cache = [], pool_lookups = 0, pool_logged = [], pool_streams = []\<rparr>"

section \<open>Turns keep the cache\<close>

text \<open>An action that returns keeps every entry of the cache, and looks up one address for every entry it adds.\<close>

definition cache_step :: "'i capture \<Rightarrow> 'i capture \<Rightarrow> bool" where
  "cache_step c c' \<longleftrightarrow>
     distinct (map fst (hostnameCache c')) \<and> map_of (hostnameCache c) \<subseteq>\<^sub>m map_of (hostnameCache c') \<and>
     lookups c' + length (hostnameCache c) = lookups c + length (hostnameCache c')"

definition cache_safe :: "('i capture, 'a) prog \<Rightarrow> bool" where
  "cache_safe m \<longleftrightarrow> (\<forall>c x c'. distinct (map fst (hostnameCache c)) \<and> m c = (Return x, c') \<longrightarrow> cache_step c c')"

lemma cache_safeD: "cache_safe m \<Longrightarrow> distinct (map fst (hostnameCache c)) \<Longrightarrow> m c = (Return x, c') \<Longrightarrow> cache_step c c'"
  by (auto simp: cache_safe_def)

lemma cache_safe_basic [intro]:
  "cache_safe (ret x)" "cache_safe panic" "cache_safe (log_line t)" "cache_safe (fmt_Printf t)"
  by (simp_all add: cache_safe_def cache_step_def ret_def panic_def log_line_def fmt_Printf_def)

lemma cache_safe_bind [intro]:
  assumes "cache_safe m" and "\<And>x. cache_safe (f x)"
  shows "cache_safe (bind_act m f)"
  unfolding cache_safe_def
proof (intro allI impI, elim conjE)
  fix c x c'
  assume c: "distinct (map fst (hostnameCache c))" and "bind_act m f c = (Return x, c')"
  then obtain y c1 where m: "m c = (Return y, c1)" and f: "f y c1 = (Return x, c')"
    by (auto simp: bind_act_def split: prod.splits outcome.splits)
  have c1: "cache_step c c1" by (rule cache_safeD [OF assms(1) c m])
  then have "cache_step c1 c'" by (intro cache_safeD [OF assms(2) _ f]) (simp add: cache_step_def)
  with c1 show "cache_step c c'" by (auto simp: cache_step_def intro: map_le_trans)
qed

lemma cache_safe_if: "cache_safe m \<Longrightarrow> cache_safe m' \<Longrightarrow> cache_safe (if b then m else m')"
  by simp

lemma cache_safe_read [intro]: "cache_safe (read_with op)"
  by (auto simp: cache_safe_def cache_step_def read_with_def split: prod.splits)

lemma cache_safe_decoded: "(\<And>r. cache_safe (use r)) \<Longrightarrow> cache_safe (decoded name op use)"
  unfolding decoded_def by (rule cache_safe_bind) (auto split: sum.splits)

lemma update_new: "k \<notin> fst ` set al \<Longrightarrow> AList.update k v al = al @ [(k, v)]"
  by (induction al) auto

lemma cache_safe_host [intro]: "cache_safe (cached_host K ip)"
  unfolding cache_safe_def
proof (intro allI impI, elim conjE)
  fix c h c'
  assume c: "distinct (map fst (hostnameCache c))" and run: "cached_host K ip c = (Return h, c')"
  show "cache_step c c'"
  proof (cases "map_of (hostnameCache c) ip")
    case None
    then have "ip \<notin> fst ` set (hostnameCache c)" by (simp add: map_of_eq_None_iff)
    moreover obtain g where "hostnameCache c' = AList.update ip g (hostnameCache c)" "lookups c' = Suc (lookups c)"
      using None run by (auto simp: cached_host_def getHostFromIp_def bind_act_def Let_def split: sum.splits list.splits)
    ultimately show ?thesis using c by (auto simp: cache_step_def update_new map_le_def)
  qed (use c run in \<open>auto simp: cached_host_def cache_step_def\<close>)
qed

lemma cache_safe_replace_all: "(\<And>m. cache_safe (f m)) \<Longrightarrow> cache_safe (replace_all f s)"
proof (induction "length s" arbitrary: s rule: less_induct)
  case less
  show ?case
  proof (cases "ipRegex_match s")
    case None
    show ?thesis using None less by (subst replace_all.simps) (auto split: list.splits)
  next
    case (Some p)
    obtain m t where p: "p = (m, t)" by (cases p)
    have "cache_safe (replace_all f t)" using less ipRegex_match_shorter [of s m t] Some p by simp
    then show ?thesis using Some p less.prems by (subst replace_all.simps) auto
  qed
qed

lemma cache_safe_replace [intro]: "cache_safe (replaceIpsWithHostnames K s)"
  unfolding replaceIpsWithHostnames_def by (intro cache_safe_replace_all cache_safe_host)

lemma cache_safe_entries [intro]: "cache_safe (entries_text K es)"
  by (induction K es rule: entries_text.induct)
    (auto simp: entry_data_def intro!: cache_safe_bind split: LogType.splits option.splits prod.splits)

lemma cache_safe_run: "cache_safe (run_step K dst)"
proof -
  have texts: "cache_safe (appendEntriesToString K a)" "cache_safe (requestVoteToString K v)"
    "cache_safe (installSnapshotToString K q)" for a v q
    by (auto simp: appendEntriesToString_def requestVoteToString_def installSnapshotToString_def split: option.splits)
  have "cache_safe (handle_rpc K dst b)" for b
    unfolding handle_rpc_def
    by (intro cache_safe_if cache_safe_decoded cache_safe_bind cache_safe_replace texts cache_safe_basic)
  then show ?thesis unfolding run_step_def by (intro cache_safe_bind) (auto split: sum.splits)
qed

definition pool_ok :: "'i pool \<Rightarrow> bool" where
  "pool_ok s \<longleftrightarrow> distinct (map fst (pool_cache s)) \<and> pool_lookups s = length (pool_cache s)"

lemma pool_step_cache:
  assumes "pool_step K s s'" and "pool_ok s"
  shows "pool_ok s' \<and> map_of (pool_cache s) \<subseteq>\<^sub>m map_of (pool_cache s')"
  using assms(1)
proof (cases rule: pool_step.cases)
  case (step_turn i u stop c)
  have "cache_step (stream_view u s) c"
    using cache_safeD [OF cache_safe_run _ step_turn(5)] assms(2) by (simp add: pool_ok_def stream_view_def)
  then show ?thesis using assms(2) step_turn(1) by (simp add: pool_ok_def cache_step_def stream_view_def stream_turned_def)
qed (use assms(2) in \<open>auto simp: tcpStreamFactory_New_def Let_def pool_ok_def\<close>)

lemma pool_steps_cache:
  assumes "(pool_step K)\<^sup>*\<^sup>* s s'" and "pool_ok s"
  shows "pool_ok s' \<and> map_of (pool_cache s) \<subseteq>\<^sub>m map_of (pool_cache s')"
  using assms(1)
proof (induction rule: rtranclp_induct)
  case (step t u)
  then show ?case using pool_step_cache [of K t u] by (auto intro: map_le_trans)
qed (use assms(2) in simp)


definition demo_flow :: Flow where
  "demo_flow = \<lparr>flow_Src = ''10.0.0.2'', flow_Dst = ''10.0.0.1''\<rparr>"

definition demo_pool :: "8 word list \<Rightarrow> 8 word list pool" where
  "demo_pool i = snd (tcpStreamFactory_New i demo_flow demo_flow empty_pool)"

lemma demo_turn:
  "run_step demo_capture_lib ''10.0.0.1'' (demo_capture [3]) =
   (Return False, \<lparr>hostnameCache = [(''10.0.0.1'', ''r-0.s-0'')], lookups = 1,
      logged = [Logged ''Sending TimeoutNowRequest r-0.s-0''], reader = []\<rparr>)"
  by code_simp


section \<open>Single accesses\<close>

text \<open>A goroutine that replaces one address: about to read the cache, to look the address up, or to write the
  cache; or it has the name.\<close>

datatype cache_access = Reading string | LookingUp string | Writing string string | Found string string

text \<open>\<open>acc_lookups\<close> are the addresses looked up so far; the n-th of them was answered by the n-th lookup.\<close>

record accesses =
  acc_cache :: "(string \<times> string) list"
  acc_lookups :: "string list"
  acc_goroutines :: "cache_access list"

fun access_turn ::
  "('b, 'i) capture_lib \<Rightarrow> cache_access \<Rightarrow> (string \<times> string) list \<times> string list \<Rightarrow>
   cache_access outcome \<times> (string \<times> string) list \<times> string list" where
  "access_turn K (Reading ip) (m, l) =
     (Return (case map_of m ip of Some h \<Rightarrow> Found ip h | None \<Rightarrow> LookingUp ip), m, l)"
| "access_turn K (LookingUp ip) (m, l) =
     ((case LookupAddr K (length l) ip of
         Inl e \<Rightarrow> Return (Writing ip (strip_domain ip))
       | Inr [] \<Rightarrow> Panic
       | Inr (h # _) \<Rightarrow> Return (Writing ip (strip_domain h))), m, l @ [ip])"
| "access_turn K (Writing ip h) (m, l) = (Return (Found ip h), AList.update ip h m, l)"
| "access_turn K (Found ip h) (m, l) = (Return (Found ip h), m, l)"

text \<open>Without interruption the turns of one goroutine are \<open>cached_host\<close>.\<close>

lemma access_turns_cached_host:
  assumes "cached_host K ip c = (Return h, c')" and "length l = lookups c"
  shows "\<exists>k l'. length l' = lookups c' \<and>
    ((\<lambda>(a, ml). case access_turn K a ml of (Return a', ml') \<Rightarrow> (a', ml') | (_, ml') \<Rightarrow> (a, ml')) ^^ k)
      (Reading ip, hostnameCache c, l) = (Found ip h, hostnameCache c', l')"
proof (cases "map_of (hostnameCache c) ip")
  case (Some g)
  then show ?thesis using assms by (intro exI [of _ 1] exI [of _ l]) (simp add: cached_host_def)
next
  case None
  then show ?thesis
    using assms
    by (intro exI [of _ 3] exI [of _ "l @ [ip]"])
      (auto simp: cached_host_def getHostFromIp_def bind_act_def Let_def numeral_3_eq_3 split: sum.splits list.splits)
qed

text \<open>A goroutine starts on an address, or one of them makes its next access.\<close>

inductive access_step :: "('b, 'i) capture_lib \<Rightarrow> accesses \<Rightarrow> accesses \<Rightarrow> bool" for K where
  access_start: "access_step K s (s\<lparr>acc_goroutines := acc_goroutines s @ [Reading ip]\<rparr>)"
| access_next: "i < length (acc_goroutines s) \<Longrightarrow>
     access_turn K (acc_goroutines s ! i) (acc_cache s, acc_lookups s) = (Return a, m, l) \<Longrightarrow>
     access_step K s \<lparr>acc_cache = m, acc_lookups = l, acc_goroutines = (acc_goroutines s)[i := a]\<rparr>"

definition no_accesses :: accesses where
  "no_accesses = \<lparr>acc_cache = [], acc_lookups = [], acc_goroutines = []\<rparr>"

abbreviation accessed :: "('b, 'i) capture_lib \<Rightarrow> accesses \<Rightarrow> accesses \<Rightarrow> bool" where
  "accessed K \<equiv> (access_step K)\<^sup>*\<^sup>*"

text \<open>The name that the n-th lookup gives an address, unless it succeeds with no name at all; and that a lookup made
  so far of this address gave the name.\<close>

definition answer_name :: "('b, 'i) capture_lib \<Rightarrow> nat \<Rightarrow> string \<Rightarrow> string option" where
  "answer_name K n ip =
     (case LookupAddr K n ip of Inl e \<Rightarrow> Some (strip_domain ip) | Inr [] \<Rightarrow> None | Inr (h # _) \<Rightarrow> Some (strip_domain h))"

definition looked_up :: "('b, 'i) capture_lib \<Rightarrow> string list \<Rightarrow> string \<Rightarrow> string \<Rightarrow> bool" where
  "looked_up K l ip h \<longleftrightarrow> (\<exists>n < length l. l ! n = ip \<and> answer_name K n ip = Some h)"

fun access_ok :: "('b, 'i) capture_lib \<Rightarrow> string list \<Rightarrow> cache_access \<Rightarrow> bool" where
  "access_ok K l (Writing ip h) = looked_up K l ip h"
| "access_ok K l (Found ip h) = looked_up K l ip h"
| "access_ok K l _ = True"

definition accesses_ok :: "('b, 'i) capture_lib \<Rightarrow> accesses \<Rightarrow> bool" where
  "accesses_ok K s \<longleftrightarrow>
     (\<forall>ip h. map_of (acc_cache s) ip = Some h \<longrightarrow> looked_up K (acc_lookups s) ip h) \<and>
     (\<forall>a \<in> set (acc_goroutines s). access_ok K (acc_lookups s) a)"

text \<open>No goroutine is between finding no entry for the address and writing one.\<close>

definition settled :: "string \<Rightarrow> accesses \<Rightarrow> bool" where
  "settled ip s \<longleftrightarrow> (\<forall>a \<in> set (acc_goroutines s). a \<noteq> LookingUp ip \<and> (\<forall>h. a \<noteq> Writing ip h))"

lemma looked_up_append: "looked_up K l ip h \<Longrightarrow> looked_up K (l @ l') ip h"
  unfolding looked_up_def by (metis length_append nth_append trans_less_add1)

lemma looked_up_last: "answer_name K (length l) ip = Some h \<Longrightarrow> looked_up K (l @ [ip]) ip h"
  by (auto simp: looked_up_def intro!: exI [of _ "length l"])

lemma access_ok_append: "access_ok K l a \<Longrightarrow> access_ok K (l @ l') a"
  by (cases a) (auto intro: looked_up_append)

lemma access_turn_ok:
  assumes "access_turn K a (m, l) = (Return a', m', l')" and "\<forall>ip h. map_of m ip = Some h \<longrightarrow> looked_up K l ip h" and "access_ok K l a"
  shows "(\<forall>ip h. map_of m' ip = Some h \<longrightarrow> looked_up K l' ip h) \<and> access_ok K l' a' \<and> (\<exists>l''. l' = l @ l'')"
proof (cases a)
  case (LookingUp ip)
  then obtain h where h: "a' = Writing ip h" "answer_name K (length l) ip = Some h" "m' = m" "l' = l @ [ip]"
    using assms(1) by (auto simp: answer_name_def split: sum.splits list.splits)
  then show ?thesis using assms(2) looked_up_last [OF h(2)] looked_up_append by fastforce
qed (use assms in \<open>auto simp: update_conv' split: option.splits if_splits\<close>)

lemma access_step_ok:
  assumes "access_step K s s'" and "accesses_ok K s"
  shows "accesses_ok K s'"
  using assms(1)
proof cases
  case (access_next i a m l)
  note ok = access_turn_ok [OF access_next(3)]
  have "\<forall>ip h. map_of m ip = Some h \<longrightarrow> looked_up K l ip h" "access_ok K l a" "\<exists>l''. l = acc_lookups s @ l''"
    using ok assms(2) access_next(2) by (auto simp: accesses_ok_def)
  then show ?thesis
    using assms(2) access_next(1)
    by (auto simp: accesses_ok_def intro: access_ok_append dest!: set_update_subset_insert [THEN subsetD])
qed (use assms(2) in \<open>simp add: accesses_ok_def\<close>)

lemma settled_step:
  assumes "access_step K s s'" and "settled ip s" and "map_of (acc_cache s) ip = Some h"
  shows "settled ip s' \<and> map_of (acc_cache s') ip = Some h \<and> count_list (acc_lookups s') ip = count_list (acc_lookups s) ip"
  using assms(1)
proof cases
  case (access_next i a m l)
  have "acc_goroutines s ! i \<in> set (acc_goroutines s)" using access_next(2) by simp
  then have "acc_goroutines s ! i \<noteq> LookingUp ip" "\<And>h. acc_goroutines s ! i \<noteq> Writing ip h" using assms(2) by (auto simp: settled_def)
  then have "map_of m ip = Some h" "count_list l ip = count_list (acc_lookups s) ip" "a \<noteq> LookingUp ip" "\<And>h. a \<noteq> Writing ip h"
    using access_next(3) assms(3)
    by (cases "acc_goroutines s ! i"; auto simp: update_conv' split: option.splits sum.splits list.splits)+
  then show ?thesis
    using assms(2) access_next(1) by (auto simp: settled_def dest!: set_update_subset_insert [THEN subsetD])
qed (use assms(2,3) in \<open>auto simp: settled_def\<close>)

lemma settled_stays:
  assumes "accessed K s s'" and "settled ip s" and "map_of (acc_cache s) ip = Some h"
  shows "map_of (acc_cache s') ip = Some h \<and> count_list (acc_lookups s') ip = count_list (acc_lookups s) ip"
proof -
  have "settled ip s' \<and> map_of (acc_cache s') ip = Some h \<and> count_list (acc_lookups s') ip = count_list (acc_lookups s) ip"
    using assms by (induction rule: rtranclp_induct) (auto dest: settled_step)
  then show ?thesis by blast
qed

lemma lookup_turn:
  "answer_name K (length l) ip = Some h \<Longrightarrow> access_turn K (LookingUp ip) (m, l) = (Return (Writing ip h), m, l @ [ip])"
  by (auto simp: answer_name_def split: sum.splits list.splits)

abbreviation uncached :: "string list \<Rightarrow> cache_access list \<Rightarrow> accesses" where
  "uncached l gs \<equiv> \<lparr>acc_cache = [], acc_lookups = l, acc_goroutines = gs\<rparr>"

lemma one_lookup:
  assumes "answer_name K 0 ip = Some h"
  shows "accessed K no_accesses \<lparr>acc_cache = [(ip, h)], acc_lookups = [ip], acc_goroutines = [Found ip h]\<rparr>"
proof -
  have "accessed K no_accesses (uncached [] [Reading ip])"
    using access_start [of K no_accesses ip] by (simp add: no_accesses_def r_into_rtranclp)
  also have "access_step K (uncached [] [Reading ip]) (uncached [] [LookingUp ip])"
    using access_next [of 0 "uncached [] [Reading ip]" K] by simp
  also (rtranclp.rtrancl_into_rtrancl) have "access_step K (uncached [] [LookingUp ip]) (uncached [ip] [Writing ip h])"
    using access_next [of 0 "uncached [] [LookingUp ip]" K] lookup_turn [of K "[]" ip h] assms by simp
  also (rtranclp.rtrancl_into_rtrancl) have "access_step K (uncached [ip] [Writing ip h])
      \<lparr>acc_cache = [(ip, h)], acc_lookups = [ip], acc_goroutines = [Found ip h]\<rparr>"
    using access_next [of 0 "uncached [ip] [Writing ip h]" K] by simp
  finally (rtranclp.rtrancl_into_rtrancl) show ?thesis .
qed

text \<open>Two goroutines that start one after the other before either has written.\<close>

lemma two_writers:
  assumes "answer_name K 0 ip = Some h" and "answer_name K 1 ip' = Some h'"
  shows "accessed K no_accesses (uncached [ip, ip'] [Writing ip h, Writing ip' h'])"
proof -
  have "accessed K no_accesses (uncached [] [Reading ip])"
    using access_start [of K no_accesses ip] by (simp add: no_accesses_def r_into_rtranclp)
  also have "access_step K (uncached [] [Reading ip]) (uncached [] [Reading ip, Reading ip'])"
    using access_start [of K "uncached [] [Reading ip]" ip'] by simp
  also (rtranclp.rtrancl_into_rtrancl) have "access_step K (uncached [] [Reading ip, Reading ip']) (uncached [] [LookingUp ip, Reading ip'])"
    using access_next [of 0 "uncached [] [Reading ip, Reading ip']" K] by simp
  also (rtranclp.rtrancl_into_rtrancl) have "access_step K (uncached [] [LookingUp ip, Reading ip']) (uncached [] [LookingUp ip, LookingUp ip'])"
    using access_next [of 1 "uncached [] [LookingUp ip, Reading ip']" K] by simp
  also (rtranclp.rtrancl_into_rtrancl) have "access_step K (uncached [] [LookingUp ip, LookingUp ip']) (uncached [ip] [Writing ip h, LookingUp ip'])"
    using access_next [of 0 "uncached [] [LookingUp ip, LookingUp ip']" K] lookup_turn [of K "[]" ip h] assms(1) by simp
  also (rtranclp.rtrancl_into_rtrancl) have "access_step K (uncached [ip] [Writing ip h, LookingUp ip'])
      (uncached [ip, ip'] [Writing ip h, Writing ip' h'])"
    using access_next [of 1 "uncached [ip] [Writing ip h, LookingUp ip']" K] lookup_turn [of K "[ip]" ip' h'] assms(2) by simp
  finally (rtranclp.rtrancl_into_rtrancl) show ?thesis .
qed

text \<open>C16: however the accesses of the streams to the shared cache interleave, and whatever reverse lookups answer,
  every entry and every name a stream has got is the answer of some lookup of the address made so far, or the
  address itself when that lookup failed.  An entry never changes, and its address is not looked up again, from
  the moment on when no goroutine is about to write it: a lookup that fails once is remembered for the rest of the
  run.  But nothing orders the accesses: two goroutines can be about to write the map at the same time, which the
  language does not allow, with different names if the two lookups of an address differ.\<close>

theorem shared_cache_interleaved:
  assumes "answer_name K 0 ip = Some h" and "answer_name K 1 ip' = Some h'"
  shows "(\<forall>s. accessed K no_accesses s \<longrightarrow> accesses_ok K s) \<and>
    (\<forall>s s' a g. accessed K s s' \<and> settled a s \<and> map_of (acc_cache s) a = Some g \<longrightarrow>
       map_of (acc_cache s') a = Some g \<and> count_list (acc_lookups s') a = count_list (acc_lookups s) a) \<and>
    (\<exists>s. accessed K no_accesses s \<and> acc_goroutines s = [Found ip h] \<and>
       (\<forall>s'. accessed K s s' \<longrightarrow> map_of (acc_cache s') ip = Some h)) \<and>
    (\<exists>s. accessed K no_accesses s \<and> acc_cache s = [] \<and> acc_goroutines s = [Writing ip h, Writing ip' h'])"
proof -
  have start: "accesses_ok K no_accesses" by (simp add: no_accesses_def accesses_ok_def)
  have "accesses_ok K s" if "accessed K no_accesses s" for s
    using that by (induction rule: rtranclp_induct) (auto intro: start access_step_ok)
  moreover let ?s = "\<lparr>acc_cache = [(ip, h)], acc_lookups = [ip], acc_goroutines = [Found ip h]\<rparr>"
  have "settled ip ?s" by (simp add: settled_def)
  then have "\<forall>s'. accessed K ?s s' \<longrightarrow> map_of (acc_cache s') ip = Some h" using settled_stays [of K ?s _ ip h] by simp
  then have "\<exists>s. accessed K no_accesses s \<and> acc_goroutines s = [Found ip h] \<and> (\<forall>s'. accessed K s s' \<longrightarrow> map_of (acc_cache s') ip = Some h)"
    using one_lookup [OF assms(1)] by (intro exI [of _ ?s]) simp
  moreover have "\<exists>s. accessed K no_accesses s \<and> acc_cache s = [] \<and> acc_goroutines s = [Writing ip h, Writing ip' h']"
    using two_writers [OF assms] by (intro exI conjI) (assumption | simp)+
  ultimately show ?thesis using settled_stays by blast
qed

text \<open>A resolver that fails once and then answers.\<close>

definition flaky_lib :: "(unit, 8 word list) capture_lib" where
  "flaky_lib = demo_capture_lib\<lparr>LookupAddr := (\<lambda>n ip. if n = 0 then Inl (LibErr ''timeout'') else Inr [''r-0''])\<rparr>"

theorem shared_cache_interleaved_witness:
  "(\<exists>s. accessed flaky_lib no_accesses s \<and> acc_goroutines s = [Writing ''10.0.0.1'' ''10.0.0.1'', Writing ''10.0.0.1'' ''r-0'']) \<and>
   (\<exists>s. accessed flaky_lib no_accesses s \<and>
      (\<forall>s'. accessed flaky_lib s s' \<longrightarrow> map_of (acc_cache s') ''10.0.0.1'' = Some ''10.0.0.1''))"
proof -
  have "answer_name flaky_lib 0 ''10.0.0.1'' = Some ''10.0.0.1''" "answer_name flaky_lib 1 ''10.0.0.1'' = Some ''r-0''"
    by (simp_all add: answer_name_def flaky_lib_def strip_domain_def suffix_def)
  from shared_cache_interleaved [OF this] show ?thesis by blast
qed

end
