(* ===== verification/Spec2Isabelle.thy ===== *)
theory Spec2Isabelle
  imports Scaling_Completes Grpc_Stubs Kv_Client Kvctl_DeepCopy Capture_Streams
begin

text \<open>
  A verification of sharded-kvs: a key-value store split over shards, each shard a group of replicas that
  agree through Raft, and a Kubernetes operator that deploys the shards and moves keys when their number
  changes.

  \<^bold>\<open>The program and its parts.\<close>  A shard process (\<open>cmd/shard/shard.go\<close>) serves three gRPC services: the
  key-value service for clients, the shard service for other shards and the operator, the replica service
  for the other replicas of its shard.  It finds the shard of a key in a ring, and stores keys in a
  \<open>KVStore\<close> (\<open>internal/raft/kvstore/kvstore.go\<close>) whose state machine Raft drives.  The operator
  (\<open>kvctl\<close>) keeps a StatefulSet, a Service and an Ingress per shard and a configuration map, which the
  processes read; to scale, it walks through phases in which it calls \<open>PauseWrites\<close>, \<open>RedistributeKeys\<close>
  and \<open>ResumeWrites\<close> of every shard.  The client (\<open>cmd/client/client.go\<close>) calls the Ingress of a shard.

  \<^bold>\<open>Which theory models what.\<close>
  \<^item> \<open>Kvs_Prelude\<close>: outcomes of a Go call, errors, decimal rendering, Go maps behind references with nil.
  \<^item> \<open>Proto_Messages\<close>: the messages of \<open>internal/protos\<close>.
  \<^item> \<open>Kv_Fsm\<close>: the state machine (\<open>Apply\<close>, \<open>Snapshot\<close>, \<open>Persist\<close>, \<open>Restore\<close>) on an explicit heap of maps, because
    store and state machine share one.  The locale \<open>state_machine\<close> is the refinement of the abstract map.
  \<^item> \<open>Kv_Store\<close>, \<open>Kv_Store_Correct\<close>: \<open>KVStore\<close> and the helpers of \<open>internal/raft/common.go\<close>; what each operation
    keeps (locale \<open>store_operation\<close>), the processes reachable by them, membership changes.
  \<^item> \<open>Shard_Process\<close>, \<open>Shard_Server\<close>: the package variables of a process, the world of processes connected by calls
    that may be lost before or after they are served, every handler, the goroutine of a redistribution,
    start and stop.
  \<^item> \<open>Shard_Invariants\<close>, \<open>Shard_World\<close>, \<open>Shard_Correct\<close>: invariants of all processes (locale
    \<open>process_invariant\<close>), the step relation of a world, and what callers can rely on.  \<open>Demo_World\<close> is a
    concrete world for evaluation.
  \<^item> \<open>Grpc_Stubs\<close>: the generated client stubs, method handlers and service descriptors of
    \<open>internal/protos/*_grpc.pb.go\<close> (locales \<open>typed_message\<close> and \<open>unary_method\<close>, one interpretation per message
    type and per pair of request and response); a call through them is the action \<open>rpc\<close> on the handler.
  \<^item> \<open>Redistribution\<close>, \<open>Redistribution_Complete\<close>: moving keys: nothing is lost, pending keys are counted, the
    work is finished when calls get through, a write between sending and purging a key is lost.
  \<^item> \<open>Kvctl_Api\<close>: the custom resource and the webhook.  \<open>Kvctl_Cluster\<close>: stored objects, the API client and
    the owner indexes.  \<open>Kvctl_Controller\<close>: the reconciler, one definition per function and phase.
    \<open>Demo_Operator\<close> is a concrete operator.
  \<^item> \<open>Kvctl_Phases\<close>: a reconciliation follows the abstract scaling machine (locale \<open>step_relation\<close>).
    \<open>Kvctl_Objects\<close>, \<open>Kvctl_Correct\<close>: what it does to objects (locale \<open>object_kind\<close>, one interpretation per kind).
    \<open>Kvctl_Faults\<close>: runs under failing API calls.  \<open>Operator_Shards\<close>: the operator's calls to shard processes.
    \<open>Scaling_Completes\<close>: a whole scaling operation, from total-correctness rules for actions on worlds that stay
    alike (locale \<open>process_relation\<close>).
  \<^item> \<open>Kvctl_Main\<close>: the entry point of the operator, on slices over shared arrays.  \<open>Kvctl_DeepCopy\<close>: the generated
    deep copies, on objects with references.
  \<^item> \<open>Kv_Client\<close>: the command-line client.  \<open>Capture\<close>, \<open>Capture_Streams\<close>: the packet capture of
    \<open>internal/capture.go\<close> and its streams, which run at the same time.
  \<^item> This theory: properties across operator, shard processes and client.

  \<^bold>\<open>How code corresponds to definitions.\<close>  A struct is a record, a function that changes state is an action
  \<open>('s, 'a) prog\<close> from a state to an outcome (a value, \<open>Panic\<close>, \<open>Diverge\<close>) and a new state, an error is
  \<open>Inl\<close>.  \<open>int32\<close> and \<open>uint64\<close> fields are words where they are counted or compared; the pending count of
  \<open>RedistributeKeys\<close> wraps as the code's does.  Code of other packages is a field of a library record
  (\<open>codec\<close>, \<open>raft_lib\<close>, \<open>shard_lib\<close>, \<open>kvctl_lib\<close>, \<open>client_lib\<close>, \<open>manager_lib\<close>, \<open>copy_lib\<close>, \<open>capture_lib\<close>,
  \<open>grpc_lib\<close>), and
  what is assumed of it is a predicate named \<open>..._ok\<close> (or \<open>raft_quiet\<close>, \<open>raft_live\<close>, \<open>raft_steady\<close>) in the hypotheses of
  the theorems that need it; a concrete library satisfies each.

  \<^bold>\<open>What is shown.\<close>  The state machine refines a map and survives a snapshot; acknowledged writes are read back;
  a replica that installs a snapshot catches up; a redistribution loses no key, ends, and the operator does not finalize
  before it reported no pending key; a reconciliation follows the phases, creates and deletes exactly the objects it
  should, and writes a configuration under which every key has a shard; the first deployment completes, and so
  does every scaling operation whose surroundings cooperate (that keys get moved, which it needs, is the completeness
  of the redistribution); the stubs call the methods they are named after.  Other theorems
  pin down what the code does where that is not what its names promise: pausing writes pauses nothing, a follower
  never accepts a write, a restart from a snapshot reads nothing, a write during a move is lost, \<open>Join\<close> may report
  success without installing the replica, API errors at some points strand a scaling operation, streams of a
  capture race for their cache.

  \<^bold>\<open>Loops and bounds.\<close>  No definition has fuel.  Loops that may not end (dialling, looking for a leader, waiting for
  logs, the client's menu, a captured stream) are \<open>partial_function (option)\<close> with \<open>None\<close> for running for ever, and
  the theorems say when they return.  The operator reads the count of pending keys as a signed 32-bit number, so its
  theorem needs counts below \<open>2 ^ 31\<close>.

  \<^bold>\<open>Granularity.\<close>  A handler runs without interruption, except that a call it makes runs the handlers it reaches, and
  that the three steps of moving one key are actions of their own, between which the theorem on lost writes puts
  another call.  The streams of a capture interleave by turns of their loops and by accesses to their cache.
  Raft delivers entries to followers in steps of the world, and while a process waits for its log.
  API reads return the stored objects, not a stale cache; there is one KVStore resource.

  \<^bold>\<open>Not modelled.\<close>  Raft, gRPC, protobuf encoding, the ring, the Kubernetes API server and controller runtime, YAML
  and packet libraries are parameters.  Left out: log output of shard process and operator, timeouts and contexts, TLS
  beyond the operator's option lists, the descriptors and the reflection code of the generated messages (which only
  the protobuf runtime reads), the options of the ring and its hash function, parsing of flags, and how
  \<open>fmt.Scanln\<close> splits its input.
\<close>

section \<open>Operator and shard processes\<close>

text \<open>Kubernetes names the pods of a StatefulSet by its name and their ordinal.\<close>

definition pod_name :: "StatefulSet \<Rightarrow> int \<Rightarrow> string" where
  "pod_name x r = meta_Name (ss_Meta x) @ ''-'' @ itoa r"

text \<open>C35: the configuration file names the objects the operator creates: a shard entry is named like the
  shard's Service, which selects the pods of its StatefulSet and is its governing service and the
  backend of its Ingress, and its replicas are named like those pods.  Different shards have different
  names.\<close>

theorem config_names_objects:
  "config_shard kv i =
     \<lparr>shard_Name = meta_Name (svc_Meta (shard_service kv i)),
      shard_Replicas = map (pod_name (shard_set kv i)) [0..sint (ss_Replicas (shard_set kv i)) - 1]\<rparr> \<and>
   svc_Selector (shard_service kv i) = ss_TemplateLabels (shard_set kv i) \<and>
   ss_Selector (shard_set kv i) = ss_TemplateLabels (shard_set kv i) \<and>
   ss_ServiceName (shard_set kv i) = meta_Name (svc_Meta (shard_service kv i)) \<and>
   ing_BackendName (shard_ingress kv i) = meta_Name (svc_Meta (shard_service kv i)) \<and>
   distinct (map shard_Name (config_Shards (build_config kv))) \<and>
   distinct (map shard_Name (config_NewShards (build_config kv)))"
proof -
  have "distinct (map shard_Name (map (config_shard kv) is))" if "distinct is" for "is"
    unfolding config_shard_names using that by (simp add: distinct_map inj_on_def)
  then have "distinct (map shard_Name (config_Shards (build_config kv)))" "distinct (map shard_Name (config_NewShards (build_config kv)))"
    by (auto simp: build_config_def Let_def simp del: map_map)
  then show ?thesis
    by (simp add: config_shard_def shard_service_def shard_set_def shard_ingress_def pod_name_def replica_name_def fun_eq_iff)
qed

text \<open>A client that reads the manifest of a KVStore calls the hosts of the Ingresses the operator
  creates for it: the address of a shard is its Ingress host, whose backend is the key-value port of the
  shard's Service, and different shards have different addresses.\<close>

theorem client_address_is_ingress:
  assumes "kmeta_Name (kcfg_Metadata cfg) = kv_name kv"
    and "kspec_IngressDomain (kcfg_Spec cfg) = spec_IngressDomain (store_Spec kv)"
  shows "client_address cfg i = ing_Host (shard_ingress kv i) @ '':80'' \<and>
    ing_BackendName (shard_ingress kv i) = meta_Name (svc_Meta (shard_service kv i)) \<and>
    tcp_port ''kvrpc'' (ing_BackendPort (shard_ingress kv i)) \<in> set (svc_Ports (shard_service kv i)) \<and>
    inj (client_address cfg)"
  using assms by (simp add: client_address_def shard_ingress_def shard_service_def shard_name_def inj_on_def)

theorem client_address_is_ingress_witness:
  "client_address demo_manifest 0 = ing_Host (shard_ingress (demo_resource [] 1 zero_status) 0) @ '':80'' \<and>
   inj (client_address demo_manifest)"
  using client_address_is_ingress [of demo_manifest "demo_resource [] 1 zero_status" 0]
  by (simp add: demo_manifest_def demo_resource_def)

text \<open>C36: a shard process that started with the default ports serves the three gRPC services at the ports
  the operator's Service publishes under their names; the operator's own calls go to the port of the
  shard service and the Ingress to the port of the key-value service.\<close>

theorem service_ports_served:
  assumes "main_start L s fl cfg b w = (Return (), w')"
    and "flag_kvPort fl = 8080" and "flag_shardPort fl = 8081" and "flag_replicaPort fl = 8083"
  shows "\<exists>p. processes w' s = Some p \<and>
    list_all (\<lambda>(name, port, svc). tcp_port name port \<in> set (svc_Ports (shard_service kv i)) \<and>
        (host_port [] port, svc) \<in> set (servers p))
      [(''kvrpc'', 8080, KV), (''shardrpc'', 8081, ShardRPC), (''leaderrpc'', 8083, ReplicaRPC)] \<and>
    shard_target (shard_set kv i) = host_port (shard_name (kv_name kv) i @ ''.'' @ kv_ns kv) (flag_shardPort fl) \<and>
    ing_BackendPort (shard_ingress kv i) = flag_kvPort fl"
  using main_start_serves [OF assms(1)] assms(2-4)
  by (auto simp: shard_service_def shard_target_def shard_set_def shard_ingress_def)

theorem service_ports_served_witness:
  "\<exists>w' p. main_start demo_shard_lib ''r-0.s-0'' (demo_flags ''s-0'') (Parsed demo_config) False demo_empty = (Return (), w') \<and>
     processes w' ''r-0.s-0'' = Some p \<and> (host_port [] 8081, ShardRPC) \<in> set (servers p)"
proof -
  obtain w' where w': "main_start demo_shard_lib ''r-0.s-0'' (demo_flags ''s-0'') (Parsed demo_config) False demo_empty = (Return (), w')"
    using demo_main_start [of "''s-0''" demo_empty "''r-0.s-0''"] by (auto simp: demo_empty_def)
  show ?thesis using service_ports_served [OF w'] w' by auto
qed

text \<open>C4: the operator leaves the phase that redistributes keys only after every shard it listed has
  answered.  The reconciliation that leaves the phase asks the shards one after the other, and its calls are all that
  changes the shard processes in it; each shard answers with the number of keys that its leader, when it is asked,
  still has to move, cut to 32 bits; and when these numbers are below \<open>2^31\<close>, no leader asked has any key to
  move.\<close>

theorem keys_moved_before_finalizing:
  assumes "range_ok K" and "kube_ok K" and "all_procs store_shared (shard_world c)" and "api_store c = Some kv"
    and "kv_phase kv = PhaseRedistributingKeys" and "api_fault c (api_clock c + 2) = None"
    and "Reconcile K c = (x, c')" and "api_store c' = Some kv'" and "kv_phase kv' = PhaseFinalizingScale"
    and "shards = owned_sets K kv c" and "asked = zip shards (polls K shards (ticks 3 c))"
  shows "shard_world c' = shard_world (polled K shards (ticks 3 c)) \<and> map fst asked = shards \<and>
    (\<forall>(shard, d) \<in> set asked. \<exists>P. answers K (shard, d) P) \<and>
    ((\<forall>(shard, d) \<in> set asked. \<forall>P. pending_at K shard d = Some P \<longrightarrow> card P < 2 ^ 31) \<longrightarrow>
     (\<forall>(shard, d) \<in> set asked. pending_at K shard d = Some {}))"
proof -
  obtain Ps where Ps: "list_all2 (answers K) asked Ps" "sum_list (map count_of Ps) = 0"
    "shard_world c' = shard_world (polled K shards (ticks 3 c))"
    using finalizing_polled [OF assms(1-9)] unfolding assms(10,11) by blast
  have some: "\<exists>P \<in> set Ps. answers K sd P" if "sd \<in> set asked" for sd
    using Ps(1) that by (auto simp: list_all2_conv_all_nth in_set_conv_nth) (metis nth_mem)
  have "\<forall>P \<in> set Ps. P = {}" if "\<forall>(shard, d) \<in> set asked. \<forall>P. pending_at K shard d = Some P \<longrightarrow> card P < 2 ^ 31"
  proof (rule small_counts_zero [OF Ps(2)], intro ballI)
    fix P assume "P \<in> set Ps"
    then obtain shard d where "(shard, d) \<in> set asked" "answers K (shard, d) P"
      using Ps(1) by (auto simp: list_all2_conv_all_nth in_set_conv_nth) (metis surj_pair)
    then show "card P < 2 ^ 31 \<and> finite P" using that answers_finite by (fastforce simp: answers_def)
  qed
  then have "(\<forall>(shard, d) \<in> set asked. \<forall>P. pending_at K shard d = Some P \<longrightarrow> card P < 2 ^ 31) \<longrightarrow>
     (\<forall>(shard, d) \<in> set asked. pending_at K shard d = Some {})"
    using some by (fastforce simp: answers_def)
  moreover have "\<forall>(shard, d) \<in> set asked. \<exists>P. answers K (shard, d) P" using some by blast
  moreover have "map fst asked = shards" by (simp add: assms(11))
  ultimately show ?thesis using Ps(3) by blast
qed

theorem keys_moved_before_finalizing_witness:
  "let kv = demo_resource [] 2 (demo_status PhaseRedistributingKeys 1 2); shard = owned_set demo_kvctl_lib kv 0;
       c = (demo_system (\<lambda>_. None) (Some kv) [shard])\<lparr>shard_world := demo_routed\<rparr> in
   \<exists>x c' kv'. Reconcile demo_kvctl_lib c = (x, c') \<and> api_store c' = Some kv' \<and> kv_phase kv' = PhaseFinalizingScale \<and>
     pending_at demo_kvctl_lib shard (ticks 3 c) = Some {} \<and> shard_world c' = shard_world (polled demo_kvctl_lib [shard] (ticks 3 c))"
proof -
  let ?kv = "demo_resource [] 2 (demo_status PhaseRedistributingKeys 1 2)"
  let ?shard = "owned_set demo_kvctl_lib ?kv 0"
  let ?c = "(demo_system (\<lambda>_. None) (Some ?kv) [?shard])\<lparr>shard_world := demo_routed\<rparr>"
  obtain x c' kv' where run: "Reconcile demo_kvctl_lib ?c = (x, c')" "api_store c' = Some kv'" "kv_phase kv' = PhaseFinalizingScale"
    using demo_finalizes [OF refl refl] by blast
  have shards: "[?shard] = owned_sets demo_kvctl_lib ?kv ?c" by (simp add: list_owned_def index_StatefulSet_def own_objects)
  have few: "card P < 2 ^ 31" if P: "pending_at demo_kvctl_lib ?shard (ticks 3 ?c) = Some P" for P
  proof -
    have target: "shard_target ?shard = host_port ''s-shard-0.default'' 8081"
      by (simp add: shard_target_def owned_set_def shard_set_def controlled_by_def shard_name_def render_simps)
    have "P \<subseteq> {''kk''}" using P by (auto simp: pending_at_def leader_asked_def target pending_of_def split: if_splits)
    then have "card P \<le> card {''kk''}" by (rule card_mono [rotated]) simp
    then show ?thesis by simp
  qed
  have "shard_world c' = shard_world (polled demo_kvctl_lib [?shard] (ticks 3 ?c)) \<and> pending_at demo_kvctl_lib ?shard (ticks 3 ?c) = Some {}"
    using keys_moved_before_finalizing [OF _ _ _ _ _ _ run shards refl] few by auto
  then show ?thesis using run unfolding Let_def by blast
qed

text \<open>C8: after a scaling operation is finalized, a shard process that reads the configuration the operator
  wrote, as parsing gives back what was rendered, reloads it successfully; from then on it sends every key
  to one of the target's shards, at the shard port of a Service the operator has kept.\<close>

theorem finished_scaling_routes_keys:
  assumes "operator_ready K c" and "api_store c = Some kv" and "kv_phase kv = PhaseFinalizingScale"
    and "\<forall>s \<in> set (owned_sets K kv c). ss_Replicas s = spec_Replicas (store_Spec kv)" and "well_stored c"
    and "map_of (rev (meta_Labels (store_Meta kv))) ''group'' = None"
    and "\<forall>i \<in> {0..<kv_target kv}. owned_service K kv i \<in> set (api_services c)" and "0 < kv_target kv"
    and "kv' = resuming kv (now c)" and "yaml_Marshal K (build_config kv') = Inr y" and "read y = Parsed (build_config kv')"
    and "all_procs clients_wf w" and "processes w s = Some p" and "flag_shardPort (flags p) = 8081" and "configFile p = read y"
    and "locate_ok K" and "ring_ok K (map (shard_name (kv_name kv)) [0..kv_target kv - 1])"
    and "\<forall>i. \<exists>n. dial_ok K (host_port (shard_name (kv_name kv) i) 8081) n"
  shows "\<exists>c' w' q. Reconcile K c = (Return (Inr (RequeueAfter 1)), c') \<and> config_text kv (api_configs c') = Some y \<and>
    ReloadConfig K s w = (Return True, w') \<and> processes w' s = Some q \<and>
    (\<forall>key. \<exists>i \<in> {0..<kv_target kv}. locate K (ch q) key = Return (shard_name (kv_name kv) i) \<and>
       map_of (shardClients q) (shard_name (kv_name kv) i) = Some (host_port (meta_Name (svc_Meta (owned_service K kv i))) 8081) \<and>
       owned_service K kv i \<in> set (api_services c'))"
proof -
  let ?ms = "map (shard_name (kv_name kv)) [0..kv_target kv - 1]"
  obtain c' where c': "Reconcile K c = (Return (Inr (RequeueAfter 1)), c')" "config_text kv (api_configs c') = Some y"
    "api_services c' = filter (\<lambda>x. \<not> in_surplus_group K kv (svc_Meta x)) (api_services c)"
    using Reconcile_finalize [OF assms(1-5,9,10)] by blast
  have "configFile p = Parsed (build_config (resuming kv (now c)))" using assms(9,11,15) by simp
  then obtain w' q where q: "ReloadConfig K s w = (Return True, w')" "processes w' s = Some q" "ch q = Some ?ms"
    "\<forall>i \<in> {0..<kv_target kv}. map_of (shardClients q) (shard_name (kv_name kv) i) = Some (host_port (shard_name (kv_name kv) i) 8081)"
    using reload_resumed [OF assms(12-14) _ assms(17,18)] by blast
  have kept: "owned_service K kv i \<in> set (api_services c')" if "i \<in> {0..<kv_target kv}" for i
    using surplus_own [OF own_objects(2,5) owned_names(5) assms(6), of i] assms(7) that c'(3) by auto
  have "\<exists>i \<in> {0..<kv_target kv}. locate K (ch q) key = Return (shard_name (kv_name kv) i)" for key
  proof -
    have "?ms \<noteq> []" using assms(8) by simp
    then obtain m where "m \<in> set ?ms" "LocateKey K ?ms key = Some m" using locate_ok_D [OF assms(16)] by blast
    then show ?thesis using q(3) by (auto simp: locate_def)
  qed
  then show ?thesis using c'(1,2) q kept by (metis owned_names(2))
qed

theorem finished_scaling_routes_keys_witness:
  "let kv = demo_resource [] 1 (demo_status PhaseFinalizingScale 2 1);
       c = (demo_system (\<lambda>_. None) (Some kv) [owned_set demo_kvctl_lib kv 0, owned_set demo_kvctl_lib kv 1])\<lparr>api_services := [owned_service demo_kvctl_lib kv 0, owned_service demo_kvctl_lib kv 1]\<rparr>;
       p = (demo_process ''s-0'' [])\<lparr>configFile := Parsed (build_config (resuming kv 0))\<rparr>;
       w = set_process ''r-0.s-0'' p (demo_world [] []) in
   \<exists>c' w' q. Reconcile demo_kvctl_lib c = (Return (Inr (RequeueAfter 1)), c') \<and>
     ReloadConfig demo_kvctl_lib ''r-0.s-0'' w = (Return True, w') \<and> processes w' ''r-0.s-0'' = Some q \<and>
     locate demo_kvctl_lib (ch q) ''key'' = Return ''s-shard-0''"
proof -
  let ?kv = "demo_resource [] 1 (demo_status PhaseFinalizingScale 2 1)"
  let ?c = "(demo_system (\<lambda>_. None) (Some ?kv) [owned_set demo_kvctl_lib ?kv 0, owned_set demo_kvctl_lib ?kv 1])\<lparr>api_services := [owned_service demo_kvctl_lib ?kv 0, owned_service demo_kvctl_lib ?kv 1]\<rparr>"
  let ?p = "(demo_process ''s-0'' [])\<lparr>configFile := Parsed (build_config (resuming ?kv 0))\<rparr>"
  let ?w = "set_process ''r-0.s-0'' ?p (demo_world [] [])"
  have ready: "operator_ready demo_kvctl_lib ?c" by (simp add: operator_ready_def no_faults_def)
  have stored: "well_stored ?c" by (simp add: well_stored_def unique_objects_def object_key_def)
  have reps: "\<forall>s \<in> set (owned_sets demo_kvctl_lib ?kv ?c). ss_Replicas s = spec_Replicas (store_Spec ?kv)"
    by (auto simp: list_owned_def owned_set_def shard_set_def)
  have wf: "all_procs clients_wf ?w"
    by (rule all_procs_upd(1) [OF demo_clients_wf], rule clients.inv_config)
      (rule all_procsD [OF demo_clients_wf demo_processes(1)])
  have "{0..<1::int} = {0}" by auto
  then have services: "\<forall>i \<in> {0..<kv_target ?kv}. owned_service demo_kvctl_lib ?kv i \<in> set (api_services ?c)" by simp
  have name: "shard_name ''s'' 0 = ''s-shard-0''" by (simp add: shard_name_def render_simps)
  obtain c' w' q where q: "Reconcile demo_kvctl_lib ?c = (Return (Inr (RequeueAfter 1)), c')"
      "ReloadConfig demo_kvctl_lib ''r-0.s-0'' ?w = (Return True, w')" "processes w' ''r-0.s-0'' = Some q"
      "\<forall>key. \<exists>i \<in> {0..<1}. locate demo_kvctl_lib (ch q) key = Return (shard_name ''s'' i)"
    using finished_scaling_routes_keys [OF ready _ _ reps stored _ services _ refl, where w = ?w and s = "''r-0.s-0''" and p = ?p
        and read = "\<lambda>_. Parsed (build_config (resuming ?kv (now ?c)))"] wf by auto metis
  obtain i where i: "i \<in> {0..<1}" "locate demo_kvctl_lib (ch q) ''key'' = Return (shard_name ''s'' i)" using q(4) by blast
  then have "i = 0" by simp
  then have "locate demo_kvctl_lib (ch q) ''key'' = Return ''s-shard-0''" using i(2) name by simp
  then show ?thesis using q(1-3) unfolding Let_def by blast
qed

end
